(* ===== verification/Prelude.thy ===== *)
theory Prelude
  imports Main "HOL-Library.Word" "HOL-Library.Product_Lexorder" "HOL-Library.Sublist"
begin

text \<open>
  Shared vocabulary of the development: the Go values the program computes with (bytes,
  strings, times, durations, 64-bit integers, UUIDs), the pieces of Go's standard
  \<^verbatim>\<open>strings\<close> package the sources call, and the generic lemmas about them.

  Conventions.
  \<^item> A Go \<^verbatim>\<open>string\<close> is a sequence of bytes: HOL \<open>string\<close>, whose characters are bytes.
    A \<^verbatim>\<open>[]byte\<close> is a list of \<open>8 word\<close>; \<open>bytes_of\<close> and \<open>string_of\<close> convert.
  \<^item> A \<^verbatim>\<open>time.Time\<close> is its instant, the nanoseconds since the Unix epoch, as an \<open>int\<close>;
    a \<^verbatim>\<open>time.Duration\<close> is an \<open>int\<close> of nanoseconds that every arithmetic operation of the
    code brings back into the range of \<^verbatim>\<open>int64\<close> with \<open>wrap64\<close>.
  \<^item> A UUID is its 128 bits.
\<close>

section \<open>Collections of simplification rules\<close>

named_theorems go_int \<open>64-bit integer arithmetic\<close>
named_theorems go_str \<open>strings and bytes\<close>

section \<open>Value types\<close>

type_synonym byte = "8 word"
type_synonym bytes = "8 word list"
type_synonym uuid = "128 word"
type_synonym gtime = int
type_synonym duration = int

section \<open>64-bit integers\<close>

definition wrap64 :: "int \<Rightarrow> int" where
  "wrap64 n = (n + 2 ^ 63) mod 2 ^ 64 - 2 ^ 63"

definition in64 :: "int \<Rightarrow> bool" where
  "in64 n \<longleftrightarrow> - (2 ^ 63) \<le> n \<and> n < 2 ^ 63"

lemma wrap64_id [go_int]: "in64 n \<Longrightarrow> wrap64 n = n"
  by (simp add: wrap64_def in64_def)

lemma in64_wrap64 [go_int, simp]: "in64 (wrap64 n)"
proof -
  have "0 \<le> (n + 2 ^ 63) mod 2 ^ 64" and "(n + 2 ^ 63) mod 2 ^ 64 < 2 ^ 64"
    by simp_all
  then show ?thesis by (simp add: wrap64_def in64_def)
qed

lemma wrap64_idem [simp]: "wrap64 (wrap64 n) = wrap64 n"
  by (simp add: wrap64_id)

section \<open>Time\<close>

definition Millisecond :: duration where "Millisecond = 1000000"
definition Second :: duration where "Second = 1000000000"
definition Minute :: duration where "Minute = 60000000000"
definition Hour :: duration where "Hour = 3600000000000"

lemmas time_units = Millisecond_def Second_def Minute_def Hour_def

text \<open>The zero \<^verbatim>\<open>time.Time\<close> is 1 January of year 1, 00:00 UTC.\<close>

definition zero_time :: gtime where
  "zero_time = - 62135596800 * 1000000000"

definition IsZero :: "gtime \<Rightarrow> bool" where
  "IsZero t \<longleftrightarrow> t = zero_time"

text \<open>\<^verbatim>\<open>t.Sub(u)\<close> saturates at the limits of \<^verbatim>\<open>Duration\<close>.\<close>

definition time_Sub :: "gtime \<Rightarrow> gtime \<Rightarrow> duration" where
  "time_Sub t u = max (- (2 ^ 63)) (min (2 ^ 63 - 1) (t - u))"

lemma time_Sub_pos: "0 < time_Sub t u \<longleftrightarrow> u < t"
  by (auto simp: time_Sub_def)

lemma time_Sub_le: "u \<le> t \<Longrightarrow> time_Sub t u \<le> t - u"
  by (simp add: time_Sub_def)

lemma time_Sub_exact: "in64 (t - u) \<Longrightarrow> time_Sub t u = t - u"
  by (simp add: time_Sub_def in64_def)

text \<open>
  \<^verbatim>\<open>t.Truncate(d)\<close> rounds down to a multiple of \<open>d\<close> since the zero time, which is itself a
  whole number of milliseconds from the epoch; \<^verbatim>\<open>UnixMilli\<close> rounds down.
\<close>

definition Truncate_ms :: "gtime \<Rightarrow> gtime" where
  "Truncate_ms t = t - t mod 1000000"

definition UnixMilli :: "gtime \<Rightarrow> int" where
  "UnixMilli t = t div 1000000"

lemma Truncate_ms_le: "Truncate_ms t \<le> t"
  by (simp add: Truncate_ms_def)

lemma Truncate_ms_gt: "t - 1000000 < Truncate_ms t"
  using pos_mod_bound [of 1000000 t] by (simp add: Truncate_ms_def)

lemma UnixMilli_Truncate: "UnixMilli (Truncate_ms t) * 1000000 = Truncate_ms t"
  by (simp add: UnixMilli_def Truncate_ms_def minus_mod_eq_mult_div)

lemma UnixMilli_mono: "t \<le> u \<Longrightarrow> UnixMilli t \<le> UnixMilli u"
  by (simp add: UnixMilli_def zdiv_mono1)

definition UnixNano :: "gtime \<Rightarrow> int" where
  "UnixNano t = wrap64 t"

section \<open>Strings and bytes\<close>

definition bytes_of :: "string \<Rightarrow> bytes" where
  "bytes_of s = map (\<lambda>c. of_nat (of_char c)) s"

definition string_of :: "bytes \<Rightarrow> string" where
  "string_of b = map (\<lambda>x. char_of (unat x)) b"

lemma length_bytes_of [simp]: "length (bytes_of s) = length s"
  by (simp add: bytes_of_def)

lemma length_string_of [simp]: "length (string_of b) = length b"
  by (simp add: string_of_def)

lemma unat_byte_of_char: "unat (of_nat (of_char c) :: byte) = of_char c"
proof -
  have "of_char c < (256 :: nat)"
    by (metis of_char_mod_256 mod_less_divisor zero_less_numeral)
  then show ?thesis by (simp add: unat_of_nat)
qed

lemma string_of_bytes_of [simp]: "string_of (bytes_of s) = s"
  by (simp add: bytes_of_def string_of_def o_def unat_byte_of_char map_idI)

lemma bytes_of_string_of [simp]: "bytes_of (string_of b) = b"
proof -
  have "unat x < 256" for x :: byte
    using unsigned_less [of x] by simp
  then have "of_nat (unat x mod 256) = x" for x :: byte
    by (simp add: mod_less)
  then show ?thesis
    by (simp add: bytes_of_def string_of_def o_def map_idI)
qed

lemma bytes_of_inject [simp]: "bytes_of s = bytes_of t \<longleftrightarrow> s = t"
  by (metis string_of_bytes_of)

lemma bytes_of_append [simp]: "bytes_of (s @ t) = bytes_of s @ bytes_of t"
  by (simp add: bytes_of_def)

lemma bytes_of_eq_Nil [simp]: "bytes_of s = [] \<longleftrightarrow> s = []"
  by (simp add: bytes_of_def)

subsection \<open>The strings package\<close>

definition HasPrefix :: "string \<Rightarrow> string \<Rightarrow> bool" where
  "HasPrefix s p \<longleftrightarrow> take (length p) s = p"

lemma HasPrefix_prefix: "HasPrefix s p \<longleftrightarrow> prefix p s"
  by (metis HasPrefix_def append_eq_conv_conj prefix_def)

lemma HasPrefix_append [simp]: "HasPrefix (p @ s) p"
  by (simp add: HasPrefix_def)

text \<open>\<^verbatim>\<open>strings.TrimRight(s, "/")\<close> for a one-character cutset.\<close>

definition TrimRight :: "char \<Rightarrow> string \<Rightarrow> string" where
  "TrimRight c s = rev (dropWhile (\<lambda>x. x = c) (rev s))"

text \<open>
  \<^verbatim>\<open>strings.TrimSpace\<close> removes leading and trailing Unicode white space. The encodings of
  the white-space code points are listed; removing an encoded rune at an end of a string is
  removing one of these byte sequences.
\<close>

definition space_runes :: "string list" where
  "space_runes =
     map (\<lambda>n. [char_of (n :: nat)]) [9, 10, 11, 12, 13, 32] @
     map (map char_of)
       ([[194, 133], [194, 160], [225, 154, 128]] @
        map (\<lambda>n. [226, 128, n :: nat]) [128, 129, 130, 131, 132, 133, 134, 135, 136, 137, 138] @
        [[226, 128, 168], [226, 128, 169], [226, 128, 175], [226, 129, 159], [227, 128, 128]])"

fun strip_one :: "string list \<Rightarrow> string \<Rightarrow> string option" where
  "strip_one [] s = None"
| "strip_one (r # rs) s =
     (if r \<noteq> [] \<and> take (length r) s = r then Some (drop (length r) s) else strip_one rs s)"

lemma strip_one_shorter: "strip_one rs s = Some t \<Longrightarrow> length t < length s"
proof (induction rs)
  case Nil
  then show ?case by simp
next
  case (Cons r rs)
  show ?case
  proof (cases "r \<noteq> [] \<and> take (length r) s = r")
    case True
    then have "0 < length r" and "length r \<le> length s"
      by (auto simp: take_all_iff) (metis length_take min.cobounded1)
    with Cons.prems True have "length t = length s - length r" by auto
    with \<open>0 < length r\<close> \<open>length r \<le> length s\<close> show ?thesis by linarith
  next
    case False
    with Cons show ?thesis by simp
  qed
qed

function trim_left :: "string list \<Rightarrow> string \<Rightarrow> string" where
  "trim_left rs s = (case strip_one rs s of None \<Rightarrow> s | Some t \<Rightarrow> trim_left rs t)"
  by pat_completeness auto
termination
  by (relation "measure (\<lambda>(rs, s). length s)") (auto dest: strip_one_shorter)

declare trim_left.simps [simp del]

definition TrimSpace :: "string \<Rightarrow> string" where
  "TrimSpace s = rev (trim_left (map rev space_runes) (rev (trim_left space_runes s)))"

text \<open>ASCII case folding, and \<^verbatim>\<open>strings.EqualFold\<close> on it.\<close>

definition lower_char :: "char \<Rightarrow> char" where
  "lower_char c = (let n = of_char c :: nat in if 65 \<le> n \<and> n \<le> 90 then char_of (n + 32) else c)"

definition ToLower :: "string \<Rightarrow> string" where
  "ToLower s = map lower_char s"

definition EqualFold :: "string \<Rightarrow> string \<Rightarrow> bool" where
  "EqualFold s t \<longleftrightarrow> ToLower s = ToLower t"

lemma EqualFold_refl [simp]: "EqualFold s s"
  by (simp add: EqualFold_def)

lemma EqualFold_sym: "EqualFold s t = EqualFold t s"
  by (auto simp: EqualFold_def)

section \<open>Lists\<close>

lemma find_map_first: "find P (map f xs) = map_option f (find (P \<circ> f) xs)"
  by (induction xs) simp_all

end
