(* ===== verification/Errors.thy ===== *)
theory Errors
  imports Prelude
begin

text \<open>
  The error values of the program. Sentinel errors (\<^verbatim>\<open>paste.ErrNotFound\<close>, \<^verbatim>\<open>auth.ErrBadCredentials\<close>,
  \<^verbatim>\<open>crypto.ErrBusy\<close> and so on) are constructors; \<^verbatim>\<open>errors.New("text")\<close> is \<open>EText\<close>;
  \<^verbatim>\<open>fmt.Errorf("prefix: %w", err)\<close> is \<open>EWrap\<close>, which \<^verbatim>\<open>errors.Is\<close> and \<^verbatim>\<open>errors.As\<close> look through.
  \<open>EService\<close> is an error made by a service client (Redis, Postgres, the identity provider),
  \<open>EPg\<close> a \<^verbatim>\<open>pgconn.PgError\<close> with its SQLSTATE code, \<open>EPanic\<close> a panic (which unwinds through the
  deferred calls).
\<close>

datatype goerr =
    ErrNotFound | ErrExpired | ErrDeleted | ErrUnavailable | ErrWrongPassword
  | ErrPasswordRequired | ErrForbidden | ErrInvalidUTF8 | ErrInvalidTTL | ErrInvalidPassword
  | ErrKDFBusy | ErrKeyUnavailable | ErrChallengeRequired
  | ErrTooLarge int int
  | ErrUserNotFound | ErrUserExists | ErrBadCredentials | ErrSessionNotFound
  | ErrNotAuthorised | ErrOIDCStateInvalid
  | ErrChallengeNotFound | ErrChallengeFailed | ErrTokenInvalid
  | ErrBusy
  | Canceled | DeadlineExceeded
  | EText string
  | EService string
  | EPg string
  | EPanic string
  | EWrap string goerr

fun errors_Is :: "goerr \<Rightarrow> goerr \<Rightarrow> bool" where
  "errors_Is (EWrap p e) target = (EWrap p e = target \<or> errors_Is e target)"
| "errors_Is e target = (e = target)"

text \<open>\<^verbatim>\<open>errors.As(err, &tooLarge)\<close>.\<close>

fun as_too_large :: "goerr \<Rightarrow> (int \<times> int) option" where
  "as_too_large (ErrTooLarge l a) = Some (l, a)"
| "as_too_large (EWrap p e) = as_too_large e"
| "as_too_large _ = None"

lemma errors_Is_refl [simp]: "errors_Is e e"
  by (cases e) simp_all

type_synonym 'a res = "goerr + 'a"

section \<open>Sequencing of fallible operations on a state\<close>

text \<open>
  An operation with an error result is a function from the state to a result and the state it
  leaves. \<open>bindR\<close> is the pattern \<^verbatim>\<open>x, err := op(); if err != nil { return ..., err }\<close>, and \<open>mapE\<close>
  rewrites the error on its way out.
\<close>

type_synonym ('s, 'a) op = "'s \<Rightarrow> 'a res \<times> 's"

definition retR :: "'a \<Rightarrow> ('s, 'a) op" where
  "retR x s = (Inr x, s)"

definition failR :: "goerr \<Rightarrow> ('s, 'a) op" where
  "failR e s = (Inl e, s)"

definition liftR :: "'a res \<Rightarrow> ('s, 'a) op" where
  "liftR r s = (r, s)"

definition bindR :: "('s, 'a) op \<Rightarrow> ('a \<Rightarrow> ('s, 'b) op) \<Rightarrow> ('s, 'b) op" where
  "bindR m k s = (case m s of (Inl e, s') \<Rightarrow> (Inl e, s') | (Inr x, s') \<Rightarrow> k x s')"

definition mapE :: "(goerr \<Rightarrow> goerr) \<Rightarrow> ('s, 'a) op \<Rightarrow> ('s, 'a) op" where
  "mapE f m s = (case m s of (Inl e, s') \<Rightarrow> (Inl (f e), s') | (Inr x, s') \<Rightarrow> (Inr x, s'))"

lemma retR_simps [simp]: "retR x s = (Inr x, s)" "failR e s = (Inl e, s)" "liftR r s = (r, s)"
  by (simp_all add: retR_def failR_def liftR_def)

lemma bindR_Inr:
  "bindR m k s = (Inr y, t) \<longleftrightarrow> (\<exists>x s'. m s = (Inr x, s') \<and> k x s' = (Inr y, t))"
  by (auto simp: bindR_def split: prod.splits sum.splits)

lemma bindR_Inl:
  "bindR m k s = (Inl e, t) \<longleftrightarrow>
     m s = (Inl e, t) \<or> (\<exists>x s'. m s = (Inr x, s') \<and> k x s' = (Inl e, t))"
  by (auto simp: bindR_def split: prod.splits sum.splits)

lemma bindR_eval:
  "m s = (Inr x, s') \<Longrightarrow> bindR m k s = k x s'"
  "m s = (Inl e, s') \<Longrightarrow> bindR m k s = (Inl e, s')"
  by (simp_all add: bindR_def)

lemma mapE_Inr [simp]: "mapE f m s = (Inr x, t) \<longleftrightarrow> m s = (Inr x, t)"
  by (auto simp: mapE_def split: prod.splits sum.splits)

lemma snd_mapE [simp]: "snd (mapE f m s) = snd (m s)"
  by (auto simp: mapE_def split: prod.splits sum.splits)

text \<open>What every step keeps, the sequence keeps.\<close>

lemma bindR_keeps:
  assumes "\<And>s. P (snd (m s)) = P s" and "\<And>x s. P (snd (k x s)) = P s"
  shows "P (snd (bindR m k s)) = P s"
  using assms(1) [of s] assms(2)
  by (auto simp: bindR_def split: prod.splits sum.splits)
lemma bindR_preserves:
  assumes "P s" and "P s \<Longrightarrow> P (snd (m s))" and "\<And>x s'. m s = (Inr x, s') \<Longrightarrow> P s' \<Longrightarrow> P (snd (k x s'))"
  shows "P (snd (bindR m k s))"
  using assms by (cases "m s"; cases "fst (m s)") (auto simp: bindR_def)

lemma fst_bindR:
  "fst (bindR m k s) = (case fst (m s) of Inl e \<Rightarrow> Inl e | Inr x \<Rightarrow> fst (k x (snd (m s))))"
  by (simp add: bindR_def split: prod.splits sum.splits)

end
