(* ===== verification/PasteTypes.thy ===== *)
theory PasteTypes
  imports Errors
begin

text \<open>
  The paste domain of \<^verbatim>\<open>internal/paste/types.go\<close>: the encrypted record, the metadata row, the
  caller, the inputs and results of the service. Field names carry the struct's initials.
\<close>

datatype Status = StatusActive | StatusExpired | StatusDeleted | StatusUnavailable

primrec status_string :: "Status \<Rightarrow> string" where
  "status_string StatusActive = ''active''"
| "status_string StatusExpired = ''expired''"
| "status_string StatusDeleted = ''deleted''"
| "status_string StatusUnavailable = ''unavailable''"

text \<open>\<^verbatim>\<open>WrapMode\<close> is a string type with two named values; a stored record may carry any other.\<close>

datatype WrapMode = WrapKEK | WrapPassword | WrapOther string

record KDFParams =
  kp_Salt :: bytes
  kp_Time :: "32 word"
  kp_MemoryKiB :: "32 word"
  kp_Threads :: "8 word"

record EncryptedBody =
  eb_Version :: int
  eb_Alg :: string
  eb_Nonce :: bytes
  eb_Ciphertext :: bytes
  eb_WrapMode :: WrapMode
  eb_KEKID :: string
  eb_KDF :: "KDFParams option"
  eb_WrapNonce :: bytes
  eb_WrappedDEK :: bytes

record PasteMeta =
  pm_ID :: uuid
  pm_OwnerID :: uuid
  pm_CreatedAt :: gtime
  pm_ExpiresAt :: gtime
  pm_TTLSeconds :: int
  pm_SizeBytes :: int
  pm_HashAlgo :: string
  pm_ContentHash :: string
  pm_PasswordProtected :: bool
  pm_KEKID :: string
  pm_ViewCount :: int
  pm_ExpiredAuditedAt :: "gtime option"
  pm_DeletedAt :: "gtime option"
  pm_DeletedBy :: "uuid option"

definition meta_Status :: "PasteMeta \<Rightarrow> gtime \<Rightarrow> Status" where
  "meta_Status m now =
     (if pm_DeletedAt m \<noteq> None then StatusDeleted
      else if \<not> now < pm_ExpiresAt m then StatusExpired
      else StatusActive)"

record Principal =
  pr_UserID :: uuid
  pr_Username :: string
  pr_IsAdmin :: bool

record CreateInput =
  ci_Content :: string
  ci_Password :: string
  ci_TTLSeconds :: int

record CreateResult =
  cr_Meta :: PasteMeta
  cr_URL :: string

text \<open>A nil \<^verbatim>\<open>Content\<close> is \<open>None\<close>.\<close>

record ReadResult =
  rr_Meta :: PasteMeta
  rr_Status :: Status
  rr_Content :: "bytes option"
  rr_HashVisible :: bool

record VerifyResult =
  vr_Match :: bool
  vr_Status :: Status
  vr_Meta :: PasteMeta

record Page =
  pg_Limit :: int
  pg_Offset :: int

lemma meta_Status_simps:
  "meta_Status m now = StatusActive \<longleftrightarrow> pm_DeletedAt m = None \<and> now < pm_ExpiresAt m"
  "meta_Status m now = StatusDeleted \<longleftrightarrow> pm_DeletedAt m \<noteq> None"
  "meta_Status m now = StatusExpired \<longleftrightarrow> pm_DeletedAt m = None \<and> pm_ExpiresAt m \<le> now"
  "meta_Status m now \<noteq> StatusUnavailable"
  by (auto simp: meta_Status_def)

text \<open>The lifecycle only moves forward: a paste that is not active never becomes active again.\<close>

lemma meta_Status_mono:
  "meta_Status m t \<noteq> StatusActive \<Longrightarrow> t \<le> u \<Longrightarrow> meta_Status m u = meta_Status m t"
  by (auto simp: meta_Status_def split: if_splits)

end
