(* ===== verification/Strconv.thy ===== *)
theory Strconv
  imports Prelude
begin

text \<open>
  Go's \<^verbatim>\<open>strconv\<close> on base 10 (\<^verbatim>\<open>FormatInt\<close>, \<^verbatim>\<open>Itoa\<close>, \<^verbatim>\<open>ParseInt\<close> with 64 bits, \<^verbatim>\<open>Atoi\<close>) with the
  round trip between them, and the layout \<^verbatim>\<open>time.RFC3339\<close> of \<^verbatim>\<open>Time.Format\<close> for UTC times.
\<close>

section \<open>Decimal integers\<close>

definition digit_char :: "nat \<Rightarrow> char" where
  "digit_char d = char_of (48 + d)"

definition char_digit :: "char \<Rightarrow> nat option" where
  "char_digit c = (let n = of_char c :: nat in if 48 \<le> n \<and> n \<le> 57 then Some (n - 48) else None)"

fun show_nat :: "nat \<Rightarrow> string" where
  "show_nat n = (if n < 10 then [digit_char n] else show_nat (n div 10) @ [digit_char (n mod 10)])"

declare show_nat.simps [simp del]

definition FormatInt :: "int \<Rightarrow> string" where
  "FormatInt n = (if n < 0 then CHR ''-'' # show_nat (nat (- n)) else show_nat (nat n))"

fun read_digits :: "nat \<Rightarrow> string \<Rightarrow> nat option" where
  "read_digits acc [] = Some acc"
| "read_digits acc (c # cs) =
     (case char_digit c of None \<Rightarrow> None | Some d \<Rightarrow> read_digits (acc * 10 + d) cs)"

text \<open>\<^verbatim>\<open>strconv.ParseInt(s, 10, 64)\<close>: \<open>None\<close> is a syntax or a range error.\<close>

definition ParseInt :: "string \<Rightarrow> int option" where
  "ParseInt s =
     (let neg = (s \<noteq> [] \<and> hd s = CHR ''-'');
          ds = (if s \<noteq> [] \<and> (hd s = CHR ''-'' \<or> hd s = CHR ''+'') then tl s else s)
      in if ds = [] then None
         else case read_digits 0 ds of
                None \<Rightarrow> None
              | Some n \<Rightarrow> (let v = (if neg then - int n else int n) in if in64 v then Some v else None))"

lemma char_digit_digit_char [simp]: "d < 10 \<Longrightarrow> char_digit (digit_char d) = Some d"
  by (simp add: char_digit_def digit_char_def)

lemma digit_char_not_sign:
  assumes "d < 10"
  shows "digit_char d \<noteq> CHR ''-''" and "digit_char d \<noteq> CHR ''+''"
proof -
  have "of_char (digit_char d) = 48 + d"
    using assms by (simp add: digit_char_def)
  moreover have "of_char CHR ''-'' = (45 :: nat)" and "of_char CHR ''+'' = (43 :: nat)"
    by simp_all
  ultimately show "digit_char d \<noteq> CHR ''-''" and "digit_char d \<noteq> CHR ''+''"
    by force+
qed

lemma read_digits_append:
  "read_digits acc (s @ t) =
     (case read_digits acc s of None \<Rightarrow> None | Some a \<Rightarrow> read_digits a t)"
  by (induction acc s rule: read_digits.induct) (auto split: option.splits)

lemma read_digits_show_nat: "read_digits 0 (show_nat n) = Some n"
proof (induction n rule: show_nat.induct)
  case (1 n)
  then show ?case
    by (subst show_nat.simps) (simp add: read_digits_append)
qed

lemma show_nat_digits: "c \<in> set (show_nat n) \<Longrightarrow> char_digit c \<noteq> None"
proof (induction n rule: show_nat.induct)
  case (1 n)
  from 1(2) have "n < 10 \<and> c = digit_char n \<or> \<not> n < 10 \<and> (c \<in> set (show_nat (n div 10)) \<or> c = digit_char (n mod 10))"
    by (subst (asm) show_nat.simps) (auto split: if_splits)
  with 1(1) show ?case by auto
qed

lemma show_nat_nonempty [simp]: "show_nat n \<noteq> []"
  by (subst show_nat.simps) simp

lemma hd_show_nat: "hd (show_nat n) \<noteq> CHR ''-'' \<and> hd (show_nat n) \<noteq> CHR ''+''"
proof (induction n rule: show_nat.induct)
  case (1 n)
  then show ?case
    using digit_char_not_sign [of n]
    by (subst (1 2) show_nat.simps) simp
qed

theorem ParseInt_FormatInt: "in64 n \<Longrightarrow> ParseInt (FormatInt n) = Some n"
  using hd_show_nat [of "nat n"]
  by (simp add: ParseInt_def FormatInt_def read_digits_show_nat)

section \<open>The RFC 3339 layout\<close>

definition pad :: "nat \<Rightarrow> string \<Rightarrow> string" where
  "pad w s = replicate (w - length s) CHR ''0'' @ s"

text \<open>Year, month and day of a day number counted from 1970-01-01 (proleptic Gregorian).\<close>

definition civil_from_days :: "int \<Rightarrow> int \<times> int \<times> int" where
  "civil_from_days days =
     (let z = days + 719468;
          era = z div 146097;
          doe = z mod 146097;
          yoe = (doe - doe div 1460 + doe div 36524 - doe div 146096) div 365;
          doy = doe - (365 * yoe + yoe div 4 - yoe div 100);
          mp = (5 * doy + 2) div 153;
          d = doy - (153 * mp + 2) div 5 + 1;
          m = (if mp < 10 then mp + 3 else mp - 9);
          y = yoe + era * 400 + (if m \<le> 2 then 1 else 0)
      in (y, m, d))"

definition format_year :: "int \<Rightarrow> string" where
  "format_year y = (if y < 0 then CHR ''-'' # pad 4 (show_nat (nat (- y))) else pad 4 (show_nat (nat y)))"

definition unix_sec :: "gtime \<Rightarrow> int" where
  "unix_sec t = t div 1000000000"

definition rfc3339_sec :: "int \<Rightarrow> string" where
  "rfc3339_sec sec =
     (let (y, m, d) = civil_from_days (sec div 86400); r = sec mod 86400;
          two = (\<lambda>n. pad 2 (show_nat (nat n)))
      in format_year y @ ''-'' @ two m @ ''-'' @ two d @ ''T'' @
         two (r div 3600) @ '':'' @ two (r div 60 mod 60) @ '':'' @ two (r mod 60) @ ''Z'')"

definition Format_RFC3339 :: "gtime \<Rightarrow> string" where
  "Format_RFC3339 t = rfc3339_sec (unix_sec t)"

text \<open>\<^verbatim>\<open>time.RFC3339Nano\<close>: the fraction of the second without trailing zeros.\<close>

definition Format_RFC3339Nano :: "gtime \<Rightarrow> string" where
  "Format_RFC3339Nano t =
     (let ns = nat (t mod 1000000000);
          frac = rev (dropWhile (\<lambda>c. c = CHR ''0'') (rev (pad 9 (show_nat ns))));
          s = rfc3339_sec (unix_sec t)
      in if ns = 0 then s else take (length s - 1) s @ ''.'' @ frac @ ''Z'')"

definition time_year :: "gtime \<Rightarrow> int" where
  "time_year t = fst (civil_from_days (unix_sec t div 86400))"

lemma Format_RFC3339_cong: "unix_sec t = unix_sec u \<Longrightarrow> Format_RFC3339 t = Format_RFC3339 u"
  by (simp add: Format_RFC3339_def)

end
