(* ===== verification/Netip.thy ===== *)
theory Netip
  imports Strconv
begin

text \<open>
  The part of Go's \<^verbatim>\<open>net/netip\<close> and \<^verbatim>\<open>strings.Split\<close> the program uses: parsing addresses and prefixes,
  membership in a prefix. The audit store, the proxy configuration and the client address
  middleware rest on it.
\<close>

unbundle bit_operations_syntax

datatype addr = IP4 "32 word" | IP6 "128 word" string

fun Split :: "char \<Rightarrow> string \<Rightarrow> string list" where
  "Split c [] = [[]]"
| "Split c (x # xs) =
     (if x = c then [] # Split c xs
      else case Split c xs of [] \<Rightarrow> [[x]] | p # ps \<Rightarrow> (x # p) # ps)"

definition is_digit :: "char \<Rightarrow> bool" where
  "is_digit c \<longleftrightarrow> 48 \<le> (of_char c :: nat) \<and> (of_char c :: nat) \<le> 57"

definition hexval :: "char \<Rightarrow> nat option" where
  "hexval c =
     (let n = of_char c :: nat
      in if 48 \<le> n \<and> n \<le> 57 then Some (n - 48)
         else if 97 \<le> n \<and> n \<le> 102 then Some (n - 87)
         else if 65 \<le> n \<and> n \<le> 70 then Some (n - 55)
         else None)"

definition dec_number :: "string \<Rightarrow> nat" where
  "dec_number s = foldl (\<lambda>a c. a * 10 + (of_char c - 48)) 0 s"

definition hex_number :: "string \<Rightarrow> nat" where
  "hex_number s = foldl (\<lambda>a c. a * 16 + (case hexval c of None \<Rightarrow> 0 | Some d \<Rightarrow> d)) 0 s"

text \<open>One field of a dotted quad: digits, no leading zero, at most 255.\<close>

definition v4_field :: "string \<Rightarrow> byte option" where
  "v4_field s =
     (if s = [] \<or> \<not> list_all is_digit s \<or> (1 < length s \<and> hd s = CHR ''0'') \<or> 255 < dec_number s then None
      else Some (of_nat (dec_number s)))"

definition v4_fields :: "string \<Rightarrow> bytes option" where
  "v4_fields s =
     (let ps = map v4_field (Split CHR ''.'' s)
      in if length ps \<noteq> 4 \<or> None \<in> set ps then None else Some (map the ps))"

function v6_loop :: "string \<Rightarrow> bytes \<Rightarrow> nat option \<Rightarrow> (bytes \<times> nat option) option" where
  "v6_loop s ip ellipsis =
     (if 16 \<le> length ip then (if s = [] then Some (ip, ellipsis) else None)
      else
        (let h = takeWhile (\<lambda>c. hexval c \<noteq> None) s; r = drop (length h) s;
             ip' = ip @ [of_nat (hex_number h div 256), of_nat (hex_number h)]
         in if h = [] \<or> 4 < length h then None
            else if r \<noteq> [] \<and> hd r = CHR ''.'' then
              (if (ellipsis = None \<and> length ip \<noteq> 12) \<or> 12 < length ip then None
               else map_option (\<lambda>b. (ip @ b, ellipsis)) (v4_fields s))
            else if r = [] then Some (ip', ellipsis)
            else if hd r \<noteq> CHR '':'' \<or> length r = 1 then None
            else if hd (tl r) = CHR '':'' then
              (if ellipsis \<noteq> None then None
               else if tl (tl r) = [] then Some (ip', Some (length ip'))
               else v6_loop (tl (tl r)) ip' (Some (length ip')))
            else v6_loop (tl r) ip' ellipsis))"
  by pat_completeness auto
termination
  by (relation "measure (\<lambda>(s, _, _). length s)") (auto simp: Let_def length_drop)

declare v6_loop.simps [simp del]

definition v6_expand :: "bytes \<times> nat option \<Rightarrow> bytes option" where
  "v6_expand p =
     (case p of (ip, ellipsis) \<Rightarrow>
        (if length ip < 16 then
           (case ellipsis of
              None \<Rightarrow> None
            | Some e \<Rightarrow> Some (take e ip @ replicate (16 - length ip) 0 @ drop e ip))
         else if ellipsis \<noteq> None then None else Some ip))"

definition word_of_bytes :: "bytes \<Rightarrow> 'a :: len word" where
  "word_of_bytes bs = foldl (\<lambda>a b. a * 256 + ucast b) 0 bs"

definition parseIPv6 :: "string \<Rightarrow> addr option" where
  "parseIPv6 inp =
     (let s = takeWhile (\<lambda>c. c \<noteq> CHR ''%'') inp; z = drop (length s) inp; zone = tl z
      in if z \<noteq> [] \<and> zone = [] then None
         else
           (case (if take 2 s = ''::'' then (if drop 2 s = [] then Some ([], Some 0) else v6_loop (drop 2 s) [] (Some 0))
                  else v6_loop s [] None) of
              None \<Rightarrow> None
            | Some p \<Rightarrow> map_option (\<lambda>b. IP6 (word_of_bytes b) zone) (v6_expand p)))"

text \<open>The first of the three separators decides the kind of address.\<close>

definition ParseAddr :: "string \<Rightarrow> addr option" where
  "ParseAddr s =
     (case find (\<lambda>c. c \<in> {CHR ''.'', CHR '':'', CHR ''%''}) s of
        None \<Rightarrow> None
      | Some c \<Rightarrow>
          (if c = CHR ''.'' then map_option (\<lambda>b. IP4 (word_of_bytes b)) (v4_fields s)
           else if c = CHR '':'' then parseIPv6 s
           else None))"

record Prefix =
  px_addr :: addr
  px_bits :: nat

definition ParsePrefix :: "string \<Rightarrow> Prefix option" where
  "ParsePrefix s =
     (let bits = rev (takeWhile (\<lambda>c. c \<noteq> CHR ''/'') (rev s));
          a = take (length s - length bits - 1) s
      in if CHR ''/'' \<notin> set s then None
         else case ParseAddr a of
           None \<Rightarrow> None
         | Some ip \<Rightarrow>
             (if (case ip of IP6 _ z \<Rightarrow> z \<noteq> [] | IP4 _ \<Rightarrow> False) then None
              else if bits = [] \<or> \<not> list_all is_digit bits \<or> (1 < length bits \<and> hd bits = CHR ''0'') then None
              else if (case ip of IP4 _ \<Rightarrow> 32 | IP6 _ _ \<Rightarrow> 128) < dec_number bits then None
              else Some \<lparr>px_addr = ip, px_bits = dec_number bits\<rparr>))"

definition Contains :: "Prefix \<Rightarrow> addr \<Rightarrow> bool" where
  "Contains p ip =
     (case (px_addr p, ip) of
        (IP4 a, IP4 b) \<Rightarrow> drop_bit (32 - px_bits p) (a XOR b) = 0
      | (IP6 a _, IP6 b z) \<Rightarrow> z = [] \<and> drop_bit (128 - px_bits p) (a XOR b) = 0
      | _ \<Rightarrow> False)"

lemma Split_not_Nil [simp]: "Split c s \<noteq> []"
  by (induction s) (auto split: list.splits)

lemma Split_single [simp]: "c \<notin> set s \<Longrightarrow> Split c s = [s]"
  by (induction s) auto

lemma Split_append [simp]: "c \<notin> set p \<Longrightarrow> Split c (p @ c # s) = p # Split c s"
  by (induction p) auto

lemma Contains_self: "px_addr p = IP4 a \<or> px_addr p = IP6 a' [] \<Longrightarrow> Contains p (px_addr p)"
  by (auto simp: Contains_def)

lemma drop_bit_more:
  fixes x :: "'a :: len word"
  assumes "drop_bit k x = 0" and "k \<le> m"
  shows "drop_bit m x = 0"
proof -
  have "drop_bit m x = drop_bit (m - k) (drop_bit k x)"
    using assms(2) by (simp add: drop_bit_drop_bit)
  with assms(1) show ?thesis by simp
qed

text \<open>A shorter prefix of the same address contains at least what the longer one contains.\<close>

lemma Contains_mono:
  assumes "Contains p ip" and "px_addr q = px_addr p" and "px_bits q \<le> px_bits p"
  shows "Contains q ip"
  using assms
  by (auto simp: Contains_def simp del: drop_bit_xor split: addr.splits elim: drop_bit_more)

end
