(* ===== verification/AuditLog.thy ===== *)
theory AuditLog
  imports Errors Netip
begin

text \<open>
  \<^verbatim>\<open>internal/audit\<close>: events, the request information carried by the context, and the sinks.
  A sink is a function that consumes an event and changes the state; \<open>Multi\<close> fans out to
  several. The event and outcome names are datatypes, \<open>event_string\<close> and \<open>outcome_string\<close>
  give the strings of the source.
\<close>

datatype audit_event =
    LoginSuccess | LoginFailure | Logout | OIDCLogin | OIDCDenied | PasteCreated | PasteViewed
  | PasteUnlockSuccess | PasteUnlockFailure | PasteVerify | PasteDeleted | PasteExpired
  | PasteUnavailable | RateLimited | KDFBusy | ChallengeIssued | ChallengePassed
  | ChallengeFailed | UserCreated | UserDisabled | AuditPurged | MetadataPurged

primrec event_string :: "audit_event \<Rightarrow> string" where
  "event_string LoginSuccess = ''login_success''"
| "event_string LoginFailure = ''login_failure''"
| "event_string Logout = ''logout''"
| "event_string OIDCLogin = ''oidc_login''"
| "event_string OIDCDenied = ''oidc_denied''"
| "event_string PasteCreated = ''paste_created''"
| "event_string PasteViewed = ''paste_viewed''"
| "event_string PasteUnlockSuccess = ''paste_unlock_success''"
| "event_string PasteUnlockFailure = ''paste_unlock_failure''"
| "event_string PasteVerify = ''paste_verify''"
| "event_string PasteDeleted = ''paste_deleted''"
| "event_string PasteExpired = ''paste_expired''"
| "event_string PasteUnavailable = ''paste_unavailable''"
| "event_string RateLimited = ''rate_limited''"
| "event_string KDFBusy = ''kdf_busy''"
| "event_string ChallengeIssued = ''challenge_issued''"
| "event_string ChallengePassed = ''challenge_passed''"
| "event_string ChallengeFailed = ''challenge_failed''"
| "event_string UserCreated = ''user_created''"
| "event_string UserDisabled = ''user_disabled''"
| "event_string AuditPurged = ''audit_purged''"
| "event_string MetadataPurged = ''metadata_purged''"

datatype audit_outcome = OutcomeSuccess | OutcomeFailure | OutcomeDenied

primrec outcome_string :: "audit_outcome \<Rightarrow> string" where
  "outcome_string OutcomeSuccess = ''success''"
| "outcome_string OutcomeFailure = ''failure''"
| "outcome_string OutcomeDenied = ''denied''"

text \<open>The values of \<^verbatim>\<open>Details\<close> (a \<^verbatim>\<open>map[string]any\<close>): numbers, booleans, strings and times.\<close>

datatype dval = DInt int | DBool bool | DStr string | DTime gtime

record Event =
  ev_At :: gtime
  ev_Event :: audit_event
  ev_ActorID :: "uuid option"
  ev_PasteID :: "uuid option"
  ev_IP :: string
  ev_UserAgent :: string
  ev_Outcome :: audit_outcome
  ev_Details :: "(string \<times> dval) list"

text \<open>A row of \<^verbatim>\<open>audit_events\<close>; the serial number is the position in the table.\<close>

record AuditRow =
  ar_At :: gtime
  ar_Event :: audit_event
  ar_ActorID :: "uuid option"
  ar_PasteID :: "uuid option"
  ar_IP :: "addr option"
  ar_UserAgent :: "string option"
  ar_Outcome :: audit_outcome
  ar_Details :: "(string \<times> dval) list"

text \<open>The request information of a context; both strings are empty when nothing is attached.\<close>

record ctx =
  ctx_ip :: string
  ctx_ua :: string

definition background :: ctx where
  "background = \<lparr>ctx_ip = [], ctx_ua = []\<rparr>"

definition WithRequestInfo :: "ctx \<Rightarrow> string \<Rightarrow> string \<Rightarrow> ctx" where
  "WithRequestInfo c ip userAgent = c\<lparr>ctx_ip := ip, ctx_ua := userAgent\<rparr>"

definition RequestInfo :: "ctx \<Rightarrow> string \<times> string" where
  "RequestInfo c = (ctx_ip c, ctx_ua c)"

text \<open>What both sinks do to an event first: a missing time is now, missing request fields are
  taken from the context.\<close>

definition fill_request_info :: "ctx \<Rightarrow> Event \<Rightarrow> Event" where
  "fill_request_info c e =
     (if ev_IP e = [] \<or> ev_UserAgent e = [] then
        (let (ip, ua) = RequestInfo c;
             e1 = (if ev_IP e = [] then e\<lparr>ev_IP := ip\<rparr> else e)
         in if ev_UserAgent e1 = [] then e1\<lparr>ev_UserAgent := ua\<rparr> else e1)
      else e)"

text \<open>\<^verbatim>\<open>Multi.Record\<close>.\<close>

fun Multi_Record :: "(ctx \<Rightarrow> Event \<Rightarrow> 's \<Rightarrow> 's) list \<Rightarrow> ctx \<Rightarrow> Event \<Rightarrow> 's \<Rightarrow> 's" where
  "Multi_Record [] c e s = s"
| "Multi_Record (m # ms) c e s = Multi_Record ms c e (m c e s)"

lemma event_string_inj: "event_string a = event_string b \<Longrightarrow> a = b"
  by (cases a; cases b; simp)

lemma Multi_Record_fold: "Multi_Record ms c e s = fold (\<lambda>m. m c e) ms s"
  by (induction ms arbitrary: s) simp_all

lemma fill_request_info_complete:
  "ctx_ip c \<noteq> [] \<Longrightarrow> ctx_ua c \<noteq> [] \<Longrightarrow>
   ev_IP (fill_request_info c e) \<noteq> [] \<and> ev_UserAgent (fill_request_info c e) \<noteq> []"
  by (simp add: fill_request_info_def RequestInfo_def Let_def)

lemma fill_request_info_keeps:
  "ev_Event (fill_request_info c e) = ev_Event e"
  "ev_ActorID (fill_request_info c e) = ev_ActorID e"
  "ev_PasteID (fill_request_info c e) = ev_PasteID e"
  "ev_Outcome (fill_request_info c e) = ev_Outcome e"
  "ev_Details (fill_request_info c e) = ev_Details e"
  "ev_At (fill_request_info c e) = ev_At e"
  by (simp_all add: fill_request_info_def RequestInfo_def Let_def)

end
