(* ===== verification/Gate.thy ===== *)
theory Gate
  imports Errors
begin

text \<open>
  \<^verbatim>\<open>internal/crypto/gate.go\<close>: the gate that bounds concurrent key derivations. The slot channel is
  the number of occupied slots. \<open>Acquire\<close> is one outcome of its \<^verbatim>\<open>select\<close>; which case fires is an
  argument, and a send on a full channel cannot fire, so the timer does. The interleaving of any
  number of goroutines that use the gate is the step relation \<open>gate_step\<close>; a goroutine enters,
  acquires or gives up, and a holder runs the release function it was given exactly once.
\<close>

section \<open>The gate\<close>

text \<open>The case \<^verbatim>\<open>select\<close> takes: the send on the slot channel, the context's end, the timer.\<close>

datatype select_case = SelectSlot | SelectDone goerr | SelectTimer

record Gate =
  g_used :: nat
  g_cap :: nat
  g_timeout :: duration

definition NewGate :: "int \<Rightarrow> duration \<Rightarrow> Gate" where
  "NewGate maxConcurrent queueTimeout =
     (let maxConcurrent = (if maxConcurrent < 1 then 1 else maxConcurrent)
      in \<lparr>g_used = 0, g_cap = nat maxConcurrent, g_timeout = queueTimeout\<rparr>)"

definition Acquire :: "select_case \<Rightarrow> Gate \<Rightarrow> goerr option \<times> Gate" where
  "Acquire c g =
     (case c of
        SelectSlot \<Rightarrow>
          (if g_used g < g_cap g then (None, g\<lparr>g_used := Suc (g_used g)\<rparr>) else (Some ErrBusy, g))
      | SelectDone e \<Rightarrow> (Some e, g)
      | SelectTimer \<Rightarrow> (Some ErrBusy, g))"

definition release :: "Gate \<Rightarrow> Gate" where
  "release g = g\<lparr>g_used := g_used g - 1\<rparr>"

definition gate_ok :: "Gate \<Rightarrow> bool" where
  "gate_ok g \<longleftrightarrow> 0 < g_cap g \<and> g_used g \<le> g_cap g"

lemma gate_ok_New: "gate_ok (NewGate n d)"
  by (simp add: gate_ok_def NewGate_def Let_def)

lemma Acquire_simps [simp]:
  "fst (Acquire c g) = None \<longleftrightarrow> c = SelectSlot \<and> g_used g < g_cap g"
  "fst (Acquire c g) \<noteq> None \<Longrightarrow> snd (Acquire c g) = g"
  "g_cap (snd (Acquire c g)) = g_cap g"
  by (auto simp: Acquire_def split: select_case.splits if_splits)

lemma Acquire_cases:
  obtains (slot) "c = SelectSlot" "g_used g < g_cap g" "Acquire c g = (None, g\<lparr>g_used := Suc (g_used g)\<rparr>)"
  | (failed) e where "Acquire c g = (Some e, g)"
  by (cases c; cases "g_used g < g_cap g") (auto simp: Acquire_def)

lemma gate_ok_Acquire: "gate_ok g \<Longrightarrow> gate_ok (snd (Acquire c g))"
  by (cases c g rule: Acquire_cases) (auto simp: gate_ok_def)

lemma gate_ok_release: "gate_ok g \<Longrightarrow> gate_ok (release g)"
  by (auto simp: gate_ok_def release_def)

text \<open>A successful \<open>Acquire\<close> followed by its release function restores the gate.\<close>

lemma release_Acquire: "Acquire c g = (None, g') \<Longrightarrow> release g' = g"
  by (cases c g rule: Acquire_cases) (auto simp: release_def)

section \<open>Goroutines competing for the gate\<close>

datatype pc = Idle | Waiting | Holding

record gate_sys =
  gs_gate :: Gate
  gs_pc :: "nat \<Rightarrow> pc"

definition gate_init :: "int \<Rightarrow> duration \<Rightarrow> gate_sys" where
  "gate_init n d = \<lparr>gs_gate = NewGate n d, gs_pc = (\<lambda>_. Idle)\<rparr>"

inductive gate_step :: "gate_sys \<Rightarrow> gate_sys \<Rightarrow> bool" where
  enter: "gs_pc s p = Idle \<Longrightarrow> gate_step s (s\<lparr>gs_pc := (gs_pc s)(p := Waiting)\<rparr>)"
| acquire: "gs_pc s p = Waiting \<Longrightarrow> Acquire c (gs_gate s) = (None, g) \<Longrightarrow>
     gate_step s (s\<lparr>gs_gate := g, gs_pc := (gs_pc s)(p := Holding)\<rparr>)"
| give_up: "gs_pc s p = Waiting \<Longrightarrow> Acquire c (gs_gate s) = (Some e, g) \<Longrightarrow>
     gate_step s (s\<lparr>gs_gate := g, gs_pc := (gs_pc s)(p := Idle)\<rparr>)"
| release: "gs_pc s p = Holding \<Longrightarrow>
     gate_step s (s\<lparr>gs_gate := release (gs_gate s), gs_pc := (gs_pc s)(p := Idle)\<rparr>)"

inductive gate_reach :: "int \<Rightarrow> duration \<Rightarrow> gate_sys \<Rightarrow> bool" for n d where
  start: "gate_reach n d (gate_init n d)"
| step: "gate_reach n d s \<Longrightarrow> gate_step s t \<Longrightarrow> gate_reach n d t"

inductive_cases gate_stepE: "gate_step s t"

definition holders :: "gate_sys \<Rightarrow> nat set" where
  "holders s = {p. gs_pc s p = Holding}"

text \<open>The occupied slots are exactly the goroutines between acquire and release.\<close>

definition gate_inv :: "gate_sys \<Rightarrow> bool" where
  "gate_inv s \<longleftrightarrow>
     gate_ok (gs_gate s) \<and> finite (holders s) \<and> g_used (gs_gate s) = card (holders s)"

lemma holders_upd:
  "holders (s\<lparr>gs_gate := g, gs_pc := (gs_pc s)(p := Holding)\<rparr>) = insert p (holders s)"
  "c \<noteq> Holding \<Longrightarrow> holders (s\<lparr>gs_gate := g, gs_pc := (gs_pc s)(p := c)\<rparr>) = holders s - {p}"
  "c \<noteq> Holding \<Longrightarrow> holders (s\<lparr>gs_pc := (gs_pc s)(p := c)\<rparr>) = holders s - {p}"
  by (auto simp: holders_def)

lemma gate_inv_init: "gate_inv (gate_init n d)"
  using gate_ok_New [of n d]
  by (simp add: gate_inv_def gate_init_def holders_def) (simp add: NewGate_def Let_def)

lemma gate_step_cap: "gate_step s t \<Longrightarrow> g_cap (gs_gate t) = g_cap (gs_gate s)"
proof (induction rule: gate_step.induct)
  case (acquire s p c g)
  then show ?case using Acquire_simps(3) [of c "gs_gate s"] by simp
next
  case (give_up s p c e g)
  then show ?case using Acquire_simps(3) [of c "gs_gate s"] by simp
qed (simp_all add: release_def)

lemma gate_step_inv: "gate_step s t \<Longrightarrow> gate_inv s \<Longrightarrow> gate_inv t"
proof (induction rule: gate_step.induct)
  case (enter s p)
  then have "p \<notin> holders s" by (simp add: holders_def)
  with enter show ?case by (simp add: gate_inv_def holders_upd)
next
  case (acquire s p c g)
  then have "p \<notin> holders s" by (simp add: holders_def)
  moreover from acquire have "gate_ok g"
    using gate_ok_Acquire [of "gs_gate s" c] by (simp add: gate_inv_def)
  moreover from acquire.hyps(2) have "g_used g = Suc (g_used (gs_gate s))"
    by (cases c "gs_gate s" rule: Acquire_cases) auto
  ultimately show ?case
    using acquire by (simp add: gate_inv_def holders_upd)
next
  case (give_up s p c e g)
  then have "p \<notin> holders s" by (simp add: holders_def)
  moreover from give_up.hyps(2) have "g = gs_gate s"
    by (cases c "gs_gate s" rule: Acquire_cases) auto
  ultimately show ?case
    using give_up by (simp add: gate_inv_def holders_upd)
next
  case (release s p)
  then have "p \<in> holders s" by (simp add: holders_def)
  with release show ?case
    by (simp add: gate_inv_def holders_upd gate_ok_release) (simp add: release_def)
qed

lemma gate_reach_inv: "gate_reach n d s \<Longrightarrow> gate_inv s"
  by (induction rule: gate_reach.induct) (auto intro: gate_inv_init gate_step_inv)

lemma gate_reach_cap: "gate_reach n d s \<Longrightarrow> g_cap (gs_gate s) = nat (max 1 n)"
  by (induction rule: gate_reach.induct)
     (auto simp: gate_init_def NewGate_def Let_def max_def gate_step_cap)

end
