(* ===== verification/Metrics.thy ===== *)
theory Metrics
  imports Strconv
begin

text \<open>
  The counters of \<^verbatim>\<open>internal/httpserver/metrics.go\<close>: 64-bit atomic counters by name, one counter per
  class of response, a gauge, and the Prometheus text they are exported as.
\<close>

definition MetricPastesCreated :: string where "MetricPastesCreated = ''pastebin_pastes_created_total''"
definition MetricUnlockFailures :: string where "MetricUnlockFailures = ''pastebin_unlock_failures_total''"
definition MetricChallengePassed :: string where "MetricChallengePassed = ''pastebin_challenge_passed_total''"
definition MetricChallengeFailed :: string where "MetricChallengeFailed = ''pastebin_challenge_failed_total''"
definition MetricRateLimited :: string where "MetricRateLimited = ''pastebin_rate_limited_total''"

lemmas metric_names =
  MetricPastesCreated_def MetricUnlockFailures_def MetricChallengePassed_def MetricChallengeFailed_def
  MetricRateLimited_def

record Metrics =
  mt_counters :: "(string \<times> int) list"
  mt_http :: "int list"
  mt_active :: int

definition NewMetrics :: Metrics where
  "NewMetrics =
     \<lparr>mt_counters = map (\<lambda>n. (n, 0)) [MetricPastesCreated, MetricUnlockFailures, MetricChallengePassed,
                      MetricChallengeFailed, MetricRateLimited],
      mt_http = replicate 4 0, mt_active = 0\<rparr>"

definition Metrics_Inc :: "string \<Rightarrow> Metrics \<Rightarrow> Metrics" where
  "Metrics_Inc name m =
     (case map_of (mt_counters m) name of
        Some c \<Rightarrow> m\<lparr>mt_counters := map (\<lambda>(n, v). (n, if n = name then wrap64 (c + 1) else v)) (mt_counters m)\<rparr>
      | None \<Rightarrow> m)"

definition Metrics_SetActive :: "int \<Rightarrow> Metrics \<Rightarrow> Metrics" where
  "Metrics_SetActive n m = m\<lparr>mt_active := n\<rparr>"

text \<open>Integer division in Go rounds towards zero.\<close>

definition Metrics_IncHTTP :: "int \<Rightarrow> Metrics \<Rightarrow> Metrics" where
  "Metrics_IncHTTP status m =
     (let i = (if 0 \<le> status then status div 100 else - (- status div 100)) - 2
      in if 0 \<le> i \<and> i < 4
         then m\<lparr>mt_http := (mt_http m)[nat i := wrap64 (mt_http m ! nat i + 1)]\<rparr>
         else m)"

text \<open>The body of the export. The names are written in byte order.\<close>

fun byte_le :: "string \<Rightarrow> string \<Rightarrow> bool" where
  "byte_le [] b = True"
| "byte_le (x # a) [] = False"
| "byte_le (x # a) (y # b) = ((of_char x :: nat) < of_char y \<or> (x = y \<and> byte_le a b))"

fun insert_name :: "string \<times> 'a \<Rightarrow> (string \<times> 'a) list \<Rightarrow> (string \<times> 'a) list" where
  "insert_name x [] = [x]"
| "insert_name x (y # ys) = (if byte_le (fst x) (fst y) then x # y # ys else y # insert_name x ys)"

definition sort_names :: "(string \<times> 'a) list \<Rightarrow> (string \<times> 'a) list" where
  "sort_names xs = foldr insert_name xs []"

definition metrics_text :: "Metrics \<Rightarrow> string" where
  "metrics_text m =
     concat (map (\<lambda>(n, v). ''# TYPE '' @ n @ '' counter'' @ [CHR 0x0A] @ n @ '' '' @ FormatInt v @ [CHR 0x0A])
               (sort_names (mt_counters m))) @
     ''# TYPE pastebin_pastes_active gauge'' @ [CHR 0x0A] @ ''pastebin_pastes_active '' @ FormatInt (mt_active m) @ [CHR 0x0A] @
     ''# TYPE pastebin_http_requests_total counter'' @ [CHR 0x0A] @
     concat (map (\<lambda>(cls, v). ''pastebin_http_requests_total{class='' @ [CHR 0x22] @ cls @ [CHR 0x22] @ ''} '' @ FormatInt v @ [CHR 0x0A])
               (zip [''2xx'', ''3xx'', ''4xx'', ''5xx''] (mt_http m)))"

section \<open>What an increment does\<close>

definition metrics_ok :: "Metrics \<Rightarrow> bool" where
  "metrics_ok m \<longleftrightarrow>
     map fst (mt_counters m) = map fst (mt_counters NewMetrics) \<and> length (mt_http m) = 4"

lemma metrics_ok_steps [intro]:
  "metrics_ok NewMetrics"
  "metrics_ok m \<Longrightarrow> metrics_ok (Metrics_Inc name m)"
  "metrics_ok m \<Longrightarrow> metrics_ok (Metrics_SetActive n m)"
  "metrics_ok m \<Longrightarrow> metrics_ok (Metrics_IncHTTP status m)"
proof -
  have names: "map (fst \<circ> (\<lambda>(n, v). (n, f n v))) xs = map fst xs" for f :: "string \<Rightarrow> int \<Rightarrow> int" and xs
    by (induction xs) auto
  show "metrics_ok NewMetrics" by (simp add: metrics_ok_def NewMetrics_def)
  show "metrics_ok m \<Longrightarrow> metrics_ok (Metrics_Inc name m)"
    by (auto simp: metrics_ok_def Metrics_Inc_def names split: option.splits)
  show "metrics_ok m \<Longrightarrow> metrics_ok (Metrics_SetActive n m)"
    by (simp add: metrics_ok_def Metrics_SetActive_def)
  show "metrics_ok m \<Longrightarrow> metrics_ok (Metrics_IncHTTP status m)"
    by (simp add: metrics_ok_def Metrics_IncHTTP_def Let_def)
qed

lemma map_of_Inc:
  "map_of (mt_counters (Metrics_Inc name m)) n =
     (if n = name then map_option (\<lambda>c. wrap64 (c + 1)) (map_of (mt_counters m) n) else map_of (mt_counters m) n)"
proof -
  have "map_of (map (\<lambda>(k, v). (k, if k = name then c else v)) xs) n =
    (if n = name then map_option (\<lambda>_. c) (map_of xs n) else map_of xs n)" for c :: int and xs
    by (induction xs) auto
  then show ?thesis by (auto simp: Metrics_Inc_def split: option.splits)
qed

end
