(* ===== verification/World.thy ===== *)
theory World
  imports PasteTypes AuditLog Gate Metrics
begin

text \<open>
  The outside world of the program. Everything that is not code of the repository (the Redis
  server, the clocks, the random source, the UUID package, the cryptographic primitives, the
  moment a network call fails) is a field of the environment \<open>env\<close>, which is an argument of
  every operation that uses it. What the program relies on is stated in the predicates
  \<open>redis_laws\<close> and \<open>crypto_laws\<close>.

  Each interaction with the outside has a number, the \<open>w_tick\<close> of the world; the environment
  answers by that number, so two readings of a clock, or two calls of a service, are
  independent of each other. A service call is served, refused before it takes effect, or
  takes effect while its reply is lost: the caller sees an error in the last two cases.
\<close>

section \<open>The Redis server\<close>

text \<open>
  JSON values as Go's decoder sees them. \<open>JTime\<close> is a string in the layout RFC 3339 with nanoseconds, as
  \<^verbatim>\<open>time.Time\<close> is written; \<open>JStr\<close> is any other string.
\<close>

datatype json =
    JNull | JBool bool | JNum int | JStr string | JTime gtime | JArr "json list" | JObj "(string \<times> json) list"

datatype rval = RText string | RNum int | RJson json | RHash "(string \<times> string) list"

text \<open>
  The commands the program sends, over an abstract server state. The first argument of a
  command is the server's clock in milliseconds; \<open>rs_view\<close> is the observable content: the
  value and the expiry deadline of every live key at a time.
\<close>

record 'r redis_srv =
  rs_view :: "'r \<Rightarrow> int \<Rightarrow> string \<Rightarrow> (rval \<times> int option) option"
  rs_set :: "int \<Rightarrow> string \<Rightarrow> rval \<Rightarrow> duration \<Rightarrow> 'r \<Rightarrow> 'r"
  rs_setnx :: "int \<Rightarrow> string \<Rightarrow> rval \<Rightarrow> duration \<Rightarrow> 'r \<Rightarrow> bool \<times> 'r"
  rs_get :: "int \<Rightarrow> string \<Rightarrow> 'r \<Rightarrow> rval option"
  rs_del :: "int \<Rightarrow> string \<Rightarrow> 'r \<Rightarrow> 'r"
  rs_getdel :: "int \<Rightarrow> string \<Rightarrow> 'r \<Rightarrow> rval option \<times> 'r"
  rs_exists :: "int \<Rightarrow> string \<Rightarrow> 'r \<Rightarrow> bool"
  rs_hset :: "int \<Rightarrow> string \<Rightarrow> (string \<times> string) list \<Rightarrow> 'r \<Rightarrow> 'r"
  rs_hget :: "int \<Rightarrow> string \<Rightarrow> string \<Rightarrow> 'r \<Rightarrow> string option"
  rs_hgetall :: "int \<Rightarrow> string \<Rightarrow> 'r \<Rightarrow> (string \<times> string) list"
  rs_pexpireat :: "int \<Rightarrow> string \<Rightarrow> int \<Rightarrow> 'r \<Rightarrow> int \<times> 'r"
  rs_incr :: "int \<Rightarrow> string \<Rightarrow> 'r \<Rightarrow> int \<times> 'r"
  rs_pexpire :: "int \<Rightarrow> string \<Rightarrow> int \<Rightarrow> 'r \<Rightarrow> int \<times> 'r"
  rs_pttl :: "int \<Rightarrow> string \<Rightarrow> 'r \<Rightarrow> int"

text \<open>What is left at time \<open>t\<close> of an entry seen earlier: a key lives up to its deadline.\<close>

definition live_at :: "int \<Rightarrow> (rval \<times> int option) option \<Rightarrow> (rval \<times> int option) option" where
  "live_at t x =
     (case x of Some (v, Some d) \<Rightarrow> (if t \<le> d then x else None) | _ \<Rightarrow> x)"

definition redis_time_laws :: "'r redis_srv \<Rightarrow> bool" where
  "redis_time_laws R \<longleftrightarrow>
     (\<forall>s t k. live_at t (rs_view R s t k) = rs_view R s t k) \<and>
     (\<forall>s t u k. t \<le> u \<longrightarrow> rs_view R s u k = live_at u (rs_view R s t k))"

definition redis_string_laws :: "'r redis_srv \<Rightarrow> bool" where
  "redis_string_laws R \<longleftrightarrow>
     (\<forall>t k s. rs_get R t k s = map_option fst (rs_view R s t k)) \<and>
     (\<forall>t k v d s. Millisecond \<le> d \<longrightarrow>
        rs_view R (rs_set R t k v d s) t = (rs_view R s t)(k \<mapsto> (v, Some (t + d div Millisecond)))) \<and>
     (\<forall>t k v d s. fst (rs_setnx R t k v d s) = (rs_view R s t k = None)) \<and>
     (\<forall>t k v d s. Millisecond \<le> d \<longrightarrow>
        rs_view R (snd (rs_setnx R t k v d s)) t =
        (if rs_view R s t k = None then (rs_view R s t)(k \<mapsto> (v, Some (t + d div Millisecond)))
         else rs_view R s t)) \<and>
     (\<forall>t k s. rs_view R (rs_del R t k s) t = (rs_view R s t)(k := None)) \<and>
     (\<forall>t k s. fst (rs_getdel R t k s) = map_option fst (rs_view R s t k)) \<and>
     (\<forall>t k s. rs_view R (snd (rs_getdel R t k s)) t = (rs_view R s t)(k := None)) \<and>
     (\<forall>t k s. rs_exists R t k s = (rs_view R s t k \<noteq> None))"

definition redis_hash_laws :: "'r redis_srv \<Rightarrow> bool" where
  "redis_hash_laws R \<longleftrightarrow>
     (\<forall>t k fs s. rs_view R s t k = None \<longrightarrow>
        rs_view R (rs_hset R t k fs s) t = (rs_view R s t)(k \<mapsto> (RHash fs, None))) \<and>
     (\<forall>t k f s fs d. rs_view R s t k = Some (RHash fs, d) \<longrightarrow> rs_hget R t k f s = map_of fs f) \<and>
     (\<forall>t k s fs d. rs_view R s t k = Some (RHash fs, d) \<longrightarrow> rs_hgetall R t k s = fs) \<and>
     (\<forall>t k s. rs_view R s t k = None \<longrightarrow> rs_hgetall R t k s = [])"

definition expire_entry :: "int \<Rightarrow> int \<Rightarrow> (rval \<times> int option) option \<Rightarrow> (rval \<times> int option) option" where
  "expire_entry t d x =
     (case x of None \<Rightarrow> None | Some (v, _) \<Rightarrow> (if d \<le> t then None else Some (v, Some d)))"

definition redis_expire_laws :: "'r redis_srv \<Rightarrow> bool" where
  "redis_expire_laws R \<longleftrightarrow>
     (\<forall>t k d s. fst (rs_pexpireat R t k d s) = (if rs_view R s t k = None then 0 else 1)) \<and>
     (\<forall>t k d s. rs_view R (snd (rs_pexpireat R t k d s)) t =
        (rs_view R s t)(k := expire_entry t d (rs_view R s t k))) \<and>
     (\<forall>t k ms s. fst (rs_pexpire R t k ms s) = (if rs_view R s t k = None then 0 else 1)) \<and>
     (\<forall>t k ms s. rs_view R (snd (rs_pexpire R t k ms s)) t =
        (rs_view R s t)(k := expire_entry t (t + ms) (rs_view R s t k))) \<and>
     (\<forall>t k s. rs_pttl R t k s =
        (case rs_view R s t k of None \<Rightarrow> - 2 | Some (_, None) \<Rightarrow> - 1 | Some (_, Some d) \<Rightarrow> d - t))"

definition redis_counter_laws :: "'r redis_srv \<Rightarrow> bool" where
  "redis_counter_laws R \<longleftrightarrow>
     (\<forall>t k s. rs_view R s t k = None \<longrightarrow>
        fst (rs_incr R t k s) = 1 \<and>
        rs_view R (snd (rs_incr R t k s)) t = (rs_view R s t)(k \<mapsto> (RNum 1, None))) \<and>
     (\<forall>t k s n d. rs_view R s t k = Some (RNum n, d) \<longrightarrow>
        fst (rs_incr R t k s) = n + 1 \<and>
        rs_view R (snd (rs_incr R t k s)) t = (rs_view R s t)(k \<mapsto> (RNum (n + 1), d)))"

definition redis_laws :: "'r redis_srv \<Rightarrow> bool" where
  "redis_laws R \<longleftrightarrow>
     redis_time_laws R \<and> redis_string_laws R \<and> redis_hash_laws R \<and> redis_expire_laws R \<and>
     redis_counter_laws R"

section \<open>The environment and the world\<close>

datatype fate = Served | Refused | ReplyLost

record 'r env =
  e_redis :: "'r redis_srv"
  e_clock :: "nat \<Rightarrow> gtime"
  e_rclock :: "nat \<Rightarrow> int"
  e_dbclock :: "nat \<Rightarrow> gtime"
  e_fate :: "nat \<Rightarrow> fate"
  e_rand :: "nat \<Rightarrow> nat \<Rightarrow> bytes option"
  e_select :: "nat \<Rightarrow> select_case"
  e_uuid_New :: "nat \<Rightarrow> uuid"
  e_uuid_String :: "uuid \<Rightarrow> string"
  e_uuid_Parse :: "string \<Rightarrow> uuid option"
  e_pg_time :: "gtime \<Rightarrow> gtime"
  e_sha256 :: "bytes \<Rightarrow> bytes"
  e_gcm_seal :: "bytes \<Rightarrow> bytes \<Rightarrow> bytes \<Rightarrow> bytes \<Rightarrow> bytes"
  e_gcm_open :: "bytes \<Rightarrow> bytes \<Rightarrow> bytes \<Rightarrow> bytes \<Rightarrow> bytes option"
  e_argon2 :: "bytes \<Rightarrow> bytes \<Rightarrow> 32 word \<Rightarrow> 32 word \<Rightarrow> 8 word \<Rightarrow> nat \<Rightarrow> bytes"

text \<open>
  AES-GCM takes key, nonce, text and additional data. \<open>e_gcm_open\<close> inverts \<open>e_gcm_seal\<close> and
  accepts nothing else; the ciphertext is 16 bytes longer than the plaintext. Argon2id returns
  as many bytes as asked for, SHA-256 returns 32, the random source as many as asked for.
\<close>

definition crypto_laws :: "'r env \<Rightarrow> bool" where
  "crypto_laws E \<longleftrightarrow>
     (\<forall>k n c a p. e_gcm_open E k n c a = Some p \<longleftrightarrow> c = e_gcm_seal E k n p a) \<and>
     (\<forall>k n p a. length (e_gcm_seal E k n p a) = length p + 16) \<and>
     (\<forall>pw s t m th n. length (e_argon2 E pw s t m th n) = n) \<and>
     (\<forall>b. length (e_sha256 E b) = 32) \<and>
     (\<forall>i n b. e_rand E i n = Some b \<longrightarrow> length b = n)"

text \<open>The UUID package prints 36 characters without a bar and parses what it prints.\<close>

definition uuid_laws :: "'r env \<Rightarrow> bool" where
  "uuid_laws E \<longleftrightarrow>
     (\<forall>u. length (e_uuid_String E u) = 36) \<and>
     (\<forall>u. e_uuid_Parse E (e_uuid_String E u) = Some u)"

text \<open>A \<^verbatim>\<open>timestamptz\<close> column keeps whole microseconds and never rounds up.\<close>

definition pg_time_laws :: "'r env \<Rightarrow> bool" where
  "pg_time_laws E \<longleftrightarrow> (\<forall>t. e_pg_time E t = t - t mod 1000)"

datatype Provider = ProviderLocal | ProviderOIDC

record User =
  us_ID :: uuid
  us_Username :: string
  us_DisplayName :: string
  us_Provider :: Provider
  us_OIDCIssuer :: string
  us_OIDCSubject :: string
  us_PasswordHash :: string
  us_IsAdmin :: bool
  us_Disabled :: bool
  us_CreatedAt :: gtime
  us_LastLoginAt :: "gtime option"

text \<open>A row of the table \<^verbatim>\<open>users\<close>: the nullable columns are optional.\<close>

record UserRow =
  ur_ID :: uuid
  ur_Username :: string
  ur_DisplayName :: "string option"
  ur_Provider :: Provider
  ur_OIDCIssuer :: "string option"
  ur_OIDCSubject :: "string option"
  ur_PasswordHash :: "string option"
  ur_IsAdmin :: bool
  ur_Disabled :: bool
  ur_CreatedAt :: gtime
  ur_LastLoginAt :: "gtime option"

text \<open>A line of the structured log: level, message, attributes.\<close>

datatype log_level = LevelDebug | LevelInfo | LevelWarn | LevelError

datatype lval = LStr string | LTime gtime | LInt int | LID uuid | LErr goerr | LDetails "(string \<times> dval) list"

record log_line =
  ll_level :: log_level
  ll_msg :: string
  ll_attrs :: "(string \<times> lval) list"

text \<open>The state the program shares with the outside: the interaction counter, the Redis server,
  the three tables of the database, the log, the key-derivation gate, the scopes the rate limiter
  has warned about, and the metrics.\<close>

record 'r world =
  w_tick :: nat
  w_redis :: 'r
  w_pastes :: "PasteMeta list"
  w_users :: "UserRow list"
  w_audit :: "AuditRow list"
  w_log :: "log_line list"
  w_gate :: Gate
  w_warned :: "string list"
  w_metrics :: Metrics

definition tick :: "'r world \<Rightarrow> 'r world" where
  "tick w = w\<lparr>w_tick := Suc (w_tick w)\<rparr>"

text \<open>A reading of the program's clock.\<close>

definition clock_Now :: "'r env \<Rightarrow> 'r world \<Rightarrow> gtime \<times> 'r world" where
  "clock_Now E w = (e_clock E (w_tick w), tick w)"

text \<open>A round trip to Redis and a statement sent to the database.\<close>

definition redis_call :: "'r env \<Rightarrow> (int \<Rightarrow> 'r \<Rightarrow> 'a \<times> 'r) \<Rightarrow> 'r world \<Rightarrow> 'a res \<times> 'r world" where
  "redis_call E cmd w =
     (let (a, r) = cmd (e_rclock E (w_tick w)) (w_redis w)
      in case e_fate E (w_tick w) of
           Served \<Rightarrow> (Inr a, (tick w)\<lparr>w_redis := r\<rparr>)
         | Refused \<Rightarrow> (Inl (EService ''redis''), tick w)
         | ReplyLost \<Rightarrow> (Inl (EService ''redis''), (tick w)\<lparr>w_redis := r\<rparr>))"

definition db_call :: "'r env \<Rightarrow> ('r world \<Rightarrow> 'a res \<times> 'r world) \<Rightarrow> 'r world \<Rightarrow> 'a res \<times> 'r world" where
  "db_call E stmt w =
     (let (a, w') = stmt (tick w)
      in case e_fate E (w_tick w) of
           Served \<Rightarrow> (a, w')
         | Refused \<Rightarrow> (Inl (EService ''postgres''), tick w)
         | ReplyLost \<Rightarrow> (Inl (EService ''postgres''), w'))"

section \<open>Lemmas\<close>

lemma tick_simps [simp]:
  "w_tick (tick w) = Suc (w_tick w)" "w_redis (tick w) = w_redis w"
  "w_pastes (tick w) = w_pastes w" "w_users (tick w) = w_users w"
  "w_audit (tick w) = w_audit w" "w_log (tick w) = w_log w" "w_gate (tick w) = w_gate w"
  "w_warned (tick w) = w_warned w" "w_metrics (tick w) = w_metrics w"
  by (simp_all add: tick_def)

lemma live_at_le: "t \<le> u \<Longrightarrow> live_at u (live_at t x) = live_at u x"
  by (auto simp: live_at_def split: option.splits prod.splits)

lemma live_at_simps [simp]:
  "live_at t None = None"
  "live_at t (Some (v, None)) = Some (v, None)"
  "live_at t (Some (v, Some d)) = (if t \<le> d then Some (v, Some d) else None)"
  by (simp_all add: live_at_def)

lemma redis_view_later:
  "redis_laws R \<Longrightarrow> t \<le> u \<Longrightarrow> rs_view R s u k = live_at u (rs_view R s t k)"
  unfolding redis_laws_def redis_time_laws_def by blast

lemma redis_string_lawsD:
  assumes "redis_laws R"
  shows "rs_get R t k s = map_option fst (rs_view R s t k)"
    "Millisecond \<le> d \<Longrightarrow>
       rs_view R (rs_set R t k v d s) t = (rs_view R s t)(k \<mapsto> (v, Some (t + d div Millisecond)))"
    "fst (rs_setnx R t k v d s) = (rs_view R s t k = None)"
    "Millisecond \<le> d \<Longrightarrow> rs_view R (snd (rs_setnx R t k v d s)) t =
        (if rs_view R s t k = None then (rs_view R s t)(k \<mapsto> (v, Some (t + d div Millisecond)))
         else rs_view R s t)"
    "rs_view R (rs_del R t k s) t = (rs_view R s t)(k := None)"
    "fst (rs_getdel R t k s) = map_option fst (rs_view R s t k)"
    "rs_view R (snd (rs_getdel R t k s)) t = (rs_view R s t)(k := None)"
    "rs_exists R t k s = (rs_view R s t k \<noteq> None)"
  using assms by (simp_all add: redis_laws_def redis_string_laws_def)

lemma redis_hash_lawsD:
  assumes "redis_laws R"
  shows "rs_view R s t k = None \<Longrightarrow> rs_view R (rs_hset R t k fs s) t = (rs_view R s t)(k \<mapsto> (RHash fs, None))"
    "rs_view R s t k = Some (RHash fs, d) \<Longrightarrow> rs_hget R t k f s = map_of fs f"
    "rs_view R s t k = Some (RHash fs, d) \<Longrightarrow> rs_hgetall R t k s = fs"
    "rs_view R s t k = None \<Longrightarrow> rs_hgetall R t k s = []"
  using assms unfolding redis_laws_def redis_hash_laws_def by blast+

lemma redis_expire_lawsD:
  assumes "redis_laws R"
  shows "fst (rs_pexpireat R t k d s) = (if rs_view R s t k = None then 0 else 1)"
    "rs_view R (snd (rs_pexpireat R t k d s)) t = (rs_view R s t)(k := expire_entry t d (rs_view R s t k))"
  using assms by (simp_all add: redis_laws_def redis_expire_laws_def)

lemma redis_pexpire_lawsD:
  assumes "redis_laws R"
  shows "fst (rs_pexpire R t k d s) = (if rs_view R s t k = None then 0 else 1)"
    "rs_view R (snd (rs_pexpire R t k d s)) t = (rs_view R s t)(k := expire_entry t (t + d) (rs_view R s t k))"
    "rs_pttl R t k s =
       (case rs_view R s t k of None \<Rightarrow> - 2 | Some (_, None) \<Rightarrow> - 1 | Some (_, Some d) \<Rightarrow> d - t)"
  using assms by (simp_all add: redis_laws_def redis_expire_laws_def)

lemma redis_counter_lawsD:
  assumes "redis_laws R"
  shows "rs_view R s t k = None \<Longrightarrow> fst (rs_incr R t k s) = 1"
    "rs_view R s t k = None \<Longrightarrow> rs_view R (snd (rs_incr R t k s)) t = (rs_view R s t)(k \<mapsto> (RNum 1, None))"
    "rs_view R s t k = Some (RNum n, d) \<Longrightarrow> fst (rs_incr R t k s) = n + 1"
    "rs_view R s t k = Some (RNum n, d) \<Longrightarrow>
       rs_view R (snd (rs_incr R t k s)) t = (rs_view R s t)(k \<mapsto> (RNum (n + 1), d))"
  using assms unfolding redis_laws_def redis_counter_laws_def by blast+

lemma crypto_lawsD:
  assumes "crypto_laws E"
  shows "e_gcm_open E k n c a = Some p \<longleftrightarrow> c = e_gcm_seal E k n p a"
    "length (e_gcm_seal E k n p a) = length p + 16"
    "length (e_argon2 E pw s t m th j) = j"
    "length (e_sha256 E b) = 32"
    "e_rand E i j = Some b \<Longrightarrow> length b = j"
  using assms unfolding crypto_laws_def by blast+

lemma uuid_lawsD:
  assumes "uuid_laws E"
  shows "length (e_uuid_String E u) = 36" "e_uuid_Parse E (e_uuid_String E u) = Some u"
  using assms unfolding uuid_laws_def by blast+

lemma uuid_String_inj: "uuid_laws E \<Longrightarrow> e_uuid_String E u = e_uuid_String E v \<longleftrightarrow> u = v"
  by (metis option.inject uuid_lawsD(2))

end
