(* ===== verification/Utf8.thy ===== *)
theory Utf8
  imports Prelude
begin

text \<open>
  Go's \<^verbatim>\<open>unicode/utf8\<close>, as far as the program calls it: \<^verbatim>\<open>Valid\<close>/\<^verbatim>\<open>ValidString\<close> and
  \<^verbatim>\<open>RuneCount\<close>/\<^verbatim>\<open>RuneCountInString\<close>. Both walk the bytes rune by rune; \<open>rune_size\<close> is the
  length of the well-formed encoding at the front, 0 when there is none.
\<close>

definition cont :: "byte \<Rightarrow> bool" where
  "cont b \<longleftrightarrow> 0x80 \<le> b \<and> b \<le> 0xBF"

text \<open>The accepted range of the second byte depends on the first one.\<close>

definition second_ok :: "byte \<Rightarrow> byte \<Rightarrow> bool" where
  "second_ok a b \<longleftrightarrow>
     (if a = 0xE0 then 0xA0 \<le> b \<and> b \<le> 0xBF
      else if a = 0xED then 0x80 \<le> b \<and> b \<le> 0x9F
      else if a = 0xF0 then 0x90 \<le> b \<and> b \<le> 0xBF
      else if a = 0xF4 then 0x80 \<le> b \<and> b \<le> 0x8F
      else cont b)"

definition lead_size :: "byte \<Rightarrow> nat" where
  "lead_size a =
     (if a < 0x80 then 1
      else if 0xC2 \<le> a \<and> a \<le> 0xDF then 2
      else if 0xE0 \<le> a \<and> a \<le> 0xEF then 3
      else if 0xF0 \<le> a \<and> a \<le> 0xF4 then 4
      else 0)"

definition rune_size :: "bytes \<Rightarrow> nat" where
  "rune_size s =
     (case s of [] \<Rightarrow> 0
      | a # t \<Rightarrow>
        (let n = lead_size a
         in if n = 0 \<or> length s < n then 0
            else if n = 1 then 1
            else if second_ok a (hd t) \<and> list_all cont (take (n - 2) (tl t)) then n else 0))"

lemma lead_size_le: "lead_size a \<le> 4"
  by (simp add: lead_size_def)

lemma rune_size_le_length: "rune_size s \<le> length s"
  by (auto simp: rune_size_def Let_def split: list.splits)

lemma rune_size_le_4: "rune_size s \<le> 4"
  using lead_size_le by (auto simp: rune_size_def Let_def split: list.splits)

lemma rune_size_append:
  assumes "0 < rune_size s"
  shows "rune_size (s @ u) = rune_size s"
proof (cases s)
  case Nil
  with assms show ?thesis by (simp add: rune_size_def)
next
  case (Cons a t)
  show ?thesis
  proof (cases "lead_size a \<le> 1")
    case True
    with assms Cons show ?thesis
      by (auto simp: rune_size_def Let_def split: if_splits)
  next
    case False
    with assms Cons have len: "lead_size a \<le> length s"
      by (auto simp: rune_size_def Let_def split: if_splits)
    with False Cons obtain b v where t: "t = b # v"
      by (cases t) auto
    with len Cons have "lead_size a - 2 \<le> length v" by simp
    with Cons t len False show ?thesis
      by (simp add: rune_size_def Let_def)
  qed
qed

function Valid :: "bytes \<Rightarrow> bool" where
  "Valid s =
     (if s = [] then True
      else if rune_size s = 0 then False
      else Valid (drop (rune_size s) s))"
  by pat_completeness auto
termination
  by (relation "measure length") auto

declare Valid.simps [simp del]

lemma Valid_Nil [simp]: "Valid []"
  by (simp add: Valid.simps)

lemma Valid_step: "s \<noteq> [] \<Longrightarrow> Valid s \<longleftrightarrow> 0 < rune_size s \<and> Valid (drop (rune_size s) s)"
  by (subst Valid.simps) simp

lemma Valid_append: "Valid s \<Longrightarrow> Valid u \<Longrightarrow> Valid (s @ u)"
proof (induction s rule: Valid.induct)
  case (1 s)
  show ?case
  proof (cases "s = []")
    case True
    with 1 show ?thesis by simp
  next
    case False
    with "1.prems" have pos: "0 < rune_size s" and rest: "Valid (drop (rune_size s) s)"
      by (simp_all add: Valid_step)
    then have "Valid (drop (rune_size s) s @ u)"
      using "1.IH" "1.prems"(2) False by simp
    with pos False show ?thesis
      using rune_size_le_length [of s]
      by (subst Valid_step) (simp_all add: rune_size_append)
  qed
qed

lemma Valid_drop_rune:
  assumes "Valid (r @ u)" and "rune_size r = length r" and "r \<noteq> []"
  shows "Valid u"
proof -
  from assms have "rune_size (r @ u) = length r"
    by (simp add: rune_size_append)
  with assms show ?thesis
    by (subst (asm) Valid_step) simp_all
qed

definition ValidString :: "string \<Rightarrow> bool" where
  "ValidString s = Valid (bytes_of s)"

text \<open>\<^verbatim>\<open>RuneCount\<close> counts every byte that starts no well-formed rune as one rune.\<close>

function RuneCount :: "bytes \<Rightarrow> nat" where
  "RuneCount s = (if s = [] then 0 else Suc (RuneCount (drop (max 1 (rune_size s)) s)))"
  by pat_completeness auto
termination
  by (relation "measure length") auto

declare RuneCount.simps [simp del]

lemma RuneCount_Nil [simp]: "RuneCount [] = 0"
  by (simp add: RuneCount.simps)

lemma RuneCount_le_length: "RuneCount s \<le> length s"
proof (induction s rule: RuneCount.induct)
  case (1 s)
  then show ?case by (subst RuneCount.simps) (cases s; fastforce)
qed

lemma length_le_RuneCount: "length s \<le> 4 * RuneCount s"
proof (induction s rule: RuneCount.induct)
  case (1 s)
  show ?case
  proof (cases "s = []")
    case False
    with 1 have "length s - max 1 (rune_size s) \<le> 4 * RuneCount (drop (max 1 (rune_size s)) s)"
      by simp
    with False show ?thesis
      using rune_size_le_4 [of s] by (subst RuneCount.simps) simp
  qed simp
qed

definition RuneCountInString :: "string \<Rightarrow> nat" where
  "RuneCountInString s = RuneCount (bytes_of s)"

text \<open>ASCII text is valid, one rune per byte.\<close>

lemma rune_size_ascii: "b < 0x80 \<Longrightarrow> rune_size (b # s) = 1"
  by (simp add: rune_size_def lead_size_def)

lemma Valid_ascii: "list_all (\<lambda>b. b < 0x80) s \<Longrightarrow> Valid s"
proof (induction s)
  case (Cons b s)
  then show ?case by (subst Valid_step) (simp_all add: rune_size_ascii)
qed (simp add: Valid.simps)

lemma ValidString_ascii_chars: "list_all (\<lambda>c. (of_char c :: nat) < 128) s \<Longrightarrow> ValidString s"
  unfolding ValidString_def bytes_of_def
  by (rule Valid_ascii) (auto simp: list_all_iff word_less_nat_alt unat_of_nat)

lemma ValidString_Nil [simp]: "ValidString []"
  by (simp add: ValidString_def bytes_of_def Valid.simps)

end
