(* ===== verification/Base64.thy ===== *)
theory Base64
  imports Prelude
begin

text \<open>
  Go's \<^verbatim>\<open>encoding/base64\<close> and \<^verbatim>\<open>encoding/hex\<close> as the program uses them: \<^verbatim>\<open>StdEncoding\<close> (master
  keys), \<^verbatim>\<open>RawStdEncoding\<close> (PHC strings) and \<^verbatim>\<open>RawURLEncoding\<close> (tokens). The alphabet is the
  interface \<open>b64_alphabet\<close>; the round trip is proved once for it and the two alphabets of the
  package are its interpretations. Decoding skips carriage returns and newlines and, as the
  package does outside its strict mode, ignores the unused bits of a short final quantum.
\<close>

section \<open>Definitions\<close>

definition std_alphabet :: string where
  "std_alphabet = ''ABCDEFGHIJKLMNOPQRSTUVWXYZabcdefghijklmnopqrstuvwxyz0123456789+/''"

definition url_alphabet :: string where
  "url_alphabet = ''ABCDEFGHIJKLMNOPQRSTUVWXYZabcdefghijklmnopqrstuvwxyz0123456789-_''"

fun index_of :: "char \<Rightarrow> string \<Rightarrow> nat option" where
  "index_of c [] = None"
| "index_of c (x # xs) = (if x = c then Some 0 else map_option Suc (index_of c xs))"

fun b64_encode :: "string \<Rightarrow> bool \<Rightarrow> nat list \<Rightarrow> string" where
  "b64_encode al pad [] = []"
| "b64_encode al pad [x] =
     [al ! (x div 4), al ! (x mod 4 * 16)] @ (if pad then ''=='' else [])"
| "b64_encode al pad [x, y] =
     [al ! (x div 4), al ! (x mod 4 * 16 + y div 16), al ! (y mod 16 * 4)] @
     (if pad then ''='' else [])"
| "b64_encode al pad (x # y # z # r) =
     [al ! (x div 4), al ! (x mod 4 * 16 + y div 16), al ! (y mod 16 * 4 + z div 64), al ! (z mod 64)] @
     b64_encode al pad r"

definition quantum2 :: "string \<Rightarrow> char \<Rightarrow> char \<Rightarrow> nat list option" where
  "quantum2 al a b =
     (case (index_of a al, index_of b al) of
        (Some i, Some j) \<Rightarrow> Some [i * 4 + j div 16]
      | _ \<Rightarrow> None)"

definition quantum3 :: "string \<Rightarrow> char \<Rightarrow> char \<Rightarrow> char \<Rightarrow> nat list option" where
  "quantum3 al a b c =
     (case (index_of a al, index_of b al, index_of c al) of
        (Some i, Some j, Some k) \<Rightarrow> Some [i * 4 + j div 16, j mod 16 * 16 + k div 4]
      | _ \<Rightarrow> None)"

definition quantum4 :: "string \<Rightarrow> char \<Rightarrow> char \<Rightarrow> char \<Rightarrow> char \<Rightarrow> nat list option" where
  "quantum4 al a b c d =
     (case (index_of a al, index_of b al, index_of c al, index_of d al) of
        (Some i, Some j, Some k, Some l) \<Rightarrow>
          Some [i * 4 + j div 16, j mod 16 * 16 + k div 4, k mod 4 * 64 + l]
      | _ \<Rightarrow> None)"

fun b64_decode :: "string \<Rightarrow> bool \<Rightarrow> string \<Rightarrow> nat list option" where
  "b64_decode al pad [] = Some []"
| "b64_decode al pad [a] = None"
| "b64_decode al pad [a, b] = (if pad then None else quantum2 al a b)"
| "b64_decode al pad [a, b, c] = (if pad then None else quantum3 al a b c)"
| "b64_decode al pad (a # b # c # d # r) =
     (if pad \<and> d = CHR ''='' then
        (if r \<noteq> [] then None else if c = CHR ''='' then quantum2 al a b else quantum3 al a b c)
      else
        (case quantum4 al a b c d of None \<Rightarrow> None
         | Some q \<Rightarrow> map_option ((@) q) (b64_decode al pad r)))"

definition no_newlines :: "string \<Rightarrow> string" where
  "no_newlines s = filter (\<lambda>c. c \<noteq> CHR 0x0A \<and> c \<noteq> CHR 0x0D) s"

definition EncodeToString :: "string \<Rightarrow> bool \<Rightarrow> bytes \<Rightarrow> string" where
  "EncodeToString al pad b = b64_encode al pad (map unat b)"

definition DecodeString :: "string \<Rightarrow> bool \<Rightarrow> string \<Rightarrow> bytes option" where
  "DecodeString al pad s = map_option (map of_nat) (b64_decode al pad (no_newlines s))"

abbreviation "RawURL_Encode \<equiv> EncodeToString url_alphabet False"
abbreviation "RawURL_Decode \<equiv> DecodeString url_alphabet False"
abbreviation "RawStd_Encode \<equiv> EncodeToString std_alphabet False"
abbreviation "RawStd_Decode \<equiv> DecodeString std_alphabet False"
abbreviation "Std_Encode \<equiv> EncodeToString std_alphabet True"
abbreviation "Std_Decode \<equiv> DecodeString std_alphabet True"

definition hex_digit :: "nat \<Rightarrow> char" where
  "hex_digit n = ''0123456789abcdef'' ! n"

definition hex_EncodeToString :: "bytes \<Rightarrow> string" where
  "hex_EncodeToString b = concat (map (\<lambda>x. [hex_digit (unat x div 16), hex_digit (unat x mod 16)]) b)"

section \<open>The round trip, for any alphabet\<close>

lemma index_of_nth: "distinct xs \<Longrightarrow> i < length xs \<Longrightarrow> index_of (xs ! i) xs = Some i"
proof (induction xs arbitrary: i)
  case (Cons x xs)
  then show ?case by (cases i) auto
qed simp

lemma index_of_None: "c \<notin> set xs \<Longrightarrow> index_of c xs = None"
  by (induction xs) auto

lemma length_b64_encode_raw: "length (b64_encode al False xs) = (length xs * 4 + 2) div 3"
  by (induction al False xs rule: b64_encode.induct) auto

lemma triples_induct [case_names Nil One Two Three]:
  assumes "P []" and "\<And>x. P [x]" and "\<And>x y. P [x, y]"
    and "\<And>x y z r. P r \<Longrightarrow> P (x # y # z # r)"
  shows "P xs"
proof (induction xs rule: length_induct)
  case (1 xs)
  consider "xs = []" | x where "xs = [x]" | x y where "xs = [x, y]" | x y z r where "xs = x # y # z # r"
    by (metis list.exhaust)
  then show ?case
    using 1 assms by cases auto
qed

text \<open>The three arithmetic facts behind the quanta.\<close>

lemma div_mod_small:
  fixes m b :: nat
  shows "b < 16 \<Longrightarrow> (m * 16 + b) div 16 = m" and "b < 16 \<Longrightarrow> (m * 16 + b) mod 16 = b"
    and "b < 4 \<Longrightarrow> (m * 4 + b) div 4 = m" and "b < 4 \<Longrightarrow> (m * 4 + b) mod 4 = b"
  by simp_all

lemma byte_parts:
  fixes y :: nat
  assumes "y < 256"
  shows "y div 4 < 64" and "y div 16 < 16" and "y div 64 < 4"
    and "y mod 4 < 4" and "y mod 16 < 16" and "y mod 64 < 64"
  using assms by simp_all

lemma sextets:
  fixes x y z :: nat
  assumes "x < 256" and "y < 256" and "z < 256"
  shows "x div 4 < 64" and "x mod 4 * 16 < 64" and "x mod 4 * 16 + y div 16 < 64"
    and "y mod 16 * 4 < 64" and "y mod 16 * 4 + z div 64 < 64" and "z mod 64 < 64"
  using byte_parts [OF assms(1)] byte_parts [OF assms(2)] byte_parts [OF assms(3)] by linarith+

lemma octets:
  fixes x y z :: nat
  assumes "x < 256" and "y < 256" and "z < 256"
  shows "x div 4 * 4 + x mod 4 * 16 div 16 = x"
    and "x div 4 * 4 + (x mod 4 * 16 + y div 16) div 16 = x"
    and "(x mod 4 * 16 + y div 16) mod 16 * 16 + y mod 16 * 4 div 4 = y"
    and "(x mod 4 * 16 + y div 16) mod 16 * 16 + (y mod 16 * 4 + z div 64) div 4 = y"
    and "(y mod 16 * 4 + z div 64) mod 4 * 64 + z mod 64 = z"
  using byte_parts [OF assms(2)] byte_parts [OF assms(3)] by (simp_all only: div_mod_small) simp_all

locale b64_alphabet =
  fixes al :: string
  assumes al_length: "length al = 64"
    and al_distinct: "distinct al"
    and al_no_pad: "CHR ''='' \<notin> set al"
    and al_no_newline: "no_newlines al = al"
begin

lemma index_nth [simp]: "i < 64 \<Longrightarrow> index_of (al ! i) al = Some i"
  by (simp add: index_of_nth al_distinct al_length)

lemma nth_not_pad [simp]: "i < 64 \<Longrightarrow> al ! i \<noteq> CHR ''=''"
  using al_no_pad al_length nth_mem by metis

lemma nth_keep: "i < 64 \<Longrightarrow> no_newlines (al ! i # s) = al ! i # no_newlines s"
proof -
  assume "i < 64"
  then have "al ! i \<in> set (no_newlines al)"
    using al_length al_no_newline by simp
  then show ?thesis by (auto simp: no_newlines_def)
qed

lemma quantum2_encode:
  "x < 256 \<Longrightarrow> quantum2 al (al ! (x div 4)) (al ! (x mod 4 * 16)) = Some [x]"
  using sextets [of x 0 0] octets [of x 0 0] by (simp add: quantum2_def)

lemma quantum3_encode:
  "x < 256 \<Longrightarrow> y < 256 \<Longrightarrow>
   quantum3 al (al ! (x div 4)) (al ! (x mod 4 * 16 + y div 16)) (al ! (y mod 16 * 4)) = Some [x, y]"
  using sextets [of x y 0] octets [of x y 0] by (simp add: quantum3_def)

lemma quantum4_encode:
  "x < 256 \<Longrightarrow> y < 256 \<Longrightarrow> z < 256 \<Longrightarrow>
   quantum4 al (al ! (x div 4)) (al ! (x mod 4 * 16 + y div 16)) (al ! (y mod 16 * 4 + z div 64))
     (al ! (z mod 64)) = Some [x, y, z]"
  using sextets [of x y z] octets [of x y z] by (simp add: quantum4_def)

lemmas quanta_encode = quantum2_encode quantum3_encode quantum4_encode

lemma decode_encode:
  "list_all (\<lambda>x. x < 256) xs \<Longrightarrow> b64_decode al pad (b64_encode al pad xs) = Some xs"
proof (induction xs rule: triples_induct)
  case (Two x y)
  then show ?case
    using sextets [of x y 0] by (simp add: quanta_encode)
next
  case (Three x y z r)
  then show ?case
    using sextets [of x y z] by (simp add: quanta_encode)
qed (simp_all add: quanta_encode)

lemma encode_no_newlines:
  "list_all (\<lambda>x. x < 256) xs \<Longrightarrow> no_newlines (b64_encode al pad xs) = b64_encode al pad xs"
proof (induction xs rule: triples_induct)
  case (One x)
  then show ?case
    using sextets [of x 0 0] by (simp add: nth_keep) (simp add: no_newlines_def)
next
  case (Two x y)
  then show ?case
    using sextets [of x y 0] by (simp add: nth_keep) (simp add: no_newlines_def)
next
  case (Three x y z r)
  then show ?case
    using sextets [of x y z] by (simp add: nth_keep)
qed (simp add: no_newlines_def)

lemma DecodeString_EncodeToString: "DecodeString al pad (EncodeToString al pad b) = Some b"
proof -
  have "unat x < 256" for x :: byte
    using unsigned_less [of x] by simp
  then have ok: "list_all (\<lambda>x. x < 256) (map unat b)"
    by (simp add: list_all_iff)
  show ?thesis
    by (simp add: DecodeString_def EncodeToString_def encode_no_newlines [OF ok] decode_encode [OF ok] o_def)
qed

lemma set_encode:
  "list_all (\<lambda>x. x < 256) xs \<Longrightarrow> set (b64_encode al pad xs) \<subseteq> insert CHR ''='' (set al)"
proof (induction xs rule: triples_induct)
  case (One x)
  then show ?case using sextets [of x 0 0] by (auto simp: al_length)
next
  case (Two x y)
  then show ?case using sextets [of x y 0] by (auto simp: al_length)
next
  case (Three x y z r)
  then show ?case using sextets [of x y z] by (auto simp: al_length)
qed simp

lemma set_EncodeToString: "set (EncodeToString al pad b) \<subseteq> insert CHR ''='' (set al)"
proof -
  have "unat x < 256" for x :: byte
    using unsigned_less [of x] by simp
  then show ?thesis
    unfolding EncodeToString_def by (intro set_encode) (simp add: list_all_iff)
qed

end

section \<open>The alphabets of the package\<close>

lemma std_alphabet_ok:
  "length std_alphabet = 64" "distinct std_alphabet" "CHR ''='' \<notin> set std_alphabet"
  "no_newlines std_alphabet = std_alphabet"
  by code_simp+

lemma url_alphabet_ok:
  "length url_alphabet = 64" "distinct url_alphabet" "CHR ''='' \<notin> set url_alphabet"
  "no_newlines url_alphabet = url_alphabet"
  by code_simp+

interpretation std64: b64_alphabet std_alphabet
  by unfold_locales (rule std_alphabet_ok)+

interpretation url64: b64_alphabet url_alphabet
  by unfold_locales (rule url_alphabet_ok)+

section \<open>Lengths\<close>

lemma length_EncodeToString_raw:
  "length (EncodeToString al False b) = (length b * 4 + 2) div 3"
  by (simp add: EncodeToString_def length_b64_encode_raw)

lemma length_hex [simp]: "length (hex_EncodeToString b) = 2 * length b"
  by (induction b) (simp_all add: hex_EncodeToString_def)

end
