(* ===== verification/BodyJson.thy ===== *)
theory BodyJson
  imports World Utf8 Base64
begin

text \<open>
  What \<^verbatim>\<open>encoding/json\<close> does with \<^verbatim>\<open>paste.EncryptedBody\<close>, following its struct tags, on JSON values (the
  text of a value is not modelled). A \<^verbatim>\<open>[]byte\<close> is a string in standard base64, a string that is not
  valid UTF-8 has its bad bytes replaced, fields marked \<^verbatim>\<open>omitempty\<close> are left out when empty. Reading
  takes the members in order, matches their names without regard to ASCII case, ignores the unknown
  ones, and fails on a value of the wrong type or range; null leaves a field at its zero value.
\<close>

section \<open>Strings\<close>

text \<open>The replacement rune U+FFFD stands for every byte that starts no well-formed rune.\<close>

function coerce_utf8 :: "bytes \<Rightarrow> bytes" where
  "coerce_utf8 s =
     (if s = [] then []
      else if rune_size s = 0 then [0xEF, 0xBF, 0xBD] @ coerce_utf8 (tl s)
      else take (rune_size s) s @ coerce_utf8 (drop (rune_size s) s))"
  by pat_completeness auto
termination
  by (relation "measure length") auto

declare coerce_utf8.simps [simp del]

lemma coerce_utf8_valid: "Valid s \<Longrightarrow> coerce_utf8 s = s"
proof (induction s rule: coerce_utf8.induct)
  case (1 s)
  show ?case
  proof (cases "s = []")
    case True
    then show ?thesis by (simp add: coerce_utf8.simps)
  next
    case False
    with "1.prems" have "rune_size s \<noteq> 0" "Valid (drop (rune_size s) s)"
      by (simp_all add: Valid_step)
    with False 1 show ?thesis
      by (subst coerce_utf8.simps) simp
  qed
qed

definition json_string :: "string \<Rightarrow> json" where
  "json_string s = JStr (string_of (coerce_utf8 (bytes_of s)))"

definition json_bytes :: "bytes \<Rightarrow> json" where
  "json_bytes b = JStr (Std_Encode b)"

lemma json_string_valid: "ValidString s \<Longrightarrow> json_string s = JStr s"
  by (simp add: json_string_def ValidString_def coerce_utf8_valid)

section \<open>Marshal\<close>

fun wrap_string :: "WrapMode \<Rightarrow> string" where
  "wrap_string WrapKEK = ''kek''"
| "wrap_string WrapPassword = ''pw''"
| "wrap_string (WrapOther s) = s"

definition wrap_of_string :: "string \<Rightarrow> WrapMode" where
  "wrap_of_string s = (if s = ''kek'' then WrapKEK else if s = ''pw'' then WrapPassword else WrapOther s)"

definition marshal_kdf :: "KDFParams \<Rightarrow> json" where
  "marshal_kdf k =
     JObj [(''salt'', json_bytes (kp_Salt k)), (''t'', JNum (uint (kp_Time k))),
           (''m'', JNum (uint (kp_MemoryKiB k))), (''p'', JNum (uint (kp_Threads k)))]"

definition marshal_body :: "EncryptedBody \<Rightarrow> json" where
  "marshal_body r =
     JObj ([(''v'', JNum (eb_Version r)), (''alg'', json_string (eb_Alg r)),
            (''nonce'', json_bytes (eb_Nonce r)), (''ct'', json_bytes (eb_Ciphertext r)),
            (''wrap'', json_string (wrap_string (eb_WrapMode r)))] @
           (if eb_KEKID r = [] then [] else [(''kek_id'', json_string (eb_KEKID r))]) @
           (case eb_KDF r of None \<Rightarrow> [] | Some k \<Rightarrow> [(''kdf'', marshal_kdf k)]) @
           [(''wrap_nonce'', json_bytes (eb_WrapNonce r)), (''wrapped_dek'', json_bytes (eb_WrappedDEK r))])"

section \<open>Unmarshal\<close>

fun read_bytes :: "json \<Rightarrow> bytes option" where
  "read_bytes (JStr s) = Std_Decode s"
| "read_bytes JNull = Some []"
| "read_bytes _ = None"

fun read_string :: "string \<Rightarrow> json \<Rightarrow> string option" where
  "read_string old (JStr s) = Some s"
| "read_string old (JTime t) = Some (Format_RFC3339Nano t)"
| "read_string old JNull = Some old"
| "read_string old _ = None"

fun read_int :: "int \<Rightarrow> int \<Rightarrow> int \<Rightarrow> json \<Rightarrow> int option" where
  "read_int old lo hi (JNum n) = (if lo \<le> n \<and> n \<le> hi then Some n else None)"
| "read_int old lo hi JNull = Some old"
| "read_int old lo hi _ = None"

definition kdf_field :: "string \<times> json \<Rightarrow> KDFParams \<Rightarrow> KDFParams option" where
  "kdf_field m k =
     (let (name, v) = m in
      if EqualFold name ''salt'' then map_option (\<lambda>b. k\<lparr>kp_Salt := b\<rparr>) (read_bytes v)
      else if EqualFold name ''t'' then
        map_option (\<lambda>n. k\<lparr>kp_Time := of_int n\<rparr>) (read_int (uint (kp_Time k)) 0 (2 ^ 32 - 1) v)
      else if EqualFold name ''m'' then
        map_option (\<lambda>n. k\<lparr>kp_MemoryKiB := of_int n\<rparr>) (read_int (uint (kp_MemoryKiB k)) 0 (2 ^ 32 - 1) v)
      else if EqualFold name ''p'' then
        map_option (\<lambda>n. k\<lparr>kp_Threads := of_int n\<rparr>) (read_int (uint (kp_Threads k)) 0 255 v)
      else Some k)"

fun members :: "(string \<times> json \<Rightarrow> 'a \<Rightarrow> 'a option) \<Rightarrow> (string \<times> json) list \<Rightarrow> 'a \<Rightarrow> 'a option" where
  "members f [] x = Some x"
| "members f (m # ms) x = (case f m x of None \<Rightarrow> None | Some y \<Rightarrow> members f ms y)"

definition zero_kdf :: KDFParams where
  "zero_kdf = \<lparr>kp_Salt = [], kp_Time = 0, kp_MemoryKiB = 0, kp_Threads = 0\<rparr>"

definition zero_body :: EncryptedBody where
  "zero_body =
     \<lparr>eb_Version = 0, eb_Alg = [], eb_Nonce = [], eb_Ciphertext = [], eb_WrapMode = WrapOther [],
      eb_KEKID = [], eb_KDF = None, eb_WrapNonce = [], eb_WrappedDEK = []\<rparr>"

fun read_kdf :: "KDFParams option \<Rightarrow> json \<Rightarrow> KDFParams option option" where
  "read_kdf old (JObj ms) =
     map_option Some (members kdf_field ms (case old of None \<Rightarrow> zero_kdf | Some k \<Rightarrow> k))"
| "read_kdf old JNull = Some None"
| "read_kdf old _ = None"

definition body_field :: "string \<times> json \<Rightarrow> EncryptedBody \<Rightarrow> EncryptedBody option" where
  "body_field m r =
     (let (name, v) = m in
      if EqualFold name ''v'' then
        map_option (\<lambda>n. r\<lparr>eb_Version := n\<rparr>) (read_int (eb_Version r) (- (2 ^ 63)) (2 ^ 63 - 1) v)
      else if EqualFold name ''alg'' then map_option (\<lambda>s. r\<lparr>eb_Alg := s\<rparr>) (read_string (eb_Alg r) v)
      else if EqualFold name ''nonce'' then map_option (\<lambda>b. r\<lparr>eb_Nonce := b\<rparr>) (read_bytes v)
      else if EqualFold name ''ct'' then map_option (\<lambda>b. r\<lparr>eb_Ciphertext := b\<rparr>) (read_bytes v)
      else if EqualFold name ''wrap'' then
        map_option (\<lambda>s. r\<lparr>eb_WrapMode := wrap_of_string s\<rparr>) (read_string (wrap_string (eb_WrapMode r)) v)
      else if EqualFold name ''kek_id'' then map_option (\<lambda>s. r\<lparr>eb_KEKID := s\<rparr>) (read_string (eb_KEKID r) v)
      else if EqualFold name ''kdf'' then map_option (\<lambda>k. r\<lparr>eb_KDF := k\<rparr>) (read_kdf (eb_KDF r) v)
      else if EqualFold name ''wrap_nonce'' then map_option (\<lambda>b. r\<lparr>eb_WrapNonce := b\<rparr>) (read_bytes v)
      else if EqualFold name ''wrapped_dek'' then map_option (\<lambda>b. r\<lparr>eb_WrappedDEK := b\<rparr>) (read_bytes v)
      else Some r)"

fun unmarshal_body :: "json \<Rightarrow> EncryptedBody option" where
  "unmarshal_body (JObj ms) = members body_field ms zero_body"
| "unmarshal_body JNull = Some zero_body"
| "unmarshal_body _ = None"

section \<open>The round trip\<close>

text \<open>Records that survive: text fields in valid UTF-8, the wrap mode in its canonical form.\<close>

definition storable :: "EncryptedBody \<Rightarrow> bool" where
  "storable r \<longleftrightarrow>
     in64 (eb_Version r) \<and> ValidString (eb_Alg r) \<and> ValidString (eb_KEKID r) \<and>
     eb_WrapMode r \<in> {WrapKEK, WrapPassword}"

lemma read_bytes_json_bytes [simp]: "read_bytes (json_bytes b) = Some b"
  by (simp add: json_bytes_def std64.DecodeString_EncodeToString)

lemma fold_names: "EqualFold (a # s) (b # t) \<longleftrightarrow> lower_char a = lower_char b \<and> EqualFold s t"
  "EqualFold [] (b # t) = False" "EqualFold (a # s) [] = False"
  by (simp_all add: EqualFold_def ToLower_def)

lemma ValidString_ascii:
  "ValidString ''kek''" "ValidString ''pw''"
  by (simp_all add: ValidString_def bytes_of_def Valid_step rune_size_def lead_size_def)

lemma uint_bounds:
  "uint (a :: 32 word) \<le> 4294967295" "uint (b :: 8 word) \<le> 255"
  using uint_lt2p [of a] uint_lt2p [of b] by simp_all

lemma wrap_string_valid: "w \<in> {WrapKEK, WrapPassword} \<Longrightarrow> ValidString (wrap_string w)"
  "w \<in> {WrapKEK, WrapPassword} \<Longrightarrow> wrap_of_string (wrap_string w) = w"
  by (auto simp: ValidString_ascii wrap_of_string_def)

lemma read_kdf_marshal: "read_kdf None (marshal_kdf k) = Some (Some k)"
proof -
  have "members kdf_field
      [(''salt'', json_bytes (kp_Salt k)), (''t'', JNum (uint (kp_Time k))),
       (''m'', JNum (uint (kp_MemoryKiB k))), (''p'', JNum (uint (kp_Threads k)))] zero_kdf = Some k"
    by (simp add: kdf_field_def fold_names lower_char_def uint_bounds zero_kdf_def)
  then show ?thesis by (simp add: marshal_kdf_def)
qed

lemma members_append:
  "members f (xs @ ys) x = (case members f xs x of None \<Rightarrow> None | Some y \<Rightarrow> members f ys y)"
  by (induction xs arbitrary: x) (auto split: option.splits)

text \<open>The members that are always there, and the two optional ones.\<close>

lemma body_field_fixed:
  "in64 n \<Longrightarrow> body_field (''v'', JNum n) r = Some (r\<lparr>eb_Version := n\<rparr>)"
  "body_field (''alg'', JStr s) r = Some (r\<lparr>eb_Alg := s\<rparr>)"
  "body_field (''nonce'', json_bytes b) r = Some (r\<lparr>eb_Nonce := b\<rparr>)"
  "body_field (''ct'', json_bytes b) r = Some (r\<lparr>eb_Ciphertext := b\<rparr>)"
  "body_field (''wrap'', JStr s) r = Some (r\<lparr>eb_WrapMode := wrap_of_string s\<rparr>)"
  "body_field (''kek_id'', JStr s) r = Some (r\<lparr>eb_KEKID := s\<rparr>)"
  "body_field (''wrap_nonce'', json_bytes b) r = Some (r\<lparr>eb_WrapNonce := b\<rparr>)"
  "body_field (''wrapped_dek'', json_bytes b) r = Some (r\<lparr>eb_WrappedDEK := b\<rparr>)"
  by (simp_all add: body_field_def fold_names lower_char_def in64_def)

lemma body_field_kdf:
  "eb_KDF r = None \<Longrightarrow> body_field (''kdf'', marshal_kdf k) r = Some (r\<lparr>eb_KDF := Some k\<rparr>)"
  by (simp add: body_field_def fold_names lower_char_def read_kdf_marshal)

lemma unmarshal_marshal:
  assumes "storable r"
  shows "unmarshal_body (marshal_body r) = Some r"
proof -
  have s: "json_string (eb_Alg r) = JStr (eb_Alg r)" "json_string (eb_KEKID r) = JStr (eb_KEKID r)"
    "json_string (wrap_string (eb_WrapMode r)) = JStr (wrap_string (eb_WrapMode r))"
    "wrap_of_string (wrap_string (eb_WrapMode r)) = eb_WrapMode r" "in64 (eb_Version r)"
    using assms wrap_string_valid [of "eb_WrapMode r"]
    by (simp_all add: storable_def json_string_valid)
  show ?thesis
    by (cases "eb_KDF r"; cases "eb_KEKID r = []")
      (simp_all add: marshal_body_def members_append s body_field_fixed body_field_kdf zero_body_def)
qed

end
