(* ===== verification/Ports.thy ===== *)
theory Ports
  imports BodyJson Strconv
begin

text \<open>
  The interfaces of \<^verbatim>\<open>internal/paste/ports.go\<close>. A Go interface value is a record of its methods; the
  contract of an interface is a locale over such a record, with an abstraction of the
  implementation's state. The locales also say what an implementation leaves alone, and what it
  must achieve in a \<open>fine\<close> state, one from which on no call fails for reasons outside the program.
\<close>

section \<open>The interface values\<close>

record 's BodyStore =
  bs_Put :: "uuid \<Rightarrow> EncryptedBody \<Rightarrow> duration \<Rightarrow> ('s, unit) op"
  bs_Get :: "uuid \<Rightarrow> ('s, EncryptedBody) op"
  bs_Delete :: "uuid \<Rightarrow> ('s, unit) op"
  bs_MarkUnavailableOnce :: "uuid \<Rightarrow> duration \<Rightarrow> ('s, bool) op"
  bs_Ping :: "('s, unit) op"

text \<open>\<^verbatim>\<open>ms_PurgeCompleted\<close> is the optional method the sweeper looks for with a type assertion.\<close>

record 's MetaStore =
  ms_Create :: "PasteMeta \<Rightarrow> ('s, unit) op"
  ms_Get :: "uuid \<Rightarrow> ('s, PasteMeta) op"
  ms_IncrementViews :: "uuid \<Rightarrow> ('s, unit) op"
  ms_MarkDeleted :: "uuid \<Rightarrow> uuid \<Rightarrow> gtime \<Rightarrow> ('s, unit) op"
  ms_ListByOwner :: "uuid \<Rightarrow> Page \<Rightarrow> ('s, PasteMeta list) op"
  ms_ListAll :: "uuid option \<Rightarrow> Page \<Rightarrow> ('s, PasteMeta list) op"
  ms_ListExpiredUnaudited :: "gtime \<Rightarrow> int \<Rightarrow> ('s, PasteMeta list) op"
  ms_MarkExpiredAudited :: "uuid list \<Rightarrow> gtime \<Rightarrow> ('s, unit) op"
  ms_PurgeOlderThan :: "gtime \<Rightarrow> ('s, int) op"
  ms_PurgeCompletedOlderThan :: "(gtime \<Rightarrow> ('s, int) op) option"
  ms_CountActive :: "gtime \<Rightarrow> ('s, int) op"
  ms_Ping :: "('s, unit) op"

record 's EnvelopePort =
  es_Seal :: "uuid \<Rightarrow> gtime \<Rightarrow> bytes \<Rightarrow> string \<Rightarrow> ('s, EncryptedBody) op"
  es_Open :: "uuid \<Rightarrow> gtime \<Rightarrow> EncryptedBody \<Rightarrow> string \<Rightarrow> ('s, bytes) op"
  es_ActiveKEKID :: string

section \<open>The body store\<close>

text \<open>
  \<open>held s t i\<close> is what the store has for paste \<open>i\<close> at its own time \<open>t\<close> (in milliseconds): nothing, an
  unreadable entry or a record; \<open>now s\<close> is the store's time of the next call. A successful \<open>Put\<close> holds
  the record for the whole milliseconds of the given lifetime and at least one.
\<close>

locale body_store =
  fixes B :: "'s BodyStore"
    and held :: "'s \<Rightarrow> int \<Rightarrow> uuid \<Rightarrow> EncryptedBody option option"
    and now :: "'s \<Rightarrow> int"
    and sound :: "'s \<Rightarrow> bool"
    and fine :: "'s \<Rightarrow> bool"
  assumes put_ok:
    "\<lbrakk>sound s; storable r; bs_Put B i r d s = (Inr (), s'); now s \<le> t\<rbrakk> \<Longrightarrow>
     held s' t i = (if t \<le> now s + max 1 (d div Millisecond) then Some (Some r) else None)"
  and put_other:
    "\<lbrakk>sound s; now s \<le> t; j \<noteq> i\<rbrakk> \<Longrightarrow> held (snd (bs_Put B i r d s)) t j = held s t j"
  and put_nonpos: "d \<le> 0 \<Longrightarrow> \<exists>e. bs_Put B i r d s = (Inl e, s)"
  and put_bounded:
    "\<lbrakk>sound s; now s + max 1 (d div Millisecond) < t\<rbrakk> \<Longrightarrow>
     held (snd (bs_Put B i r d s)) t i = None \<or> held (snd (bs_Put B i r d s)) t i = held s t i"
  and get_ok: "\<lbrakk>sound s; bs_Get B i s = (Inr r, s')\<rbrakk> \<Longrightarrow> held s (now s) i = Some (Some r)"
  and get_missing:
    "\<lbrakk>sound s; bs_Get B i s = (Inl e, s'); errors_Is e ErrNotFound\<rbrakk> \<Longrightarrow> held s (now s) i = None"
  and get_keeps: "held (snd (bs_Get B i s)) = held s"
  and delete_ok:
    "\<lbrakk>sound s; bs_Delete B i s = (Inr (), s'); now s \<le> t\<rbrakk> \<Longrightarrow> held s' t i = None"
  and delete_other:
    "\<lbrakk>sound s; now s \<le> t; j \<noteq> i\<rbrakk> \<Longrightarrow> held (snd (bs_Delete B i s)) t j = held s t j"
  and delete_shrinks:
    "\<lbrakk>sound s; now s \<le> t\<rbrakk> \<Longrightarrow>
     held (snd (bs_Delete B i s)) t i = None \<or> held (snd (bs_Delete B i s)) t i = held s t i"
  and mark_keeps:
    "\<lbrakk>sound s; now s \<le> t\<rbrakk> \<Longrightarrow> held (snd (bs_MarkUnavailableOnce B i d s)) t j = held s t j"
  and sound_bodies:
    "sound (snd (bs_Put B i r d s)) = sound s" "sound (snd (bs_Get B i s)) = sound s"
    "sound (snd (bs_Delete B i s)) = sound s" "sound (snd (bs_MarkUnavailableOnce B i d s)) = sound s"
  and now_bodies:
    "sound s \<Longrightarrow> now s \<le> now (snd (bs_Put B i r d s))" "sound s \<Longrightarrow> now s \<le> now (snd (bs_Get B i s))"
    "sound s \<Longrightarrow> now s \<le> now (snd (bs_Delete B i s))"
    "sound s \<Longrightarrow> now s \<le> now (snd (bs_MarkUnavailableOnce B i d s))"
  and put_fine: "fine s \<Longrightarrow> 0 < d \<Longrightarrow> \<exists>s'. bs_Put B i r d s = (Inr (), s') \<and> fine s'"
  and get_fine:
    "\<lbrakk>sound s; fine s; held s (now s) i = Some (Some r)\<rbrakk> \<Longrightarrow> \<exists>s'. bs_Get B i s = (Inr r, s') \<and> fine s'"
  and delete_fine: "fine s \<Longrightarrow> \<exists>s'. bs_Delete B i s = (Inr (), s') \<and> fine s'"

section \<open>The metadata store\<close>

text \<open>
  \<open>row s i\<close> is the row of paste \<open>i\<close>; \<open>stored\<close> is what the columns keep of a row. A failed statement
  has been applied or not.
\<close>

definition mark_row :: "(gtime \<Rightarrow> gtime) \<Rightarrow> uuid \<Rightarrow> gtime \<Rightarrow> PasteMeta \<Rightarrow> PasteMeta" where
  "mark_row f by at m =
     (if pm_DeletedAt m = None then m\<lparr>pm_DeletedAt := Some (f at), pm_DeletedBy := Some by\<rparr> else m)"

locale meta_store =
  fixes M :: "'s MetaStore"
    and row :: "'s \<Rightarrow> uuid \<Rightarrow> PasteMeta option"
    and stored :: "gtime \<Rightarrow> gtime"
    and sound :: "'s \<Rightarrow> bool"
    and fine :: "'s \<Rightarrow> bool"
  assumes create_ok:
    "\<lbrakk>sound s; ms_Create M m s = (Inr (), s')\<rbrakk> \<Longrightarrow>
     row s (pm_ID m) = None \<and>
     row s' (pm_ID m) = Some (m\<lparr>pm_CreatedAt := stored (pm_CreatedAt m), pm_ExpiresAt := stored (pm_ExpiresAt m),
       pm_ExpiredAuditedAt := map_option stored (pm_ExpiredAuditedAt m),
       pm_DeletedAt := map_option stored (pm_DeletedAt m)\<rparr>)"
  and create_other: "\<lbrakk>sound s; j \<noteq> pm_ID m\<rbrakk> \<Longrightarrow> row (snd (ms_Create M m s)) j = row s j"
  and meta_get_ok: "\<lbrakk>sound s; ms_Get M i s = (Inr m, s')\<rbrakk> \<Longrightarrow> row s i = Some m"
  and meta_get_missing:
    "\<lbrakk>sound s; ms_Get M i s = (Inl e, s'); errors_Is e ErrNotFound\<rbrakk> \<Longrightarrow> row s i = None"
  and meta_get_keeps: "row (snd (ms_Get M i s)) = row s"
  and views_keep:
    "\<lbrakk>sound s\<rbrakk> \<Longrightarrow> row (snd (ms_IncrementViews M i s)) j = row s j \<or>
       j = i \<and> row (snd (ms_IncrementViews M i s)) j =
         map_option (\<lambda>m. m\<lparr>pm_ViewCount := pm_ViewCount m + 1\<rparr>) (row s j)"
  and mark_ok:
    "\<lbrakk>sound s; ms_MarkDeleted M i by at s = (Inr (), s')\<rbrakk> \<Longrightarrow>
     row s' i = map_option (mark_row stored by at) (row s i)"
  and mark_other: "\<lbrakk>sound s; j \<noteq> i\<rbrakk> \<Longrightarrow> row (snd (ms_MarkDeleted M i by at s)) j = row s j"
  and sound_metas:
    "sound s \<Longrightarrow> sound (snd (ms_Create M m s))" "sound (snd (ms_Get M i s)) = sound s"
    "sound s \<Longrightarrow> sound (snd (ms_IncrementViews M i s))"
    "sound s \<Longrightarrow> sound (snd (ms_MarkDeleted M i by at s))"
  and get_meta_fine:
    "\<lbrakk>sound s; fine s; row s i = Some m\<rbrakk> \<Longrightarrow> \<exists>s'. ms_Get M i s = (Inr m, s') \<and> fine s'"
  and create_fine: "fine s \<Longrightarrow> fine (snd (ms_Create M m s))"
  and views_fine: "fine s \<Longrightarrow> fine (snd (ms_IncrementViews M i s))"
  and mark_fine: "fine s \<Longrightarrow> fine (snd (ms_MarkDeleted M i by at s))"

section \<open>The envelope\<close>

text \<open>
  A sealed record can be kept by a body store, opens to what was sealed with the password it was
  sealed with, for the same paste and the same second of expiry, and to nothing else; without
  the password of a password record the envelope asks for it.
\<close>

locale envelope_port =
  fixes V :: "'s EnvelopePort"
    and sound :: "'s \<Rightarrow> bool"
    and fine :: "'s \<Rightarrow> bool"
  assumes seal_storable: "\<lbrakk>sound s; es_Seal V i x p pw s = (Inr r, s')\<rbrakk> \<Longrightarrow> storable r"
  and seal_key_id:
    "\<lbrakk>sound s; es_Seal V i x p pw s = (Inr r, s')\<rbrakk> \<Longrightarrow>
     eb_KEKID r = (if pw = [] then es_ActiveKEKID V else [])"
  and open_seal:
    "\<lbrakk>sound s; es_Seal V i x p pw s = (Inr r, s'); unix_sec y = unix_sec x;
      es_Open V i y r pw u = (Inr q, u')\<rbrakk> \<Longrightarrow> q = p"
  and open_without_password:
    "\<lbrakk>sound s; es_Seal V i x p pw s = (Inr r, s'); pw \<noteq> []\<rbrakk> \<Longrightarrow> es_Open V i y r [] u = (Inl ErrPasswordRequired, u)"
  and open_fine:
    "\<lbrakk>sound s; es_Seal V i x p pw s = (Inr r, s'); unix_sec y = unix_sec x; fine u\<rbrakk> \<Longrightarrow>
     \<exists>u'. es_Open V i y r pw u = (Inr p, u') \<and> fine u'"
  and seal_fine: "\<lbrakk>sound s; fine s\<rbrakk> \<Longrightarrow> \<exists>r s'. es_Seal V i x p pw s = (Inr r, s') \<and> fine s'"

end
