(* ===== verification/Canonical.thy ===== *)
theory Canonical
  imports PasteTypes Utf8 Base64
begin

text \<open>
  \<^verbatim>\<open>internal/paste/canonical.go\<close>: the canonical form of paste content (valid UTF-8 with exactly
  the byte order mark it has or is given in front, within the size limit) and its hash.
  SHA-256 is a parameter.
\<close>

definition BOM :: bytes where
  "BOM = [0xEF, 0xBB, 0xBF]"

definition HasBOM :: "bytes \<Rightarrow> bool" where
  "HasBOM d \<longleftrightarrow> take (length BOM) d = BOM"

definition StripBOM :: "bytes \<Rightarrow> bytes" where
  "StripBOM d = (if HasBOM d then drop (length BOM) d else d)"

definition Canonicalize :: "string \<Rightarrow> int \<Rightarrow> bytes res" where
  "Canonicalize content maxSize =
     (if \<not> ValidString content then Inl ErrInvalidUTF8
      else
        (let canonical = bytes_of content;
             canonical = (if \<not> HasBOM canonical then BOM @ canonical else canonical)
         in if int (length canonical) > maxSize
            then Inl (ErrTooLarge maxSize (int (length canonical)))
            else Inr canonical))"

definition HashHex :: "(bytes \<Rightarrow> bytes) \<Rightarrow> bytes \<Rightarrow> string" where
  "HashHex sha256 d = hex_EncodeToString (sha256 d)"

section \<open>Lemmas\<close>

lemma HasBOM_append [simp]: "HasBOM (BOM @ d)"
  by (simp add: HasBOM_def)

lemma HasBOM_iff: "HasBOM d \<longleftrightarrow> (\<exists>r. d = BOM @ r)"
  by (metis HasBOM_append HasBOM_def append_take_drop_id)

lemma StripBOM_append [simp]: "StripBOM (BOM @ d) = d"
  by (simp add: StripBOM_def)

lemma rune_size_BOM: "rune_size BOM = length BOM"
  by (simp add: rune_size_def BOM_def lead_size_def second_ok_def cont_def)

lemma BOM_nonempty [simp]: "BOM \<noteq> []"
  by (simp add: BOM_def)

lemma Valid_BOM: "Valid BOM"
  by (simp add: Valid_step rune_size_BOM)

lemma canonical_form: "(if \<not> HasBOM d then BOM @ d else d) = BOM @ StripBOM d"
  by (auto simp: StripBOM_def HasBOM_iff)

lemma Canonicalize_alt:
  "Canonicalize content maxSize =
     (let c = BOM @ StripBOM (bytes_of content)
      in if \<not> ValidString content then Inl ErrInvalidUTF8
         else if int (length c) > maxSize then Inl (ErrTooLarge maxSize (int (length c)))
         else Inr c)"
  unfolding Canonicalize_def Let_def canonical_form by simp

lemma Valid_canonical:
  assumes "ValidString content"
  shows "Valid (BOM @ StripBOM (bytes_of content))"
  using assms Valid_append [OF Valid_BOM]
  unfolding canonical_form [symmetric] ValidString_def by simp

lemma Canonicalize_Inr:
  assumes "Canonicalize content maxSize = Inr c"
  shows "ValidString content" "HasBOM c" "Valid c" "int (length c) \<le> maxSize"
    "c = BOM @ StripBOM (bytes_of content)"
  using assms Valid_canonical by (auto simp: Canonicalize_alt Let_def split: if_splits)

end
