(* ===== verification/Service.thy ===== *)
theory Service
  imports Ports Canonical AuditLog
begin

text \<open>
  \<^verbatim>\<open>internal/paste/service.go\<close>: the paste use cases over the ports of \<open>Ports\<close>. The operations are
  written over any \<open>Deps\<close>; the locale \<open>paste_ports\<close> collects what the ports promise one another, and
  the results about the operations are proved there once.
\<close>

section \<open>The service\<close>

record Limits =
  li_MaxSize :: int
  li_TTLDefault :: int
  li_TTLMin :: int
  li_TTLMax :: int

text \<open>
  The fields of \<^verbatim>\<open>Deps\<close>, and at the end the three package functions the service calls that come from
  outside the repository or the pure language: \<^verbatim>\<open>uuid.New\<close>, \<^verbatim>\<open>UUID.String\<close> and SHA-256.
\<close>

record 's Deps =
  d_Bodies :: "'s BodyStore"
  d_Metas :: "'s MetaStore"
  d_Envelope :: "'s EnvelopePort"
  d_Audit :: "(ctx \<Rightarrow> Event \<Rightarrow> 's \<Rightarrow> 's) option"
  d_Now :: "'s \<Rightarrow> gtime \<times> 's"
  d_BaseURL :: string
  d_Limits :: Limits
  d_uuid_New :: "'s \<Rightarrow> uuid \<times> 's"
  d_uuid_String :: "uuid \<Rightarrow> string"
  d_sha256 :: "bytes \<Rightarrow> bytes"

definition Now :: "'s Deps \<Rightarrow> ('s, gtime) op" where
  "Now D s = (let (t, s') = d_Now D s in (Inr t, s'))"

definition uuid_New :: "'s Deps \<Rightarrow> ('s, uuid) op" where
  "uuid_New D s = (let (i, s') = d_uuid_New D s in (Inr i, s'))"

definition PasteURL :: "'s Deps \<Rightarrow> string \<Rightarrow> uuid \<Rightarrow> string" where
  "PasteURL D baseURL i = TrimRight CHR ''/'' baseURL @ ''/pastebin/'' @ d_uuid_String D i"

definition service_record ::
  "'s Deps \<Rightarrow> ctx \<Rightarrow> audit_event \<Rightarrow> uuid option \<Rightarrow> uuid option \<Rightarrow> audit_outcome \<Rightarrow>
   (string \<times> dval) list \<Rightarrow> 's \<Rightarrow> 's" where
  "service_record D c event actor i outcome details s =
     (case d_Audit D of
        None \<Rightarrow> s
      | Some rec \<Rightarrow>
          (let (now, s') = d_Now D s
           in rec c \<lparr>ev_At = now, ev_Event = event, ev_ActorID = actor, ev_PasteID = i, ev_IP = [],
                     ev_UserAgent = [], ev_Outcome = outcome, ev_Details = details\<rparr> s'))"

text \<open>The metadata \<open>Create\<close> builds before sealing.\<close>

definition create_meta :: "'s Deps \<Rightarrow> Principal \<Rightarrow> string \<Rightarrow> int \<Rightarrow> bytes \<Rightarrow> gtime \<Rightarrow> uuid \<Rightarrow> PasteMeta" where
  "create_meta D p password ttl canonical now i =
     \<lparr>pm_ID = i, pm_OwnerID = pr_UserID p, pm_CreatedAt = now,
      pm_ExpiresAt = now + wrap64 (ttl * Second), pm_TTLSeconds = ttl,
      pm_SizeBytes = int (length canonical), pm_HashAlgo = ''sha256'',
      pm_ContentHash = HashHex (d_sha256 D) canonical,
      pm_PasswordProtected = (password \<noteq> []), pm_KEKID = [], pm_ViewCount = 0,
      pm_ExpiredAuditedAt = None, pm_DeletedAt = None, pm_DeletedBy = None\<rparr>"

text \<open>The end of \<open>Create\<close>: the metadata row, with the rollback of the body when it cannot be stored.\<close>

definition create_store_meta ::
  "'s Deps \<Rightarrow> ctx \<Rightarrow> Principal \<Rightarrow> PasteMeta \<Rightarrow> ('s, CreateResult) op" where
  "create_store_meta D c p m s =
     (case ms_Create (d_Metas D) m s of
        (Inl e, s1) \<Rightarrow> (Inl (EWrap ''store metadata'' e), snd (bs_Delete (d_Bodies D) (pm_ID m) s1))
      | (Inr _, s1) \<Rightarrow>
          (Inr \<lparr>cr_Meta = m, cr_URL = PasteURL D (d_BaseURL D) (pm_ID m)\<rparr>,
           service_record D c PasteCreated (Some (pr_UserID p)) (Some (pm_ID m)) OutcomeSuccess
             [(''size_bytes'', DInt (pm_SizeBytes m)), (''ttl_seconds'', DInt (pm_TTLSeconds m)),
              (''password_protected'', DBool (pm_PasswordProtected m))] s1))"

text \<open>The part of \<open>Create\<close> after sealing: the remaining lifetime, the body, the row.\<close>

definition create_store :: "'s Deps \<Rightarrow> ctx \<Rightarrow> Principal \<Rightarrow> PasteMeta \<Rightarrow> EncryptedBody \<Rightarrow> ('s, CreateResult) op" where
  "create_store D c p m r =
     bindR (Now D) (\<lambda>now.
     let remaining = time_Sub (pm_ExpiresAt m) now
     in if remaining \<le> 0 then failR ErrExpired
        else bindR (mapE (EWrap ''store body'') (bs_Put (d_Bodies D) (pm_ID m) r remaining)) (\<lambda>_.
             create_store_meta D c p m))"

definition service_Create :: "'s Deps \<Rightarrow> ctx \<Rightarrow> Principal \<Rightarrow> CreateInput \<Rightarrow> ('s, CreateResult) op" where
  "service_Create D c p inp =
     (let ttl = (if ci_TTLSeconds inp = 0 then li_TTLDefault (d_Limits D) else ci_TTLSeconds inp);
          password = ci_Password inp
      in if ttl < li_TTLMin (d_Limits D) \<or> ttl > li_TTLMax (d_Limits D) then failR ErrInvalidTTL
         else if \<not> ValidString password \<or> (password \<noteq> [] \<and> RuneCountInString password > 128)
         then failR ErrInvalidPassword
         else
           bindR (liftR (Canonicalize (ci_Content inp) (li_MaxSize (d_Limits D)))) (\<lambda>canonical.
           bindR (Now D) (\<lambda>now.
           bindR (uuid_New D) (\<lambda>i.
           let m = create_meta D p password ttl canonical now i
           in bindR (es_Seal (d_Envelope D) i (pm_ExpiresAt m) canonical password) (\<lambda>r.
              create_store D c p (if pm_PasswordProtected m then m else m\<lparr>pm_KEKID := eb_KEKID r\<rparr>) r)))))"

definition actorOf :: "Principal option \<Rightarrow> uuid option" where
  "actorOf p = map_option pr_UserID p"

text \<open>
  The parts of \<open>Read\<close>: the expiry check it makes over and over, what it does when the body is
  missing, and what it does with the decrypted text.
\<close>

definition unless_expired :: "'s Deps \<Rightarrow> ReadResult \<Rightarrow> ('s, ReadResult) op \<Rightarrow> ('s, ReadResult) op" where
  "unless_expired D res k =
     bindR (Now D) (\<lambda>now.
     if \<not> now < pm_ExpiresAt (rr_Meta res) then retR (res\<lparr>rr_Status := StatusExpired\<rparr>) else k)"

definition read_missing ::
  "'s Deps \<Rightarrow> ctx \<Rightarrow> Principal option \<Rightarrow> ReadResult \<Rightarrow> gtime \<Rightarrow> uuid \<Rightarrow> ('s, ReadResult) op" where
  "read_missing D c p res now i s =
     (let res = res\<lparr>rr_Status := StatusUnavailable\<rparr>
      in case bs_MarkUnavailableOnce (d_Bodies D) i (wrap64 (time_Sub (pm_ExpiresAt (rr_Meta res)) now + Hour)) s of
           (Inr True, s1) \<Rightarrow> (Inr res, service_record D c PasteUnavailable (actorOf p) (Some i) OutcomeFailure [] s1)
         | (_, s1) \<Rightarrow> (Inr res, s1))"

definition read_release ::
  "'s Deps \<Rightarrow> ctx \<Rightarrow> Principal option \<Rightarrow> ReadResult \<Rightarrow> uuid \<Rightarrow> bytes \<Rightarrow> ('s, ReadResult) op" where
  "read_release D c p res i plain =
     unless_expired D res (\<lambda>s.
     let s = snd (ms_IncrementViews (d_Metas D) i s)
     in unless_expired D res (\<lambda>s.
        let event = (if pm_PasswordProtected (rr_Meta res) then PasteUnlockSuccess else PasteViewed);
            s = service_record D c event (actorOf p) (Some i) OutcomeSuccess [] s
        in unless_expired D res (retR (res\<lparr>rr_Content := Some plain, rr_HashVisible := True\<rparr>)) s) s)"

definition read_open ::
  "'s Deps \<Rightarrow> ctx \<Rightarrow> Principal option \<Rightarrow> ReadResult \<Rightarrow> uuid \<Rightarrow> EncryptedBody \<Rightarrow> string \<Rightarrow> ('s, ReadResult) op" where
  "read_open D c p res i r password s =
     (case es_Open (d_Envelope D) i (pm_ExpiresAt (rr_Meta res)) r password s of
        (Inl e, s1) \<Rightarrow>
          (Inl e, if errors_Is e ErrWrongPassword
                  then service_record D c PasteUnlockFailure (actorOf p) (Some i) OutcomeFailure [] s1 else s1)
      | (Inr plain, s1) \<Rightarrow> read_release D c p res i plain s1)"

definition service_Read :: "'s Deps \<Rightarrow> ctx \<Rightarrow> Principal option \<Rightarrow> uuid \<Rightarrow> string \<Rightarrow> ('s, ReadResult) op" where
  "service_Read D c p i password =
     bindR (ms_Get (d_Metas D) i) (\<lambda>m.
     bindR (Now D) (\<lambda>now.
     let res = \<lparr>rr_Meta = m, rr_Status = meta_Status m now, rr_Content = None,
                rr_HashVisible = (\<not> pm_PasswordProtected m)\<rparr>
     in if rr_Status res \<noteq> StatusActive then retR res
        else (\<lambda>s. let (body, s1) = bs_Get (d_Bodies D) i s
               in bindR (Now D) (\<lambda>now.
                  if \<not> now < pm_ExpiresAt m then retR (res\<lparr>rr_Status := StatusExpired\<rparr>)
                  else case body of
                    Inl e \<Rightarrow> (if errors_Is e ErrNotFound then read_missing D c p res now i else failR e)
                  | Inr r \<Rightarrow> (if pm_PasswordProtected m \<and> password = [] then retR res
                             else read_open D c p res i r password)) s1)))"

definition service_Verify :: "'s Deps \<Rightarrow> ctx \<Rightarrow> uuid \<Rightarrow> string \<Rightarrow> ('s, VerifyResult) op" where
  "service_Verify D c i sha256hex =
     bindR (ms_Get (d_Metas D) i) (\<lambda>m.
     let match = EqualFold (TrimSpace sha256hex) (pm_ContentHash m)
     in bindR (Now D) (\<lambda>now.
        let res = \<lparr>vr_Match = match, vr_Status = meta_Status m now, vr_Meta = m\<rparr>;
            outcome = (if match then OutcomeSuccess else OutcomeFailure)
        in (\<lambda>s. (Inr res, service_record D c PasteVerify None (Some i) outcome
             [(''match'', DBool match), (''status'', DStr (status_string (vr_Status res)))] s))))"

definition service_Delete :: "'s Deps \<Rightarrow> ctx \<Rightarrow> Principal \<Rightarrow> uuid \<Rightarrow> ('s, unit) op" where
  "service_Delete D c p i =
     bindR (ms_Get (d_Metas D) i) (\<lambda>m.
     if pm_OwnerID m \<noteq> pr_UserID p \<and> \<not> pr_IsAdmin p then failR ErrForbidden
     else bindR (Now D) (\<lambda>now.
       if pm_DeletedAt m \<noteq> None \<or> \<not> now < pm_ExpiresAt m then retR ()
       else bindR (mapE (EWrap ''delete body'') (bs_Delete (d_Bodies D) i)) (\<lambda>_.
            bindR (mapE (EWrap ''mark deleted'') (ms_MarkDeleted (d_Metas D) i (pr_UserID p) now)) (\<lambda>_.
            (\<lambda>s. (Inr (), service_record D c PasteDeleted (Some (pr_UserID p)) (Some i) OutcomeSuccess
               [(''by_admin'', DBool (pr_IsAdmin p \<and> pm_OwnerID m \<noteq> pr_UserID p))] s))))))"

definition service_ListMine :: "'s Deps \<Rightarrow> Principal \<Rightarrow> Page \<Rightarrow> ('s, PasteMeta list) op" where
  "service_ListMine D p page = ms_ListByOwner (d_Metas D) (pr_UserID p) page"

definition service_ListAll :: "'s Deps \<Rightarrow> Principal \<Rightarrow> uuid option \<Rightarrow> Page \<Rightarrow> ('s, PasteMeta list) op" where
  "service_ListAll D p ownerFilter page =
     (if \<not> pr_IsAdmin p then failR ErrForbidden else ms_ListAll (d_Metas D) ownerFilter page)"

section \<open>Reading, over any ports\<close>

lemma Now_simps [simp]:
  "Now D s = (Inr (fst (d_Now D s)), snd (d_Now D s))"
  by (simp add: Now_def split_beta)

lemma uuid_New_simps [simp]:
  "uuid_New D s = (Inr (fst (d_uuid_New D s)), snd (d_uuid_New D s))"
  by (simp add: uuid_New_def split_beta)

lemma unless_expired_eq:
  "unless_expired D res k s =
     (if fst (d_Now D s) < pm_ExpiresAt (rr_Meta res) then k (snd (d_Now D s))
      else (Inr (res\<lparr>rr_Status := StatusExpired\<rparr>), snd (d_Now D s)))"
  by (simp add: unless_expired_def bindR_def)

lemma unless_expired_cases:
  assumes "unless_expired D res k s = (Inr r, s')"
  obtains (expired) "r = res\<lparr>rr_Status := StatusExpired\<rparr>" "\<not> fst (d_Now D s) < pm_ExpiresAt (rr_Meta res)"
      "s' = snd (d_Now D s)"
  | (live) "fst (d_Now D s) < pm_ExpiresAt (rr_Meta res)" "k (snd (d_Now D s)) = (Inr r, s')"
  using assms by (auto simp: unless_expired_eq split: if_splits)

lemma read_release_cases:
  assumes "read_release D c p res i plain s = (Inr r, s')"
  obtains (expired) u where "r = res\<lparr>rr_Status := StatusExpired\<rparr>"
      "\<not> fst (d_Now D u) < pm_ExpiresAt (rr_Meta res)" "s' = snd (d_Now D u)"
  | (released) u where "r = res\<lparr>rr_Content := Some plain, rr_HashVisible := True\<rparr>"
      "fst (d_Now D u) < pm_ExpiresAt (rr_Meta res)" "s' = snd (d_Now D u)"
  using assms
  by (auto simp: read_release_def Let_def elim!: unless_expired_cases)

lemma read_missing_Inr:
  "read_missing D c p res now i s = (Inr r, s') \<Longrightarrow> r = res\<lparr>rr_Status := StatusUnavailable\<rparr>"
  by (auto simp: read_missing_def Let_def split: prod.splits sum.splits bool.splits)

text \<open>The shape of a successful \<open>Read\<close>: one case per \<^verbatim>\<open>return\<close> of the source.\<close>

lemma service_Read_cases:
  assumes "service_Read D c p i password s = (Inr res, s')"
  obtains (inactive) m u where "fst (ms_Get (d_Metas D) i s) = Inr m" "rr_Meta res = m" "rr_Content res = None"
      "rr_Status res = meta_Status m (fst (d_Now D u))" "rr_HashVisible res = (\<not> pm_PasswordProtected m)"
      "rr_Status res \<noteq> StatusActive"
  | (late) m where "fst (ms_Get (d_Metas D) i s) = Inr m" "rr_Meta res = m" "rr_Content res = None"
      "rr_Status res \<in> {StatusExpired, StatusUnavailable}" "rr_HashVisible res = (\<not> pm_PasswordProtected m)"
  | (locked) m where "fst (ms_Get (d_Metas D) i s) = Inr m" "rr_Meta res = m" "rr_Content res = None"
      "rr_Status res = StatusActive" "pm_PasswordProtected m" "password = []" "\<not> rr_HashVisible res"
  | (released) m r t u v v' plain where "fst (ms_Get (d_Metas D) i s) = Inr m"
      "meta_Status m t = StatusActive" "\<not> (pm_PasswordProtected m \<and> password = [])"
      "fst (bs_Get (d_Bodies D) i u) = Inr r" "es_Open (d_Envelope D) i (pm_ExpiresAt m) r password v = (Inr plain, v')"
      "read_release D c p \<lparr>rr_Meta = m, rr_Status = StatusActive, rr_Content = None,
         rr_HashVisible = (\<not> pm_PasswordProtected m)\<rparr> i plain v' = (Inr res, s')"
proof -
  from assms obtain m s1 where m: "ms_Get (d_Metas D) i s = (Inr m, s1)"
    by (auto simp: service_Read_def bindR_Inr)
  define t where "t = fst (d_Now D s1)"
  define s2 where "s2 = snd (d_Now D s1)"
  define res0 where "res0 = \<lparr>rr_Meta = m, rr_Status = StatusActive, rr_Content = None,
         rr_HashVisible = (\<not> pm_PasswordProtected m)\<rparr>"
  show thesis
  proof (cases "meta_Status m t = StatusActive")
    case False
    with assms show thesis
      using inactive [of m s1]
      by (auto simp: service_Read_def bindR_def m Let_def t_def)
  next
    case True
    define s3 where "s3 = snd (bs_Get (d_Bodies D) i s2)"
    define t3 where "t3 = fst (d_Now D s3)"
    define s4 where "s4 = snd (d_Now D s3)"
    have eq: "(if \<not> t3 < pm_ExpiresAt m then retR (res0\<lparr>rr_Status := StatusExpired\<rparr>)
         else case fst (bs_Get (d_Bodies D) i s2) of
             Inl e \<Rightarrow> (if errors_Is e ErrNotFound then read_missing D c p res0 t3 i else failR e)
           | Inr r \<Rightarrow> (if pm_PasswordProtected m \<and> password = [] then retR res0
                      else read_open D c p res0 i r password)) s4 = (Inr res, s')"
      using assms True
      by (simp add: service_Read_def bindR_def m Let_def t_def s2_def [symmetric] s3_def t3_def s4_def
          res0_def split_beta cong: if_cong sum.case_cong)
    consider (x) "\<not> t3 < pm_ExpiresAt m" | (e) e where "t3 < pm_ExpiresAt m" "fst (bs_Get (d_Bodies D) i s2) = Inl e"
      | (r) r where "t3 < pm_ExpiresAt m" "fst (bs_Get (d_Bodies D) i s2) = Inr r"
      by (cases "fst (bs_Get (d_Bodies D) i s2)") auto
    then show thesis
    proof cases
      case x
      with eq show thesis using late [of m] m by (auto simp: res0_def)
    next
      case e
      with eq show thesis
        using late [of m] m by (auto simp: res0_def split: if_splits dest!: read_missing_Inr)
    next
      case r
      with eq show thesis
        using locked [of m] released [of m t s2 r] m True
        by (auto simp: res0_def read_open_def split: if_splits prod.splits sum.splits)
    qed
  qed
qed

text \<open>
  What \<open>Read\<close> may release, over any ports: text comes with the status active, from a row that is not
  deleted, out of the envelope, with a password when the paste has one, and the last thing
  \<open>Read\<close> did before returning it was to see a clock that had not reached the expiry.
\<close>

lemma read_content:
  assumes "service_Read D c p i password s = (Inr res, s')" and "rr_Content res = Some plain"
  obtains u r v v' u' where "fst (ms_Get (d_Metas D) i s) = Inr (rr_Meta res)" "rr_Status res = StatusActive"
    "pm_DeletedAt (rr_Meta res) = None" "pm_PasswordProtected (rr_Meta res) \<Longrightarrow> password \<noteq> []"
    "fst (bs_Get (d_Bodies D) i u) = Inr r"
    "es_Open (d_Envelope D) i (pm_ExpiresAt (rr_Meta res)) r password v = (Inr plain, v')"
    "s' = snd (d_Now D u')" "fst (d_Now D u') < pm_ExpiresAt (rr_Meta res)" "rr_HashVisible res"
  using assms(1)
proof (cases rule: service_Read_cases)
  case (released m r t u v v' plain')
  from released(6) show thesis
  proof (cases rule: read_release_cases)
    case (released u')
    with \<open>meta_Status m t = StatusActive\<close> \<open>fst (bs_Get (d_Bodies D) i u) = Inr r\<close>
      \<open>fst (ms_Get (d_Metas D) i s) = Inr m\<close> \<open>\<not> (pm_PasswordProtected m \<and> password = [])\<close>
      \<open>es_Open (d_Envelope D) i (pm_ExpiresAt m) r password v = (Inr plain', v')\<close> assms(2)
    show thesis
      by (intro that [of u r v v' u']) (auto simp: meta_Status_simps)
  qed (use assms(2) in auto)
qed (use assms(2) in auto)

lemma read_hash_visible:
  assumes "service_Read D c p i password s = (Inr res, s')" and "rr_HashVisible res"
  shows "\<not> pm_PasswordProtected (rr_Meta res) \<or> rr_Content res \<noteq> None"
  using assms(1)
proof (cases rule: service_Read_cases)
  case (released m r t u v v' plain')
  from released(6) show ?thesis
    by (cases rule: read_release_cases) (use assms(2) in auto)
qed (use assms(2) in auto)

end
