(* ===== verification/ServiceLaws.thy ===== *)
theory ServiceLaws
  imports Service
begin

text \<open>
  What the paste service guarantees when its ports keep their contracts. The locale \<open>paste_ports\<close>
  puts the three ports, the clock and the audit sink side by side and adds that none of them
  disturbs what another one keeps.
\<close>

section \<open>Ports that work side by side\<close>

text \<open>A step that changes neither bodies nor rows and does no harm.\<close>

definition neutral ::
  "('s \<Rightarrow> 'h) \<Rightarrow> ('s \<Rightarrow> 'w) \<Rightarrow> ('s \<Rightarrow> int) \<Rightarrow> ('s \<Rightarrow> bool) \<Rightarrow> ('s \<Rightarrow> bool) \<Rightarrow> ('s \<Rightarrow> nat) \<Rightarrow> 's \<Rightarrow> 's \<Rightarrow> bool" where
  "neutral held row now sound fine ticks s s' \<longleftrightarrow>
     held s' = held s \<and> row s' = row s \<and> (sound s \<longrightarrow> sound s' \<and> now s \<le> now s') \<and> (fine s \<longrightarrow> fine s') \<and>
     ticks s \<le> ticks s'"

locale paste_ports =
  body_store "d_Bodies D" held now sound fine + meta_store "d_Metas D" row stored sound fine +
  envelope_port "d_Envelope D" sound fine
  for D :: "'s Deps" and held now sound fine row stored +
  fixes ticks :: "'s \<Rightarrow> nat" and time :: "nat \<Rightarrow> gtime"
  assumes stored_second: "sound s \<Longrightarrow> unix_sec (stored t) = unix_sec t"
  and clock: "fst (d_Now D s) = time (ticks s)" "ticks (snd (d_Now D s)) = Suc (ticks s)"
  and clock_neutral: "neutral held row now sound fine ticks s (snd (d_Now D s))"
  and uuid_neutral: "neutral held row now sound fine ticks s (snd (d_uuid_New D s))"
  and seal_neutral: "neutral held row now sound fine ticks s (snd (es_Seal (d_Envelope D) i x p pw s))"
  and open_neutral: "neutral held row now sound fine ticks s (snd (es_Open (d_Envelope D) i x r pw s))"
  and audit_neutral: "d_Audit D = Some f \<Longrightarrow> neutral held row now sound fine ticks s (f c e s)"
  and get_neutral: "neutral held row now sound fine ticks s (snd (bs_Get (d_Bodies D) i s))"
  and meta_get_neutral: "neutral held row now sound fine ticks s (snd (ms_Get (d_Metas D) i s))"
  and bodies_rows: "row (snd (bs_Put (d_Bodies D) i r d s)) = row s" "row (snd (bs_Delete (d_Bodies D) i s)) = row s"
    "row (snd (bs_MarkUnavailableOnce (d_Bodies D) i d s)) = row s"
  and metas_held: "held (snd (ms_Create (d_Metas D) m s)) = held s"
    "held (snd (ms_IncrementViews (d_Metas D) i s)) = held s" "held (snd (ms_MarkDeleted (d_Metas D) i u t s)) = held s"
  and metas_now: "sound s \<Longrightarrow> now s \<le> now (snd (ms_Create (d_Metas D) m s))"
    "sound s \<Longrightarrow> now s \<le> now (snd (ms_IncrementViews (d_Metas D) i s))"
    "sound s \<Longrightarrow> now s \<le> now (snd (ms_MarkDeleted (d_Metas D) i u t s))"
  and metas_ticks: "ticks s \<le> ticks (snd (ms_IncrementViews (d_Metas D) i s))"
begin

abbreviation quiet :: "'s \<Rightarrow> 's \<Rightarrow> bool" where
  "quiet \<equiv> neutral held row now sound fine ticks"

lemma quiet_refl: "quiet s s"
  by (simp add: neutral_def)

lemma quiet_trans: "quiet s t \<Longrightarrow> quiet t u \<Longrightarrow> quiet s u"
  by (auto simp: neutral_def)

lemma quietD:
  assumes "quiet s s'"
  shows "held s' = held s" "row s' = row s" "sound s \<Longrightarrow> sound s'" "sound s \<Longrightarrow> now s \<le> now s'"
    "fine s \<Longrightarrow> fine s'" "ticks s \<le> ticks s'"
  using assms by (auto simp: neutral_def)

lemma record_quiet: "quiet s (service_record D c ev a i out ds s)"
proof (cases "d_Audit D")
  case (Some f)
  then show ?thesis
    using quiet_trans [OF clock_neutral audit_neutral [OF Some]]
    by (simp add: service_record_def split_beta)
qed (simp add: service_record_def quiet_refl)

section \<open>Create\<close>

lemma create_store_meta_Inr:
  assumes "create_store_meta D c p m s = (Inr cr, s')"
  obtains s1 where "ms_Create (d_Metas D) m s = (Inr (), s1)" "quiet s1 s'" "cr_Meta cr = m"
proof (cases "ms_Create (d_Metas D) m s")
  case (Pair a s1)
  with assms show thesis
    by (cases a) (auto simp: create_store_meta_def record_quiet intro!: that)
qed

text \<open>What a successful \<open>Create\<close> did, step by step.\<close>

lemma create_steps:
  assumes "service_Create D c p inp s = (Inr cr, s')"
  obtains canonical u i v r v' rem s1 s2 where
    "Canonicalize (ci_Content inp) (li_MaxSize (d_Limits D)) = Inr canonical"
    "quiet s v" "quiet v v'" "quiet s2 s'" "time (ticks u) = pm_CreatedAt (cr_Meta cr)" "quiet s u"
    "es_Seal (d_Envelope D) i (pm_ExpiresAt (cr_Meta cr)) canonical (ci_Password inp) v = (Inr r, v')"
    "bs_Put (d_Bodies D) i r rem (snd (d_Now D v')) = (Inr (), s1)"
    "rem = time_Sub (pm_ExpiresAt (cr_Meta cr)) (time (ticks v'))" "0 < rem"
    "ms_Create (d_Metas D) (cr_Meta cr) s1 = (Inr (), s2)"
    "cr_Meta cr = (create_meta D p (ci_Password inp)
        (if ci_TTLSeconds inp = 0 then li_TTLDefault (d_Limits D) else ci_TTLSeconds inp) canonical (time (ticks u)) i)
        \<lparr>pm_KEKID := if ci_Password inp = [] then eb_KEKID r else []\<rparr>"
    "i = pm_ID (cr_Meta cr)"
proof -
  let ?ttl = "if ci_TTLSeconds inp = 0 then li_TTLDefault (d_Limits D) else ci_TTLSeconds inp"
  from assms obtain canonical where can: "Canonicalize (ci_Content inp) (li_MaxSize (d_Limits D)) = Inr canonical"
    by (auto simp: service_Create_def Let_def bindR_Inr split: if_splits)
  define i where "i = fst (d_uuid_New D (snd (d_Now D s)))"
  define v where "v = snd (d_uuid_New D (snd (d_Now D s)))"
  define m0 where "m0 = create_meta D p (ci_Password inp) ?ttl canonical (time (ticks s)) i"
  have "bindR (es_Seal (d_Envelope D) i (pm_ExpiresAt m0) canonical (ci_Password inp)) (\<lambda>r.
      create_store D c p (if pm_PasswordProtected m0 then m0 else m0\<lparr>pm_KEKID := eb_KEKID r\<rparr>) r) v = (Inr cr, s')"
    using assms
    unfolding service_Create_def Let_def m0_def i_def v_def
    by (auto simp: can bindR_eval clock uuid_New_def split_beta split: if_splits)
  then obtain r v' where seal: "es_Seal (d_Envelope D) i (pm_ExpiresAt m0) canonical (ci_Password inp) v = (Inr r, v')"
    and store: "create_store D c p (if pm_PasswordProtected m0 then m0 else m0\<lparr>pm_KEKID := eb_KEKID r\<rparr>) r v' = (Inr cr, s')"
    by (auto simp: bindR_Inr)
  define m where "m = m0\<lparr>pm_KEKID := if ci_Password inp = [] then eb_KEKID r else []\<rparr>"
  have m: "(if pm_PasswordProtected m0 then m0 else m0\<lparr>pm_KEKID := eb_KEKID r\<rparr>) = m"
    by (simp add: m_def m0_def create_meta_def)
  have x: "pm_ExpiresAt m = pm_ExpiresAt m0" "pm_ID m = i" "pm_CreatedAt m = time (ticks s)"
    by (simp_all add: m_def m0_def create_meta_def)
  from store [unfolded m] obtain s1 s2 where
    put: "bs_Put (d_Bodies D) i r (time_Sub (pm_ExpiresAt m) (time (ticks v'))) (snd (d_Now D v')) = (Inr (), s1)"
      "0 < time_Sub (pm_ExpiresAt m) (time (ticks v'))"
    and create: "ms_Create (d_Metas D) m s1 = (Inr (), s2)" "cr_Meta cr = m" "quiet s2 s'"
    by (auto simp: create_store_def bindR_Inr clock x Let_def split: if_splits elim!: create_store_meta_Inr)
  note q = quiet_trans [OF clock_neutral uuid_neutral, of s, folded v_def]
    seal_neutral [of v i "pm_ExpiresAt m0" canonical "ci_Password inp", unfolded seal snd_conv]
  show thesis
    by (rule that [OF can q(1) q(2) create(3) _ quiet_refl _ put(1) _ _ create(1) [folded create(2)]])
      (simp_all add: create(2) x seal put(2) [unfolded x], simp_all add: m_def m0_def)
qed

text \<open>
  A successful \<open>Create\<close> has stored the row it reports, and holds a record sealed over the canonical
  content for the remaining lifetime.
\<close>

lemma create_stores:
  assumes "sound s" and "service_Create D c p inp s = (Inr cr, s')"
  obtains canonical v r v' u a where
    "Canonicalize (ci_Content inp) (li_MaxSize (d_Limits D)) = Inr canonical"
    "row s (pm_ID (cr_Meta cr)) = None"
    "row s' (pm_ID (cr_Meta cr)) = Some ((cr_Meta cr)\<lparr>pm_CreatedAt := stored (pm_CreatedAt (cr_Meta cr)),
       pm_ExpiresAt := stored (pm_ExpiresAt (cr_Meta cr))\<rparr>)"
    "sound v" "es_Seal (d_Envelope D) (pm_ID (cr_Meta cr)) (pm_ExpiresAt (cr_Meta cr)) canonical (ci_Password inp) v = (Inr r, v')"
    "\<And>t. now s' \<le> t \<Longrightarrow> held s' t (pm_ID (cr_Meta cr)) =
       (if t \<le> now u + max 1 (time_Sub (pm_ExpiresAt (cr_Meta cr)) (time (ticks v')) div Millisecond)
        then Some (Some r) else None)"
    "sound s'" "now s \<le> now s'" "now s \<le> now u" "now u \<le> now s'"
    "pm_PasswordProtected (cr_Meta cr) \<longleftrightarrow> ci_Password inp \<noteq> []" "pm_DeletedAt (cr_Meta cr) = None"
    "cr_Meta cr = (create_meta D p (ci_Password inp)
        (if ci_TTLSeconds inp = 0 then li_TTLDefault (d_Limits D) else ci_TTLSeconds inp) canonical
        (pm_CreatedAt (cr_Meta cr)) (pm_ID (cr_Meta cr)))
        \<lparr>pm_KEKID := if ci_Password inp = [] then eb_KEKID r else []\<rparr>"
    "time (ticks a) = pm_CreatedAt (cr_Meta cr)"
  using assms(2)
proof (cases rule: create_steps)
  case (1 canonical u i v r v' rem s1 s2)
  define w where "w = snd (d_Now D v')"
  have v: "sound v" "sound v'" "now s \<le> now v'"
    using assms(1) quietD(3,4) [OF 1(2)] quietD(3,4) [OF 1(3)] by auto
  have w: "sound w" "now v' \<le> now w"
    using v(2) quietD(3,4) [OF clock_neutral] by (simp_all add: w_def)
  have s1: "sound s1" "now w \<le> now s1" "row s1 = row w"
    using w(1) sound_bodies(1) [of i r rem w] now_bodies(1) [OF w(1), of i r rem] bodies_rows(1) [of i r rem w] 1(8)
    by (simp_all add: w_def)
  have s2: "sound s2" "now s1 \<le> now s2" "held s2 = held s1"
    using sound_metas(1) [OF s1(1), of "cr_Meta cr"] metas_now(1) [OF s1(1), of "cr_Meta cr"]
      metas_held(1) [of "cr_Meta cr" s1] 1(11) by simp_all
  have "row w = row s"
    using quietD(2) [OF 1(2)] quietD(2) [OF 1(3)] quietD(2) [OF clock_neutral] by (simp add: w_def)
  then have row: "row s (pm_ID (cr_Meta cr)) = None"
    using create_ok [OF s1(1) 1(11)] s1(3) by simp
  have none: "pm_DeletedAt (cr_Meta cr) = None" "pm_ExpiredAuditedAt (cr_Meta cr) = None"
    "pm_PasswordProtected (cr_Meta cr) \<longleftrightarrow> ci_Password inp \<noteq> []"
    by (simp_all add: 1(12) create_meta_def)
  have row': "row s' (pm_ID (cr_Meta cr)) = Some ((cr_Meta cr)\<lparr>pm_CreatedAt := stored (pm_CreatedAt (cr_Meta cr)),
       pm_ExpiresAt := stored (pm_ExpiresAt (cr_Meta cr))\<rparr>)"
    using create_ok [OF s1(1) 1(11)] quietD(2) [OF 1(4)] none by simp
  have held: "held s' t i = (if t \<le> now w + max 1 (rem div Millisecond) then Some (Some r) else None)"
    if "now s' \<le> t" for t
    using put_ok [OF w(1) seal_storable [OF v(1) 1(7)] 1(8) [folded w_def], of t] that
      quietD(1,4) [OF 1(4)] s2 s1 by simp
  have meta: "cr_Meta cr = (create_meta D p (ci_Password inp)
        (if ci_TTLSeconds inp = 0 then li_TTLDefault (d_Limits D) else ci_TTLSeconds inp) canonical
        (pm_CreatedAt (cr_Meta cr)) (pm_ID (cr_Meta cr)))
        \<lparr>pm_KEKID := if ci_Password inp = [] then eb_KEKID r else []\<rparr>"
    using 1(12) unfolding 1(5) 1(13) .
  show thesis
  proof (rule that [OF 1(1) row row' v(1) 1(7) [unfolded 1(13)] _ _ _ _ _ none(3) none(1) meta 1(5)])
    show "held s' t (pm_ID (cr_Meta cr)) = (if t \<le> now w + max 1 (time_Sub (pm_ExpiresAt (cr_Meta cr)) (time (ticks v'))
        div Millisecond) then Some (Some r) else None)" if "now s' \<le> t" for t
      using held [OF that] by (simp add: 1(13) [symmetric] 1(9))
  qed (use quietD(3,4) [OF 1(4)] s1 s2 w v in simp_all)
qed

text \<open>
  A \<open>Create\<close> that fails in a fine state leaves no body behind: the store holds what it held, or less.
\<close>

lemma create_store_failed:
  assumes "sound s" and "fine s" and "create_store D c p m r s = (Inl e, s')" and "now s' \<le> t"
  shows "held s' t j = held s t j \<or> held s' t j = None"
proof -
  define w where "w = snd (d_Now D s)"
  have w: "sound w" "fine w" "held w = held s" "now s \<le> now w"
    using quietD [OF clock_neutral, of s] assms(1,2) by (simp_all add: w_def)
  let ?rem = "time_Sub (pm_ExpiresAt m) (fst (d_Now D s))"
  show ?thesis
  proof (cases "0 < ?rem")
    case False
    then have "s' = w" using assms(3) by (auto simp: create_store_def bindR_def Let_def w_def)
    then show ?thesis using w by simp
  next
    case True
    obtain s1 where p: "bs_Put (d_Bodies D) (pm_ID m) r ?rem w = (Inr (), s1)" "fine s1"
      using put_fine [OF w(2) True] by blast
    have s1: "sound s1" "now w \<le> now s1"
      using sound_bodies(1) [of "pm_ID m" r ?rem w] now_bodies(1) [OF w(1), of "pm_ID m" r ?rem] p w(1) by simp_all
    define s2 where "s2 = snd (ms_Create (d_Metas D) m s1)"
    have s2: "sound s2" "fine s2" "held s2 = held s1" "now s1 \<le> now s2"
      using sound_metas(1) [OF s1(1)] create_fine [OF p(2)] metas_held(1) metas_now(1) [OF s1(1)]
      by (simp_all add: s2_def)
    obtain s3 where d: "bs_Delete (d_Bodies D) (pm_ID m) s2 = (Inr (), s3)"
      using delete_fine [OF s2(2)] by blast
    have "s' = s3"
      using assms(3) True p d
      by (auto simp: create_store_def create_store_meta_def bindR_def mapE_def Let_def w_def s2_def
          split: prod.splits sum.splits)
    moreover have "now s2 \<le> now s3"
      using now_bodies(3) [OF s2(1), of "pm_ID m"] d by simp
    ultimately show ?thesis
      using delete_ok [OF s2(1) d, of t] delete_other [OF s2(1), of t j "pm_ID m"] assms(4) d
        put_other [OF w(1), of t j "pm_ID m" r ?rem] p s1 s2 w
      by (cases "j = pm_ID m") auto
  qed
qed

lemma create_failed:
  assumes "sound s" and "fine s" and "service_Create D c p inp s = (Inl e, s')" and "now s' \<le> t"
  shows "held s' t j = held s t j \<or> held s' t j = None"
proof -
  define v where "v = snd (d_uuid_New D (snd (d_Now D s)))"
  have v: "sound v" "fine v" "held v = held s" "now s \<le> now v"
    using quietD [OF quiet_trans [OF clock_neutral uuid_neutral], of s] assms(1,2) by (simp_all add: v_def)
  from assms(3) consider "s' = s" | i x canonical where "es_Seal (d_Envelope D) i x canonical (ci_Password inp) v = (Inl e, s')"
    | i x canonical r s1 m where "es_Seal (d_Envelope D) i x canonical (ci_Password inp) v = (Inr r, s1)"
      "create_store D c p m r s1 = (Inl e, s')"
    by (auto simp: service_Create_def Let_def bindR_Inl v_def split: if_splits)
  then show ?thesis
  proof cases
    case (2 i x canonical)
    then show ?thesis using quietD(1) [OF seal_neutral [of v i x canonical "ci_Password inp"]] v by simp
  next
    case (3 i x canonical r s1 m)
    have "quiet v s1" using seal_neutral [of v i x canonical "ci_Password inp"] 3 by simp
    then have "sound s1" "fine s1" "held s1 = held s"
      using quietD [of v s1] v by simp_all
    then show ?thesis using create_store_failed [OF _ _ 3(2) assms(4), of j] by simp
  qed simp
qed

section \<open>Read\<close>

text \<open>\<open>reached s s' x\<close>: a clock reading between the two states was at or after \<open>x\<close>.\<close>

definition reached :: "'s \<Rightarrow> 's \<Rightarrow> gtime \<Rightarrow> bool" where
  "reached s s' x \<longleftrightarrow> (\<exists>n. ticks s \<le> n \<and> n < ticks s' \<and> x \<le> time n)"

lemma reached_wider: "reached t u x \<Longrightarrow> ticks s \<le> ticks t \<Longrightarrow> reached s u x"
  unfolding reached_def using le_trans by blast

lemma reached_now: "\<not> fst (d_Now D s) < x \<Longrightarrow> reached s (snd (d_Now D s)) x"
  by (auto simp: reached_def clock)

lemma unless_expired_result:
  obtains "\<not> fst (d_Now D s) < pm_ExpiresAt (rr_Meta res)"
      "unless_expired D res k s = (Inr (res\<lparr>rr_Status := StatusExpired\<rparr>), snd (d_Now D s))"
      "reached s (snd (d_Now D s)) (pm_ExpiresAt (rr_Meta res))"
  | "unless_expired D res k s = k (snd (d_Now D s))" "ticks s \<le> ticks (snd (d_Now D s))"
  using reached_now [of s "pm_ExpiresAt (rr_Meta res)"] clock(2) [of s]
  by (cases "fst (d_Now D s) < pm_ExpiresAt (rr_Meta res)") (auto simp: unless_expired_eq)

lemma read_release_result:
  obtains r s' where "read_release D c p res i plain s = (Inr r, s')"
    "r = res\<lparr>rr_Content := Some plain, rr_HashVisible := True\<rparr> \<or>
     r = res\<lparr>rr_Status := StatusExpired\<rparr> \<and> reached s s' (pm_ExpiresAt (rr_Meta res))"
proof -
  let ?x = "pm_ExpiresAt (rr_Meta res)"
  let ?r3 = "res\<lparr>rr_Content := Some plain, rr_HashVisible := True\<rparr>"
  let ?log = "service_record D c (if pm_PasswordProtected (rr_Meta res) then PasteUnlockSuccess else PasteViewed)
    (actorOf p) (Some i) OutcomeSuccess []"
  define k3 where "k3 = (\<lambda>s. unless_expired D res (retR ?r3) (?log s))"
  define k2 where "k2 = (\<lambda>s. unless_expired D res k3 (snd (ms_IncrementViews (d_Metas D) i s)))"
  define good where "good s a \<longleftrightarrow> (\<exists>r s'. a = (Inr r, s') \<and>
     (r = ?r3 \<or> r = res\<lparr>rr_Status := StatusExpired\<rparr> \<and> reached s s' ?x))" for s and a :: "ReadResult res \<times> 's"
  have eq: "read_release D c p res i plain s = unless_expired D res k2 s" for s
    by (simp add: read_release_def k2_def k3_def Let_def)
  have guard: "good s (unless_expired D res k s)" if "\<And>s. good s (k s)" for s k
    by (rule unless_expired_result [of s res k])
      (use that [of "snd (d_Now D s)"] in \<open>auto simp: good_def dest: reached_wider\<close>)
  have later: "good s a" if "good t a" "ticks s \<le> ticks t" for s t a
    using that by (auto simp: good_def dest: reached_wider)
  have "good s (k3 s)" for s
    unfolding k3_def
    by (rule later [OF guard quietD(6) [OF record_quiet]]) (simp add: good_def)
  then have "good s (k2 s)" for s
    unfolding k2_def by (rule later [OF guard metas_ticks])
  then have "good s (read_release D c p res i plain s)"
    unfolding eq by (rule guard)
  then show thesis
    using that by (auto simp: good_def)
qed

text \<open>
  In a fine state, a \<open>Read\<close> with the right password of a paste that is stored, not deleted and still held
  returns what was sealed, unless the clock reached the expiry while it ran.
\<close>

lemma read_sealed:
  assumes "sound s" and "fine s" and "row s i = Some m" and "pm_DeletedAt m = None"
    and "held s (now (snd (d_Now D (snd (ms_Get (d_Metas D) i s))))) i = Some (Some r)"
    and "sound v" and "es_Seal (d_Envelope D) i x plain pw v = (Inr r, v')"
    and "unix_sec (pm_ExpiresAt m) = unix_sec x" and "pm_PasswordProtected m \<longleftrightarrow> pw \<noteq> []"
  obtains res s' where "service_Read D c q i pw s = (Inr res, s')" "rr_Meta res = m"
    "rr_Status res = StatusActive \<and> rr_Content res = Some plain \<or>
     rr_Status res = StatusExpired \<and> rr_Content res = None \<and> reached s s' (pm_ExpiresAt m)"
proof -
  obtain s1 where s1: "ms_Get (d_Metas D) i s = (Inr m, s1)" "fine s1"
    using get_meta_fine [OF assms(1-3)] by blast
  have q1: "quiet s s1" using meta_get_neutral [of s i] s1 by simp
  define s2 where "s2 = snd (d_Now D s1)"
  have q2: "quiet s s2" using quiet_trans [OF q1 clock_neutral] by (simp add: s2_def)
  define res0 where "res0 = \<lparr>rr_Meta = m, rr_Status = StatusActive, rr_Content = None,
         rr_HashVisible = (\<not> pm_PasswordProtected m)\<rparr>"
  define t1 where "t1 = fst (d_Now D s1)"
  obtain s3 where s3: "bs_Get (d_Bodies D) i s2 = (Inr r, s3)" "fine s3"
    using get_fine [of s2 i r] quietD [OF q2] assms(1,2,5) s1(1) by (auto simp: s2_def)
  have q3: "quiet s s3" using quiet_trans [OF q2 get_neutral [of s2 i]] s3 by simp
  define s4 where "s4 = snd (d_Now D s3)"
  have f4: "fine s4" "ticks s \<le> ticks s4"
    using quietD(5,6) [OF quiet_trans [OF q3 clock_neutral]] assms(2) by (simp_all add: s4_def)
  obtain s5 where s5: "es_Open (d_Envelope D) i (pm_ExpiresAt m) r pw s4 = (Inr plain, s5)"
    using open_fine [OF assms(6,7) assms(8) f4(1)] by blast
  have t5: "ticks s \<le> ticks s5"
    using quietD(6) [OF open_neutral [of s4 i "pm_ExpiresAt m" r pw]] s5 f4 by simp
  show thesis
  proof (cases "t1 < pm_ExpiresAt m")
    case False
    then have "service_Read D c q i pw s = (Inr (res0\<lparr>rr_Status := StatusExpired\<rparr>), s2)"
      using assms(4) by (simp add: service_Read_def bindR_def s1 Let_def meta_Status_def t1_def s2_def res0_def)
    moreover have "reached s s2 (pm_ExpiresAt m)"
      using reached_wider [OF reached_now quietD(6) [OF q1]] False by (simp add: t1_def s2_def)
    ultimately show thesis using that by (simp add: res0_def)
  next
    case True
    then have st: "meta_Status m t1 = StatusActive" using assms(4) by (simp add: meta_Status_def)
    have eq: "service_Read D c q i pw s =
      (if \<not> fst (d_Now D s3) < pm_ExpiresAt m then (Inr (res0\<lparr>rr_Status := StatusExpired\<rparr>), s4)
       else read_release D c q res0 i plain s5)"
      using st assms(9) s5
      by (auto simp: service_Read_def bindR_def s1 Let_def t1_def [symmetric] s2_def [symmetric] s3 s4_def [symmetric]
          res0_def read_open_def)
    show thesis
    proof (cases "fst (d_Now D s3) < pm_ExpiresAt m")
      case False
      then have "reached s s4 (pm_ExpiresAt m)"
        using reached_wider [OF reached_now quietD(6) [OF q3]] by (simp add: s4_def)
      with False eq show thesis using that by (simp add: res0_def)
    next
      case True
      obtain rr s' where "read_release D c q res0 i plain s5 = (Inr rr, s')"
        "rr = res0\<lparr>rr_Content := Some plain, rr_HashVisible := True\<rparr> \<or>
         rr = res0\<lparr>rr_Status := StatusExpired\<rparr> \<and> reached s5 s' (pm_ExpiresAt (rr_Meta res0))"
        by (rule read_release_result)
      with True eq that [of rr s'] reached_wider [OF _ t5] show thesis
        by (auto simp: res0_def)
    qed
  qed
qed

section \<open>Delete\<close>

text \<open>
  A successful \<open>Delete\<close> was asked for by the owner or an administrator; it found the paste already
  deleted or expired and left everything as it was, or the body is gone for good and the row marked.
\<close>

lemma delete_result:
  assumes "sound s" and "service_Delete D c p i s = (Inr (), s')"
  obtains (noop) m where "row s i = Some m" "pm_OwnerID m = pr_UserID p \<or> pr_IsAdmin p"
      "pm_DeletedAt m \<noteq> None \<or> reached s s' (pm_ExpiresAt m)" "quiet s s'"
  | (deleted) m t where "row s i = Some m" "pm_OwnerID m = pr_UserID p \<or> pr_IsAdmin p"
      "row s' i = Some (mark_row stored (pr_UserID p) t m)" "\<And>j. j \<noteq> i \<Longrightarrow> row s' j = row s j"
      "\<And>t. now s' \<le> t \<Longrightarrow> held s' t i = None"
      "\<And>t j. now s' \<le> t \<Longrightarrow> j \<noteq> i \<Longrightarrow> held s' t j = held s t j" "sound s'"
proof -
  from assms(2) obtain m s1 where g: "ms_Get (d_Metas D) i s = (Inr m, s1)"
    by (auto simp: service_Delete_def bindR_Inr)
  have m: "row s i = Some m" using meta_get_ok [OF assms(1) g] .
  have q1: "quiet s s1" using meta_get_neutral [of s i] g by simp
  define s2 where "s2 = snd (d_Now D s1)"
  have q2: "quiet s s2" using quiet_trans [OF q1 clock_neutral] by (simp add: s2_def)
  from assms(2) have own: "pm_OwnerID m = pr_UserID p \<or> pr_IsAdmin p"
    by (auto simp: service_Delete_def bindR_def g split: if_splits)
  show thesis
  proof (cases "pm_DeletedAt m \<noteq> None \<or> \<not> fst (d_Now D s1) < pm_ExpiresAt m")
    case True
    with assms(2) own have "s' = s2"
      by (auto simp: service_Delete_def bindR_def g s2_def split: if_splits)
    with True m own q2 reached_wider [OF reached_now quietD(6) [OF q1]] show thesis
      using noop [OF m own] by (auto simp: s2_def)
  next
    case False
    with assms(2) own obtain s3 s4 where d: "bs_Delete (d_Bodies D) i s2 = (Inr (), s3)"
      and k: "ms_MarkDeleted (d_Metas D) i (pr_UserID p) (fst (d_Now D s1)) s3 = (Inr (), s4)"
      and q: "quiet s4 s'"
      by (auto simp: service_Delete_def bindR_Inr g s2_def record_quiet split: if_splits)
    have s2: "sound s2" using quietD(3) [OF q2 assms(1)] .
    have s3: "sound s3" "now s2 \<le> now s3" "row s3 = row s"
      using s2 sound_bodies(3) [of i s2] now_bodies(3) [OF s2, of i] bodies_rows(2) [of i s2] d quietD(2) [OF q2]
      by simp_all
    have s4: "sound s4" "now s3 \<le> now s4" "held s4 = held s3"
      using sound_metas(4) [OF s3(1), of i "pr_UserID p" "fst (d_Now D s1)"]
        metas_now(3) [OF s3(1), of i "pr_UserID p" "fst (d_Now D s1)"]
        metas_held(3) [of i "pr_UserID p" "fst (d_Now D s1)" s3] k by simp_all
    note r = mark_ok [OF s3(1) k] mark_other [OF s3(1), of _ i "pr_UserID p" "fst (d_Now D s1)"]
    show thesis
    proof (rule deleted [OF m own, of "fst (d_Now D s1)"])
      show "row s' i = Some (mark_row stored (pr_UserID p) (fst (d_Now D s1)) m)"
        using r(1) quietD(2) [OF q] s3(3) m by simp
      show "row s' j = row s j" if "j \<noteq> i" for j
        using r(2) [OF that] quietD(2) [OF q] s3(3) k by simp
      show "held s' t i = None" if "now s' \<le> t" for t
        using delete_ok [OF s2 d, of t] quietD(1,4) [OF q] s4 s3 that by simp
      show "held s' t j = held s t j" if "now s' \<le> t" "j \<noteq> i" for t j
        using delete_other [OF s2 _ that(2), of t] quietD(1,4) [OF q] quietD(1) [OF q2] s4 s3 that d by simp
      show "sound s'" using quietD(3) [OF q s4(1)] .
    qed
  qed
qed

text \<open>After a row is marked no \<open>Read\<close> releases anything.\<close>

lemma read_deleted:
  assumes "sound s" and "row s i = Some m" and "pm_DeletedAt m \<noteq> None"
    and "service_Read D c p i pw s = (Inr res, s')"
  shows "rr_Content res = None" "rr_Status res = StatusDeleted"
proof -
  from assms(4) obtain m' s1 where g: "ms_Get (d_Metas D) i s = (Inr m', s1)"
    by (auto simp: service_Read_def bindR_Inr)
  with meta_get_ok [OF assms(1) g] assms(2) have "m' = m" by simp
  with assms(3,4) g show "rr_Content res = None" "rr_Status res = StatusDeleted"
    by (auto simp: service_Read_def bindR_def meta_Status_def)
qed

end

end
