(* ===== verification/Sample.thy ===== *)
theory Sample
  imports World Strconv
begin

text \<open>
  A concrete environment that satisfies the laws of \<open>World\<close>: an in-memory key-value server with
  deadlines, a sealing function that appends a key-dependent tag, a UUID printer and parser.
  It shows that the hypotheses of the theorems can hold together, and it is the input on which
  the witnesses evaluate the model.
\<close>

type_synonym mem = "string \<Rightarrow> (rval \<times> int option) option"

definition mem_redis :: "mem redis_srv" where
  "mem_redis =
     \<lparr>rs_view = (\<lambda>s t k. live_at t (s k)),
      rs_set = (\<lambda>t k v d s. s(k \<mapsto> (v, Some (t + d div Millisecond)))),
      rs_setnx = (\<lambda>t k v d s. if live_at t (s k) = None
                     then (True, s(k \<mapsto> (v, Some (t + d div Millisecond)))) else (False, s)),
      rs_get = (\<lambda>t k s. map_option fst (live_at t (s k))),
      rs_del = (\<lambda>t k s. s(k := None)),
      rs_getdel = (\<lambda>t k s. (map_option fst (live_at t (s k)), s(k := None))),
      rs_exists = (\<lambda>t k s. live_at t (s k) \<noteq> None),
      rs_hset = (\<lambda>t k fs s. s(k \<mapsto> (RHash fs, None))),
      rs_hget = (\<lambda>t k f s. case live_at t (s k) of Some (RHash fs, _) \<Rightarrow> map_of fs f | _ \<Rightarrow> None),
      rs_hgetall = (\<lambda>t k s. case live_at t (s k) of Some (RHash fs, _) \<Rightarrow> fs | _ \<Rightarrow> []),
      rs_pexpireat = (\<lambda>t k d s. (if live_at t (s k) = None then 0 else 1,
                        s(k := expire_entry t d (live_at t (s k))))),
      rs_incr = (\<lambda>t k s. case live_at t (s k) of
                     Some (RNum n, d) \<Rightarrow> (n + 1, s(k \<mapsto> (RNum (n + 1), d)))
                   | _ \<Rightarrow> (1, s(k \<mapsto> (RNum 1, None)))),
      rs_pexpire = (\<lambda>t k ms s. (if live_at t (s k) = None then 0 else 1,
                        s(k := expire_entry t (t + ms) (live_at t (s k))))),
      rs_pttl = (\<lambda>t k s. case live_at t (s k) of
                     None \<Rightarrow> - 2 | Some (_, None) \<Rightarrow> - 1 | Some (_, Some d) \<Rightarrow> d - t)\<rparr>"

lemma live_at_idem [simp]: "live_at t (live_at t x) = live_at t x"
  by (simp add: live_at_le)

lemma live_at_upd: "(\<lambda>k'. live_at t ((s(k := x)) k')) = (\<lambda>k'. live_at t (s k'))(k := live_at t x)"
  by auto

lemma live_at_expire_entry [simp]: "live_at t (expire_entry t d x) = expire_entry t d x"
  by (auto simp: expire_entry_def split: option.splits prod.splits)

lemma mem_redis_laws: "redis_laws mem_redis"
proof -
  have "redis_time_laws mem_redis"
    by (auto simp: redis_time_laws_def mem_redis_def live_at_le)
  moreover have "redis_string_laws mem_redis"
    by (auto simp: redis_string_laws_def mem_redis_def fun_eq_iff Millisecond_def pos_imp_zdiv_nonneg_iff)
  moreover have "redis_hash_laws mem_redis"
    by (auto simp: redis_hash_laws_def mem_redis_def fun_eq_iff)
  moreover have "redis_expire_laws mem_redis"
    by (auto simp: redis_expire_laws_def mem_redis_def fun_eq_iff)
  moreover have "redis_counter_laws mem_redis"
    by (auto simp: redis_counter_laws_def mem_redis_def fun_eq_iff live_at_def split: option.splits if_splits prod.splits)
  ultimately show ?thesis by (simp add: redis_laws_def)
qed

section \<open>Cryptography\<close>

definition sample_tag :: "bytes \<Rightarrow> bytes" where
  "sample_tag key = take 16 (key @ replicate 16 0)"

definition sample_seal :: "bytes \<Rightarrow> bytes \<Rightarrow> bytes \<Rightarrow> bytes \<Rightarrow> bytes" where
  "sample_seal key nonce plain aad = plain @ sample_tag key"

definition sample_open :: "bytes \<Rightarrow> bytes \<Rightarrow> bytes \<Rightarrow> bytes \<Rightarrow> bytes option" where
  "sample_open key nonce c aad =
     (let n = length c - 16
      in if 16 \<le> length c \<and> drop n c = sample_tag key then Some (take n c) else None)"

definition sample_stretch :: "nat \<Rightarrow> bytes \<Rightarrow> bytes" where
  "sample_stretch n b = take n (b @ replicate n 0)"

lemma length_sample_tag [simp]: "length (sample_tag key) = 16"
  by (simp add: sample_tag_def)

lemma length_sample_stretch [simp]: "length (sample_stretch n b) = n"
  by (simp add: sample_stretch_def)

lemma sample_open_iff: "sample_open k n c a = Some p \<longleftrightarrow> c = sample_seal k n p a"
proof
  assume "sample_open k n c a = Some p"
  then have "drop (length c - 16) c = sample_tag k" and "p = take (length c - 16) c"
    by (auto simp: sample_open_def Let_def split: if_splits)
  then show "c = sample_seal k n p a"
    by (metis append_take_drop_id sample_seal_def)
qed (simp add: sample_open_def sample_seal_def)

section \<open>UUIDs in hexadecimal\<close>

fun show_hex :: "nat \<Rightarrow> string" where
  "show_hex n = (if n < 16 then [char_of (97 + n)] else show_hex (n div 16) @ [char_of (97 + n mod 16)])"

declare show_hex.simps [simp del]

definition hex_value :: "string \<Rightarrow> nat" where
  "hex_value s = foldl (\<lambda>a c. a * 16 + (of_char c - 97)) 0 s"

lemma hex_value_show_hex: "n < 16 ^ 32 \<Longrightarrow> hex_value (show_hex n) = n"
proof (induction n rule: show_hex.induct)
  case (1 n)
  then show ?case
    by (subst show_hex.simps) (simp add: hex_value_def)
qed

lemma length_show_hex: "n < 16 ^ Suc k \<Longrightarrow> length (show_hex n) \<le> Suc k"
proof (induction n arbitrary: k rule: show_hex.induct)
  case (1 n)
  show ?case
  proof (cases "n < 16")
    case True
    then show ?thesis by (subst show_hex.simps) simp
  next
    case False
    with 1 obtain j where "k = Suc j" by (cases k) auto
    with 1 False show ?thesis
      by (subst show_hex.simps) (simp add: div_less_iff_less_mult)
  qed
qed

definition sample_String :: "uuid \<Rightarrow> string" where
  "sample_String u = replicate (36 - length (show_hex (unat u))) CHR ''a'' @ show_hex (unat u)"

definition sample_Parse :: "string \<Rightarrow> uuid option" where
  "sample_Parse s = (if length s = 36 then Some (of_nat (hex_value s)) else None)"

lemma unat_uuid: "unat (u :: uuid) < 16 ^ 32"
  using unsigned_less [of u] by simp

lemma length_sample_String [simp]: "length (sample_String u) = 36"
  using length_show_hex [of "unat u" 31] unat_uuid [of u] by (simp add: sample_String_def)

lemma hex_value_padded: "hex_value (replicate n CHR ''a'' @ s) = hex_value s"
proof (induction n)
  case (Suc n)
  then show ?case by (simp add: hex_value_def)
qed simp

lemma sample_Parse_String: "sample_Parse (sample_String u) = Some u"
  using unat_uuid [of u] by (simp add: sample_Parse_def) (simp add: sample_String_def hex_value_padded hex_value_show_hex)

section \<open>The sample environment and world\<close>

text \<open>All calls are served; the clocks show one millisecond per interaction.\<close>

definition sample_env :: "mem env" where
  "sample_env =
     \<lparr>e_redis = mem_redis,
      e_clock = (\<lambda>n. int n * Millisecond),
      e_rclock = int,
      e_dbclock = (\<lambda>n. int n * Millisecond),
      e_fate = (\<lambda>_. Served),
      e_rand = (\<lambda>i n. Some (replicate n (of_nat i))),
      e_select = (\<lambda>_. SelectSlot),
      e_uuid_New = (\<lambda>n. of_nat n),
      e_uuid_String = sample_String,
      e_uuid_Parse = sample_Parse,
      e_pg_time = (\<lambda>t. t - t mod 1000),
      e_sha256 = sample_stretch 32,
      e_gcm_seal = sample_seal,
      e_gcm_open = sample_open,
      e_argon2 = (\<lambda>pw s t m th n. sample_stretch n (pw @ s))\<rparr>"

definition sample_world :: "mem world" where
  "sample_world =
     \<lparr>w_tick = 0, w_redis = (\<lambda>_. None), w_pastes = [], w_users = [], w_audit = [], w_log = [],
      w_gate = NewGate 4 (2 * Second), w_warned = [], w_metrics = NewMetrics\<rparr>"

lemma sample_laws:
  "redis_laws (e_redis sample_env)" "crypto_laws sample_env" "uuid_laws sample_env" "pg_time_laws sample_env"
  by (simp_all add: sample_env_def mem_redis_laws crypto_laws_def sample_open_iff sample_seal_def
        uuid_laws_def sample_Parse_String pg_time_laws_def)

end
