(* ===== verification/Tables.thy ===== *)
theory Tables
  imports World Sample Utf8 Base64
begin

text \<open>
  The constraints of \<^verbatim>\<open>migrations/0001_init.sql\<close> as predicates on the tables, the state invariant
  \<open>world_ok\<close> the components keep, and the facts about calls of the two services they share.
\<close>

section \<open>The schema\<close>

text \<open>What a \<^verbatim>\<open>text\<close> column accepts, and what a \<^verbatim>\<open>jsonb\<close> column accepts of the strings in it.\<close>

definition pg_text :: "string \<Rightarrow> bool" where
  "pg_text s \<longleftrightarrow> ValidString s \<and> CHR 0x00 \<notin> set s"

definition pg_json_details :: "(string \<times> dval) list \<Rightarrow> bool" where
  "pg_json_details ds \<longleftrightarrow>
     list_all (\<lambda>(k, v). CHR 0x00 \<notin> set k \<and> (case v of DStr s \<Rightarrow> CHR 0x00 \<notin> set s | _ \<Rightarrow> True)) ds"

definition int4 :: "int \<Rightarrow> bool" where
  "int4 n \<longleftrightarrow> - (2 ^ 31) \<le> n \<and> n < 2 ^ 31"

text \<open>The \<^verbatim>\<open>CHECK\<close>, the \<^verbatim>\<open>integer\<close> columns and the \<^verbatim>\<open>REFERENCES\<close> clauses of a row of \<^verbatim>\<open>pastes\<close>.\<close>

definition paste_row_ok :: "UserRow list \<Rightarrow> PasteMeta \<Rightarrow> bool" where
  "paste_row_ok us m \<longleftrightarrow>
     1 \<le> pm_TTLSeconds m \<and> pm_TTLSeconds m \<le> 86400 \<and> int4 (pm_SizeBytes m) \<and> int4 (pm_ViewCount m) \<and>
     pm_OwnerID m \<in> ur_ID ` set us \<and>
     (case pm_DeletedBy m of None \<Rightarrow> True | Some u \<Rightarrow> u \<in> ur_ID ` set us)"

definition pastes_ok :: "UserRow list \<Rightarrow> PasteMeta list \<Rightarrow> bool" where
  "pastes_ok us ms \<longleftrightarrow> distinct (map pm_ID ms) \<and> list_all (paste_row_ok us) ms"

text \<open>
  The keys of \<^verbatim>\<open>users\<close>. The pair of OIDC columns is null for a local account, and a unique
  constraint ignores rows with a null.
\<close>

definition oidc_key :: "UserRow \<Rightarrow> (string \<times> string) option" where
  "oidc_key u =
     (case (ur_OIDCIssuer u, ur_OIDCSubject u) of (Some i, Some s) \<Rightarrow> Some (i, s) | _ \<Rightarrow> None)"

definition users_ok :: "UserRow list \<Rightarrow> bool" where
  "users_ok us \<longleftrightarrow>
     distinct (map ur_ID us) \<and> distinct (map ur_Username us) \<and>
     distinct (filter (\<lambda>k. k \<noteq> None) (map oidc_key us))"

text \<open>Plain ASCII text and hexadecimal digests are always storable.\<close>

lemma pg_text_ascii: "list_all (\<lambda>c. 0 < (of_char c :: nat) \<and> (of_char c :: nat) < 128) s \<Longrightarrow> pg_text s"
  by (auto simp: pg_text_def list_all_iff intro!: ValidString_ascii_chars)

lemma hex_digit_ascii:
  assumes "n < 16"
  shows "0 < (of_char (hex_digit n) :: nat) \<and> (of_char (hex_digit n) :: nat) < 128"
proof -
  have "list_all (\<lambda>n. 0 < (of_char (hex_digit n) :: nat) \<and> (of_char (hex_digit n) :: nat) < 128) [0..<16]"
    by code_simp
  with assms show ?thesis by (simp add: list_all_iff)
qed

lemma pg_text_hex: "pg_text (hex_EncodeToString b)"
proof (rule pg_text_ascii)
  have "unat x div 16 < 16" "unat x mod 16 < 16" for x :: byte
  proof -
    have "unat x < 256" using unsigned_less [of x] by simp
    then show "unat x div 16 < 16" "unat x mod 16 < 16" by (simp_all add: div_less_iff_less_mult)
  qed
  then show "list_all (\<lambda>c. 0 < (of_char c :: nat) \<and> (of_char c :: nat) < 128) (hex_EncodeToString b)"
    using hex_digit_ascii by (auto simp: hex_EncodeToString_def list_all_iff)
qed

section \<open>The state invariant\<close>

definition env_laws :: "'r env \<Rightarrow> bool" where
  "env_laws E \<longleftrightarrow>
     redis_laws (e_redis E) \<and> crypto_laws E \<and> uuid_laws E \<and> pg_time_laws E \<and> mono (e_rclock E)"

definition world_ok :: "'r env \<Rightarrow> 'r world \<Rightarrow> bool" where
  "world_ok E w \<longleftrightarrow> env_laws E \<and> users_ok (w_users w) \<and> pastes_ok (w_users w) (w_pastes w)"

text \<open>From here on every call is served, randomness is available, and a derivation finds a slot.\<close>

definition healthy :: "'r env \<Rightarrow> 'r world \<Rightarrow> bool" where
  "healthy E w \<longleftrightarrow>
     (\<forall>n \<ge> w_tick w. e_fate E n = Served \<and> e_select E n = SelectSlot \<and> (\<forall>k. e_rand E n k \<noteq> None)) \<and>
     g_used (w_gate w) < g_cap (w_gate w)"

definition rnow :: "'r env \<Rightarrow> 'r world \<Rightarrow> int" where
  "rnow E w = e_rclock E (w_tick w)"

lemma env_lawsD:
  assumes "env_laws E"
  shows "redis_laws (e_redis E)" "crypto_laws E" "uuid_laws E" "pg_time_laws E"
    "a \<le> b \<Longrightarrow> e_rclock E a \<le> e_rclock E b"
  using assms by (auto simp: env_laws_def dest: monoD)

lemma world_okD:
  "world_ok E w \<Longrightarrow> env_laws E" "world_ok E w \<Longrightarrow> users_ok (w_users w)"
  "world_ok E w \<Longrightarrow> pastes_ok (w_users w) (w_pastes w)"
  by (simp_all add: world_ok_def)

lemma world_ok_cong:
  "w_users w' = w_users w \<Longrightarrow> w_pastes w' = w_pastes w \<Longrightarrow> world_ok E w' = world_ok E w"
  by (simp add: world_ok_def)

lemma healthy_later:
  "healthy E w \<Longrightarrow> w_tick w \<le> w_tick w' \<Longrightarrow> w_gate w' = w_gate w \<Longrightarrow> healthy E w'"
  by (auto simp: healthy_def)

lemma healthy_now:
  assumes "healthy E w"
  shows "e_fate E (w_tick w) = Served" "e_select E (w_tick w) = SelectSlot" "e_rand E (w_tick w) k \<noteq> None"
  using assms by (auto simp: healthy_def)

section \<open>Calls\<close>

lemma redis_call_Inr:
  "redis_call E cmd w = (Inr a, w') \<longleftrightarrow>
     e_fate E (w_tick w) = Served \<and>
     (\<exists>r. cmd (rnow E w) (w_redis w) = (a, r) \<and> w' = (tick w)\<lparr>w_redis := r\<rparr>)"
  by (auto simp: redis_call_def rnow_def split: prod.splits fate.splits)

text \<open>Whatever its fate, a call advances the tick and applies its command or nothing.\<close>

lemma redis_call_snd:
  obtains "snd (redis_call E cmd w) = tick w"
  | "snd (redis_call E cmd w) = (tick w)\<lparr>w_redis := snd (cmd (rnow E w) (w_redis w))\<rparr>"
  by (cases "e_fate E (w_tick w)") (simp_all add: redis_call_def rnow_def split_beta)

lemma redis_call_keeps [simp]:
  "w_pastes (snd (redis_call E cmd w)) = w_pastes w" "w_users (snd (redis_call E cmd w)) = w_users w"
  "w_audit (snd (redis_call E cmd w)) = w_audit w" "w_gate (snd (redis_call E cmd w)) = w_gate w"
  "w_tick (snd (redis_call E cmd w)) = Suc (w_tick w)" "w_log (snd (redis_call E cmd w)) = w_log w"
  by (rule redis_call_snd [of E cmd w]; simp)+

lemma redis_call_world_ok [simp]: "world_ok E (snd (redis_call E cmd w)) = world_ok E w"
  by (intro world_ok_cong) simp_all

lemma redis_call_Inl: "redis_call E cmd w = (Inl e, w') \<Longrightarrow> e = EService ''redis''"
  by (auto simp: redis_call_def split: prod.splits fate.splits)

lemma redis_call_healthy:
  assumes "healthy E w"
  shows "redis_call E cmd w =
    (let (a, r) = cmd (rnow E w) (w_redis w) in (Inr a, (tick w)\<lparr>w_redis := r\<rparr>))"
    and "healthy E (snd (redis_call E cmd w))"
  using healthy_now(1) [OF assms] healthy_later [OF assms]
  by (simp_all add: redis_call_def rnow_def Let_def split: prod.splits)

lemma db_call_Inr:
  "db_call E stmt w = (Inr a, w') \<longleftrightarrow> e_fate E (w_tick w) = Served \<and> stmt (tick w) = (Inr a, w')"
  by (auto simp: db_call_def split: prod.splits fate.splits)

lemma db_call_snd:
  obtains "snd (db_call E stmt w) = tick w"
  | "snd (db_call E stmt w) = snd (stmt (tick w))"
  by (cases "e_fate E (w_tick w)") (simp_all add: db_call_def split_beta)

lemma db_call_keeps:
  assumes "\<And>w. f (snd (stmt w)) = f w" and "f (tick w) = f w"
  shows "f (snd (db_call E stmt w)) = f w"
  using assms by (metis db_call_snd)

lemma db_call_healthy: "healthy E w \<Longrightarrow> db_call E stmt w = stmt (tick w)"
  using healthy_now(1) [of E w] by (auto simp: db_call_def split: prod.splits)

lemma world_ok_tick [simp]: "world_ok E (tick w) = world_ok E w"
  by (intro world_ok_cong) simp_all

lemma healthy_tick: "healthy E w \<Longrightarrow> healthy E (tick w)"
  by (erule healthy_later) simp_all

lemma rnow_mono: "env_laws E \<Longrightarrow> w_tick w \<le> w_tick w' \<Longrightarrow> rnow E w \<le> rnow E w'"
  unfolding rnow_def by (rule env_lawsD(5))

section \<open>Invariants on the content of Redis\<close>

text \<open>
  A property of the entry of every key, which holds of an absent entry. It holds on as keys expire, and a
  call keeps it when its command does, whatever becomes of the call.
\<close>

definition entries_ok :: "'r env \<Rightarrow> (string \<Rightarrow> (rval \<times> int option) option \<Rightarrow> bool) \<Rightarrow> 'r world \<Rightarrow> bool" where
  "entries_ok E Q w \<longleftrightarrow> (\<forall>k. Q k (rs_view (e_redis E) (w_redis w) (rnow E w) k))"

lemma live_at_cases: "live_at t x = x \<or> live_at t x = None"
  by (auto simp: live_at_def split: option.splits)

lemma entries_ok_later:
  assumes "env_laws E" and "\<And>k. Q k None" and "w_redis w' = w_redis w" and "w_tick w \<le> w_tick w'"
    and "entries_ok E Q w"
  shows "entries_ok E Q w'"
  unfolding entries_ok_def
proof
  fix k
  have "rs_view (e_redis E) (w_redis w') (rnow E w') k =
    live_at (rnow E w') (rs_view (e_redis E) (w_redis w) (rnow E w) k)"
    using redis_view_later [OF env_lawsD(1) [OF assms(1)] rnow_mono [OF assms(1,4)]] assms(3) by simp
  then show "Q k (rs_view (e_redis E) (w_redis w') (rnow E w') k)"
    using assms(2,5) live_at_cases unfolding entries_ok_def by metis
qed

lemma redis_call_entries_ok:
  assumes "env_laws E" and "\<And>k. Q k None" and "entries_ok E Q w"
    and "\<And>t s. (\<And>k. Q k (rs_view (e_redis E) s t k)) \<Longrightarrow> (\<And>k. Q k (rs_view (e_redis E) (snd (cmd t s)) t k))"
  shows "entries_ok E Q (snd (redis_call E cmd w))"
proof (cases rule: redis_call_snd [of E cmd w])
  case 1
  then show ?thesis using entries_ok_later [where Q = Q and w = w and w' = "tick w" and E = E] assms(1-3) by simp
next
  case 2
  let ?w = "w\<lparr>w_redis := snd (cmd (rnow E w) (w_redis w))\<rparr>"
  have "entries_ok E Q ?w"
    using assms(3,4) by (simp add: entries_ok_def rnow_def)
  then show ?thesis
    using entries_ok_later [where Q = Q and w = ?w and w' = "snd (redis_call E cmd w)" and E = E] assms(1,2) 2 by simp
qed

section \<open>The sample world\<close>

definition sample_user :: UserRow where
  "sample_user =
     \<lparr>ur_ID = 7, ur_Username = ''ada'', ur_DisplayName = Some ''Ada'', ur_Provider = ProviderLocal,
      ur_OIDCIssuer = None, ur_OIDCSubject = None, ur_PasswordHash = None, ur_IsAdmin = False,
      ur_Disabled = False, ur_CreatedAt = 0, ur_LastLoginAt = None\<rparr>"

definition sample_world1 :: "mem world" where
  "sample_world1 = sample_world\<lparr>w_users := [sample_user]\<rparr>"

lemma sample_env_laws: "env_laws sample_env"
proof -
  have "mono (e_rclock sample_env)"
    by (auto simp: sample_env_def intro: monoI)
  with sample_laws show ?thesis by (simp add: env_laws_def)
qed

lemma sample_world1_ok: "world_ok sample_env sample_world1" "healthy sample_env sample_world1"
  using sample_env_laws
  by (simp_all add: world_ok_def sample_world1_def sample_world_def users_ok_def pastes_ok_def
        oidc_key_def sample_user_def healthy_def sample_env_def NewGate_def)

end
