(* ===== verification/BodyStore.thy ===== *)
theory BodyStore
  imports Ports Tables
begin

text \<open>
  \<^verbatim>\<open>internal/store/redis/body.go\<close>: encrypted bodies in Redis with native expiry, and that it meets
  the contract \<open>body_store\<close>.
\<close>

section \<open>The operations\<close>

definition bodyKey :: "'r env \<Rightarrow> uuid \<Rightarrow> string" where
  "bodyKey E i = ''paste:'' @ e_uuid_String E i"

definition unavailableKey :: "'r env \<Rightarrow> uuid \<Rightarrow> string" where
  "unavailableKey E i = ''unavailable:'' @ e_uuid_String E i"

definition expiringTTL :: "duration \<Rightarrow> duration res" where
  "expiringTTL ttl =
     (if ttl \<le> 0 then Inl (EText ''redis: ttl must be positive'')
      else if ttl < Millisecond then Inr Millisecond
      else Inr ttl)"

definition BodyStore_Put :: "'r env \<Rightarrow> uuid \<Rightarrow> EncryptedBody \<Rightarrow> duration \<Rightarrow> ('r world, unit) op" where
  "BodyStore_Put E i r ttl =
     bindR (liftR (expiringTTL ttl)) (\<lambda>expiration.
     mapE (EWrap ''redis: put body'')
       (redis_call E (\<lambda>t s. ((), rs_set (e_redis E) t (bodyKey E i) (RJson (marshal_body r)) expiration s))))"

text \<open>A key of another type and a text that is not the JSON of an object are decode failures.\<close>

definition decode_body :: "rval \<Rightarrow> EncryptedBody res" where
  "decode_body v =
     (case v of
        RJson j \<Rightarrow>
          (case unmarshal_body j of
             None \<Rightarrow> Inl (EWrap ''redis: decode body'' (EText ''json''))
           | Some r \<Rightarrow> Inr r)
      | RHash _ \<Rightarrow> Inl (EWrap ''redis: get body'' (EService ''WRONGTYPE''))
      | _ \<Rightarrow> Inl (EWrap ''redis: decode body'' (EText ''json'')))"

definition BodyStore_Get :: "'r env \<Rightarrow> uuid \<Rightarrow> ('r world, EncryptedBody) op" where
  "BodyStore_Get E i =
     bindR (mapE (EWrap ''redis: get body'')
       (redis_call E (\<lambda>t s. (rs_get (e_redis E) t (bodyKey E i) s, s)))) (\<lambda>reply.
     case reply of None \<Rightarrow> failR ErrNotFound | Some v \<Rightarrow> liftR (decode_body v))"

definition BodyStore_Delete :: "'r env \<Rightarrow> uuid \<Rightarrow> ('r world, unit) op" where
  "BodyStore_Delete E i =
     mapE (EWrap ''redis: delete body'')
       (redis_call E (\<lambda>t s. ((), rs_del (e_redis E) t (bodyKey E i) s)))"

definition BodyStore_MarkUnavailableOnce :: "'r env \<Rightarrow> uuid \<Rightarrow> duration \<Rightarrow> ('r world, bool) op" where
  "BodyStore_MarkUnavailableOnce E i ttl =
     bindR (liftR (expiringTTL ttl)) (\<lambda>expiration.
     mapE (EWrap ''redis: mark unavailable'')
       (redis_call E (\<lambda>t s. rs_setnx (e_redis E) t (unavailableKey E i) (RText ''1'') expiration s)))"

definition BodyStore_Ping :: "'r env \<Rightarrow> ('r world, unit) op" where
  "BodyStore_Ping E = redis_call E (\<lambda>t s. ((), s))"

definition NewBodyStore :: "'r env \<Rightarrow> 'r world BodyStore" where
  "NewBodyStore E =
     \<lparr>bs_Put = BodyStore_Put E, bs_Get = BodyStore_Get E, bs_Delete = BodyStore_Delete E,
      bs_MarkUnavailableOnce = BodyStore_MarkUnavailableOnce E, bs_Ping = BodyStore_Ping E\<rparr>"

section \<open>What the store holds\<close>

definition body_held :: "'r env \<Rightarrow> 'r world \<Rightarrow> int \<Rightarrow> uuid \<Rightarrow> EncryptedBody option option" where
  "body_held E w t i =
     map_option (\<lambda>(v, d). case decode_body v of Inl _ \<Rightarrow> None | Inr r \<Rightarrow> Some r)
       (rs_view (e_redis E) (w_redis w) t (bodyKey E i))"

lemma bodyKey_inj: "uuid_laws E \<Longrightarrow> bodyKey E i = bodyKey E j \<longleftrightarrow> i = j"
  by (simp add: bodyKey_def uuid_String_inj)

lemma keys_differ [simp]:
  "bodyKey E i \<noteq> unavailableKey E j" "unavailableKey E j \<noteq> bodyKey E i"
  by (simp_all add: bodyKey_def unavailableKey_def)

lemma expiringTTL_Inr:
  "expiringTTL d = Inr x \<longleftrightarrow> 0 < d \<and> x = max Millisecond d"
  by (auto simp: expiringTTL_def Millisecond_def)

lemma max_ms: "0 < d \<Longrightarrow> max Millisecond d div Millisecond = max 1 (d div Millisecond)"
  by (cases "d < Millisecond") (auto simp: Millisecond_def max_def)

text \<open>A command that rewrites the entry of one key leaves what the other keys hold later on.\<close>

lemma view_after:
  assumes "redis_laws R" and "rs_view R s' t0 = (rs_view R s t0)(k := x)" and "t0 \<le> t"
  shows "rs_view R s' t k' = (if k' = k then live_at t x else rs_view R s t k')"
  using redis_view_later [OF assms(1,3)] assms(2) by simp

lemma Put_nonpos: "d \<le> 0 \<Longrightarrow> \<exists>e. BodyStore_Put E i r d w = (Inl e, w)"
  by (simp add: BodyStore_Put_def expiringTTL_def bindR_def)

text \<open>The state after \<open>Put\<close>, whatever its fate.\<close>

lemma Put_snd:
  obtains "snd (BodyStore_Put E i r d w) = w" "d \<le> 0"
  | "snd (BodyStore_Put E i r d w) = tick w"
  | "0 < d" "snd (BodyStore_Put E i r d w) = (tick w)\<lparr>w_redis :=
      rs_set (e_redis E) (rnow E w) (bodyKey E i) (RJson (marshal_body r)) (max Millisecond d) (w_redis w)\<rparr>"
proof (cases "0 < d")
  case True
  then have x: "expiringTTL d = Inr (max Millisecond d)" by (simp add: expiringTTL_Inr)
  show thesis
    by (rule redis_call_snd [of E "\<lambda>t s. ((), rs_set (e_redis E) t (bodyKey E i) (RJson (marshal_body r)) (max Millisecond d) s)" w])
      (use that True in \<open>simp_all add: BodyStore_Put_def bindR_def x\<close>)
next
  case False
  then show thesis using that(1) Put_nonpos [of d E i r w] by auto
qed

lemma Put_Inr:
  "BodyStore_Put E i r d w = (Inr (), w') \<Longrightarrow>
   0 < d \<and> w' = (tick w)\<lparr>w_redis :=
      rs_set (e_redis E) (rnow E w) (bodyKey E i) (RJson (marshal_body r)) (max Millisecond d) (w_redis w)\<rparr>"
  by (auto simp: BodyStore_Put_def bindR_Inr expiringTTL_Inr redis_call_Inr)

lemma body_held_set:
  assumes "env_laws E" and "0 < d" and "rnow E w \<le> t"
  shows "body_held E ((tick w)\<lparr>w_redis :=
      rs_set (e_redis E) (rnow E w) (bodyKey E i) (RJson (marshal_body r)) (max Millisecond d) (w_redis w)\<rparr>) t j =
    (if j = i then if t \<le> rnow E w + max 1 (d div Millisecond) then Some (unmarshal_body (marshal_body r)) else None
     else body_held E w t j)"
proof -
  note R = env_lawsD(1) [OF assms(1)]
  show ?thesis
    using view_after [OF R redis_string_lawsD(2) [OF R] assms(3)]
    by (simp add: body_held_def bodyKey_inj [OF env_lawsD(3) [OF assms(1)]] max_ms [OF assms(2)]
          decode_body_def split: option.splits)
qed

lemma body_held_tick [simp]: "body_held E (tick w) = body_held E w"
  by (simp add: body_held_def fun_eq_iff)

lemma Delete_snd:
  obtains "snd (BodyStore_Delete E i w) = tick w"
  | "snd (BodyStore_Delete E i w) = (tick w)\<lparr>w_redis := rs_del (e_redis E) (rnow E w) (bodyKey E i) (w_redis w)\<rparr>"
  by (rule redis_call_snd [of E "\<lambda>t s. ((), rs_del (e_redis E) t (bodyKey E i) s)" w])
    (use that in \<open>simp_all add: BodyStore_Delete_def\<close>)

lemma Delete_Inr:
  "BodyStore_Delete E i w = (Inr (), w') \<Longrightarrow>
   w' = (tick w)\<lparr>w_redis := rs_del (e_redis E) (rnow E w) (bodyKey E i) (w_redis w)\<rparr>"
  by (auto simp: BodyStore_Delete_def redis_call_Inr)

lemma body_held_del:
  assumes "env_laws E" and "rnow E w \<le> t"
  shows "body_held E ((tick w)\<lparr>w_redis := rs_del (e_redis E) (rnow E w) (bodyKey E i) (w_redis w)\<rparr>) t j =
    (if j = i then None else body_held E w t j)"
proof -
  note R = env_lawsD(1) [OF assms(1)]
  show ?thesis
    using view_after [OF R redis_string_lawsD(5) [OF R] assms(2)]
    by (simp add: body_held_def bodyKey_inj [OF env_lawsD(3) [OF assms(1)]])
qed

text \<open>What an operation on the body store leaves alone.\<close>

lemma body_ops_tick:
  "w_tick w \<le> w_tick (snd (BodyStore_Put E i r d w))" "w_tick (snd (BodyStore_Get E i w)) = Suc (w_tick w)"
  "w_tick (snd (BodyStore_Delete E i w)) = Suc (w_tick w)" "w_tick w \<le> w_tick (snd (BodyStore_MarkUnavailableOnce E i d w))"
proof -
  show "w_tick (snd (BodyStore_Get E i w)) = Suc (w_tick w)"
    by (auto simp: BodyStore_Get_def bindR_def mapE_def redis_call_def Let_def split: fate.splits option.splits)
  show "w_tick w \<le> w_tick (snd (BodyStore_Put E i r d w))"
    by (rule Put_snd [of E i r d w]) simp_all
  show "w_tick (snd (BodyStore_Delete E i w)) = Suc (w_tick w)"
    by (simp add: BodyStore_Delete_def)
  show "w_tick w \<le> w_tick (snd (BodyStore_MarkUnavailableOnce E i d w))"
    by (cases "expiringTTL d") (simp_all add: BodyStore_MarkUnavailableOnce_def bindR_def)
qed

lemma Put_keeps [simp]:
  "w_pastes (snd (BodyStore_Put E i r d w)) = w_pastes w" "w_users (snd (BodyStore_Put E i r d w)) = w_users w"
  "w_audit (snd (BodyStore_Put E i r d w)) = w_audit w" "w_gate (snd (BodyStore_Put E i r d w)) = w_gate w"
  by (rule Put_snd [of E i r d w]; simp)+

lemma Get_keeps [simp]:
  "w_pastes (snd (BodyStore_Get E i w)) = w_pastes w" "w_users (snd (BodyStore_Get E i w)) = w_users w"
  "w_audit (snd (BodyStore_Get E i w)) = w_audit w" "w_gate (snd (BodyStore_Get E i w)) = w_gate w"
  "w_redis (snd (BodyStore_Get E i w)) = w_redis w"
  by (auto simp: BodyStore_Get_def bindR_def mapE_def redis_call_def Let_def split: fate.splits option.splits)

lemma Delete_keeps [simp]:
  "w_pastes (snd (BodyStore_Delete E i w)) = w_pastes w" "w_users (snd (BodyStore_Delete E i w)) = w_users w"
  "w_audit (snd (BodyStore_Delete E i w)) = w_audit w" "w_gate (snd (BodyStore_Delete E i w)) = w_gate w"
  by (simp_all add: BodyStore_Delete_def)

lemma MarkUnavailableOnce_keeps [simp]:
  "w_pastes (snd (BodyStore_MarkUnavailableOnce E i d w)) = w_pastes w"
  "w_users (snd (BodyStore_MarkUnavailableOnce E i d w)) = w_users w"
  "w_audit (snd (BodyStore_MarkUnavailableOnce E i d w)) = w_audit w"
  "w_gate (snd (BodyStore_MarkUnavailableOnce E i d w)) = w_gate w"
  by (cases "expiringTTL d"; simp add: BodyStore_MarkUnavailableOnce_def bindR_def)+

lemma body_held_mark:
  assumes "env_laws E" and "rnow E w \<le> t"
  shows "body_held E (snd (BodyStore_MarkUnavailableOnce E i d w)) t j = body_held E w t j"
proof (cases "expiringTTL d")
  case (Inr x)
  then have x: "Millisecond \<le> x" by (auto simp: expiringTTL_Inr)
  note R = env_lawsD(1) [OF assms(1)]
  have "rs_view (e_redis E) (snd (rs_setnx (e_redis E) (rnow E w) (unavailableKey E i) (RText ''1'') x (w_redis w))) t (bodyKey E j)
      = rs_view (e_redis E) (w_redis w) t (bodyKey E j)"
    using redis_view_later [OF R assms(2)] redis_string_lawsD(4) [OF R x] by simp
  then show ?thesis
    by (rule_tac redis_call_snd [of E "\<lambda>t s. rs_setnx (e_redis E) t (unavailableKey E i) (RText ''1'') x s" w])
      (simp_all add: BodyStore_MarkUnavailableOnce_def Inr bindR_def body_held_def)
qed (simp add: BodyStore_MarkUnavailableOnce_def bindR_def)

section \<open>The contract\<close>

lemma Get_Inr:
  assumes "env_laws E"
  shows "BodyStore_Get E i w = (Inr r, w') \<longleftrightarrow>
    e_fate E (w_tick w) = Served \<and> body_held E w (rnow E w) i = Some (Some r) \<and> w' = tick w"
proof -
  note get = redis_string_lawsD(1) [OF env_lawsD(1) [OF assms]]
  show ?thesis
    by (cases "rs_view (e_redis E) (w_redis w) (rnow E w) (bodyKey E i)")
      (auto simp: BodyStore_Get_def bindR_Inr redis_call_Inr get body_held_def tick_def split: option.splits sum.splits)
qed

lemma Get_Inl:
  assumes "env_laws E" and "BodyStore_Get E i w = (Inl e, w')" and "errors_Is e ErrNotFound"
  shows "body_held E w (rnow E w) i = None"
proof -
  note get = redis_string_lawsD(1) [OF env_lawsD(1) [OF assms(1)]]
  show ?thesis
    using assms(2,3)
    by (cases "rs_view (e_redis E) (w_redis w) (rnow E w) (bodyKey E i)")
      (auto simp: BodyStore_Get_def bindR_def mapE_def redis_call_def get body_held_def decode_body_def
        rnow_def Let_def split: fate.splits rval.splits option.splits)
qed

lemma Put_held:
  assumes "world_ok E w" and "rnow E w \<le> t"
  shows "storable r \<Longrightarrow> BodyStore_Put E i r d w = (Inr (), w') \<Longrightarrow>
      body_held E w' t i = (if t \<le> rnow E w + max 1 (d div Millisecond) then Some (Some r) else None)"
    and "j \<noteq> i \<Longrightarrow> body_held E (snd (BodyStore_Put E i r d w)) t j = body_held E w t j"
    and "rnow E w + max 1 (d div Millisecond) < t \<Longrightarrow>
      body_held E (snd (BodyStore_Put E i r d w)) t i = None \<or> body_held E (snd (BodyStore_Put E i r d w)) t i = body_held E w t i"
proof -
  note L = world_okD(1) [OF assms(1)]
  show "storable r \<Longrightarrow> BodyStore_Put E i r d w = (Inr (), w') \<Longrightarrow>
      body_held E w' t i = (if t \<le> rnow E w + max 1 (d div Millisecond) then Some (Some r) else None)"
    by (drule Put_Inr) (simp add: body_held_set [OF L _ assms(2)] unmarshal_marshal)
  show "j \<noteq> i \<Longrightarrow> body_held E (snd (BodyStore_Put E i r d w)) t j = body_held E w t j"
    by (rule Put_snd [of E i r d w]) (simp_all add: body_held_set [OF L _ assms(2)])
  show "rnow E w + max 1 (d div Millisecond) < t \<Longrightarrow>
      body_held E (snd (BodyStore_Put E i r d w)) t i = None \<or> body_held E (snd (BodyStore_Put E i r d w)) t i = body_held E w t i"
    by (rule Put_snd [of E i r d w]) (simp_all add: body_held_set [OF L _ assms(2)])
qed

lemma Delete_held:
  assumes "world_ok E w" and "rnow E w \<le> t"
  shows "BodyStore_Delete E i w = (Inr (), w') \<Longrightarrow> body_held E w' t i = None"
    and "j \<noteq> i \<Longrightarrow> body_held E (snd (BodyStore_Delete E i w)) t j = body_held E w t j"
    and "body_held E (snd (BodyStore_Delete E i w)) t i = None \<or> body_held E (snd (BodyStore_Delete E i w)) t i = body_held E w t i"
proof -
  note del = body_held_del [OF world_okD(1) [OF assms(1)] assms(2)]
  show "BodyStore_Delete E i w = (Inr (), w') \<Longrightarrow> body_held E w' t i = None"
    by (drule Delete_Inr) (simp add: del)
  show "j \<noteq> i \<Longrightarrow> body_held E (snd (BodyStore_Delete E i w)) t j = body_held E w t j"
    by (rule Delete_snd [of E i w]) (simp_all add: del)
  show "body_held E (snd (BodyStore_Delete E i w)) t i = None \<or> body_held E (snd (BodyStore_Delete E i w)) t i = body_held E w t i"
    by (rule Delete_snd [of E i w]) (simp_all add: del)
qed

lemma body_ops_sound:
  "world_ok E (snd (BodyStore_Put E i r d w)) = world_ok E w" "world_ok E (snd (BodyStore_Get E i w)) = world_ok E w"
  "world_ok E (snd (BodyStore_Delete E i w)) = world_ok E w"
  "world_ok E (snd (BodyStore_MarkUnavailableOnce E i d w)) = world_ok E w"
  by (intro world_ok_cong; simp)+

lemma body_ops_healthy:
  assumes "healthy E w"
  shows "healthy E (snd (BodyStore_Put E i r d w))" "healthy E (snd (BodyStore_Get E i w))" "healthy E (snd (BodyStore_Delete E i w))"
    "healthy E (snd (BodyStore_MarkUnavailableOnce E i d w))"
    "0 < d \<Longrightarrow> fst (BodyStore_Put E i r d w) = Inr ()" "fst (BodyStore_Delete E i w) = Inr ()"
  using healthy_later [OF assms] body_ops_tick(1,4) [of w] healthy_now(1) [OF assms]
  by (simp_all add: body_ops_tick) (simp_all add: BodyStore_Put_def BodyStore_Delete_def bindR_def mapE_def redis_call_def expiringTTL_def)

lemma body_ops_now:
  assumes "world_ok E w"
  shows "rnow E w \<le> rnow E (snd (BodyStore_Put E i r d w))" "rnow E w \<le> rnow E (snd (BodyStore_Get E i w))"
    "rnow E w \<le> rnow E (snd (BodyStore_Delete E i w))" "rnow E w \<le> rnow E (snd (BodyStore_MarkUnavailableOnce E i d w))"
  by (rule rnow_mono [OF world_okD(1) [OF assms]], simp add: body_ops_tick)+

lemma body_held_Get: "body_held E (snd (BodyStore_Get E i w)) = body_held E w"
  by (simp add: body_held_def fun_eq_iff)

lemma prod_exI: "fst p = a \<Longrightarrow> P (snd p) \<Longrightarrow> \<exists>s. p = (a, s) \<and> P s"
  by (cases p) simp

interpretation redis_bodies: body_store "NewBodyStore E" "body_held E" "rnow E" "world_ok E" "healthy E" for E
proof (unfold_locales, unfold NewBodyStore_def BodyStore.simps)
  fix w :: "'a world" and i j r d t w' e
  show "world_ok E w \<Longrightarrow> storable r \<Longrightarrow> BodyStore_Put E i r d w = (Inr (), w') \<Longrightarrow> rnow E w \<le> t \<Longrightarrow>
      body_held E w' t i = (if t \<le> rnow E w + max 1 (d div Millisecond) then Some (Some r) else None)"
    by (rule Put_held(1))
  show "world_ok E w \<Longrightarrow> rnow E w \<le> t \<Longrightarrow> j \<noteq> i \<Longrightarrow> body_held E (snd (BodyStore_Put E i r d w)) t j = body_held E w t j"
    by (rule Put_held(2))
  show "world_ok E w \<Longrightarrow> rnow E w + max 1 (d div Millisecond) < t \<Longrightarrow>
      body_held E (snd (BodyStore_Put E i r d w)) t i = None \<or> body_held E (snd (BodyStore_Put E i r d w)) t i = body_held E w t i"
    by (rule Put_held(3)) simp_all
  show "world_ok E w \<Longrightarrow> healthy E w \<Longrightarrow> body_held E w (rnow E w) i = Some (Some r) \<Longrightarrow>
      \<exists>s'. BodyStore_Get E i w = (Inr r, s') \<and> healthy E s'"
    using healthy_tick by (simp add: Get_Inr world_okD(1) healthy_now(1))
  show "healthy E w \<Longrightarrow> 0 < d \<Longrightarrow> \<exists>s'. BodyStore_Put E i r d w = (Inr (), s') \<and> healthy E s'"
    by (intro prod_exI body_ops_healthy)
  show "healthy E w \<Longrightarrow> \<exists>s'. BodyStore_Delete E i w = (Inr (), s') \<and> healthy E s'"
    by (intro prod_exI body_ops_healthy)
qed (auto intro: Put_nonpos Delete_held body_held_mark world_okD(1) body_ops_now
    simp: Get_Inr world_okD(1) body_ops_sound body_held_Get dest: Get_Inl [OF world_okD(1)] Delete_held(3))

section \<open>Properties\<close>

definition sample_record :: EncryptedBody where
  "sample_record =
     \<lparr>eb_Version = 1, eb_Alg = ''kek'', eb_Nonce = [1], eb_Ciphertext = [2, 3, 4, 5],
      eb_WrapMode = WrapPassword, eb_KEKID = ''pw'',
      eb_KDF = Some \<lparr>kp_Salt = [9], kp_Time = 3, kp_MemoryKiB = 8192, kp_Threads = 2\<rparr>,
      eb_WrapNonce = [], eb_WrappedDEK = [255]\<rparr>"

lemma sample_record_put:
  "storable sample_record"
  "\<exists>w. BodyStore_Put sample_env 5 sample_record Second sample_world1 = (Inr (), w) \<and> w_tick w = 1"
proof -
  show "storable sample_record"
    by (simp add: sample_record_def storable_def in64_def ValidString_ascii)
  show "\<exists>w. BodyStore_Put sample_env 5 sample_record Second sample_world1 = (Inr (), w) \<and> w_tick w = 1"
    by (simp add: BodyStore_Put_def bindR_def mapE_def redis_call_def expiringTTL_def time_units
          sample_env_def sample_world1_def sample_world_def)
qed

text \<open>
  C16. A record that \<open>Put\<close> stored is what a later \<open>Get\<close> answers, byte for byte through its JSON form,
  up to the last millisecond of its lifetime, and \<^verbatim>\<open>ErrNotFound\<close> is the answer from then on; in between
  the world may have changed in any way that leaves the key alone.
\<close>

theorem body_put_get:
  assumes "world_ok E w" and "storable r" and "BodyStore_Put E i r d w = (Inr (), w1)"
    and "w_tick w \<le> w_tick w2" and "e_fate E (w_tick w2) = Served"
    and "rs_view (e_redis E) (w_redis w2) (rnow E w2) (bodyKey E i) =
         rs_view (e_redis E) (w_redis w1) (rnow E w2) (bodyKey E i)"
  shows "BodyStore_Get E i w2 = (if rnow E w2 \<le> rnow E w + max 1 (d div Millisecond) then Inr r else Inl ErrNotFound, tick w2)"
proof -
  note L = world_okD(1) [OF assms(1)]
  have held: "body_held E w2 (rnow E w2) i =
      (if rnow E w2 \<le> rnow E w + max 1 (d div Millisecond) then Some (Some r) else None)"
    using Put_held(1) [OF assms(1) rnow_mono [OF L assms(4)] assms(2,3)] assms(6)
    by (simp add: body_held_def)
  show ?thesis
  proof (cases "rnow E w2 \<le> rnow E w + max 1 (d div Millisecond)")
    case True
    with held assms(5) show ?thesis by (simp add: Get_Inr [OF L])
  next
    case False
    with held have "rs_get (e_redis E) (rnow E w2) (bodyKey E i) (w_redis w2) = None"
      by (simp add: body_held_def redis_string_lawsD(1) [OF env_lawsD(1) [OF L]])
    with False assms(5) show ?thesis
      by (simp add: BodyStore_Get_def bindR_def mapE_def redis_call_def rnow_def tick_def)
  qed
qed

theorem body_put_get_witness:
  "\<exists>w. BodyStore_Put sample_env 5 sample_record Second sample_world1 = (Inr (), w) \<and>
       fst (BodyStore_Get sample_env 5 w) = Inr sample_record"
proof -
  obtain w where w: "BodyStore_Put sample_env 5 sample_record Second sample_world1 = (Inr (), w)" "w_tick w = 1"
    using sample_record_put(2) by blast
  have "w_tick sample_world1 = 0" "e_fate sample_env n = Served" "e_rclock sample_env n = int n" for n
    by (simp_all add: sample_world1_def sample_world_def sample_env_def)
  with w body_put_get [OF sample_world1_ok(1) sample_record_put(1) w(1), of w] show ?thesis
    by (simp add: rnow_def time_units)
qed

text \<open>
  C17. No operation leaves a body behind for longer than the lifetime asked for: after a \<open>Put\<close>, whether it
  succeeded, was refused or lost its reply, and from the end of the given lifetime on, the store
  holds nothing for the paste that it did not hold before.
\<close>

theorem body_lifetime_bounded:
  assumes "world_ok E w" and "body_held E w t i = None"
    and "rnow E w + max 1 (d div Millisecond) < t"
  shows "body_held E (snd (BodyStore_Put E i r d w)) t i = None"
  using redis_bodies.put_bounded [OF assms(1,3), of i r] assms(2) by (simp add: NewBodyStore_def)

theorem body_lifetime_bounded_witness:
  "body_held sample_env sample_world1 2000 5 = None \<and>
   body_held sample_env (snd (BodyStore_Put sample_env 5 sample_record Second sample_world1)) 2000 5 = None"
proof -
  have n: "body_held sample_env sample_world1 2000 5 = None"
    by (simp add: body_held_def sample_env_def sample_world1_def sample_world_def mem_redis_def)
  have "rnow sample_env sample_world1 + max 1 (Second div Millisecond) < 2000"
    by (simp add: rnow_def sample_env_def sample_world1_def sample_world_def time_units)
  with n body_lifetime_bounded [OF sample_world1_ok(1) n] show ?thesis by simp
qed

text \<open>
  \<open>MarkUnavailableOnce\<close> answers true at most once within its lifetime: after an answered call, a
  second one made before the marker expires answers false.
\<close>

lemma mark_unavailable_once:
  assumes "world_ok E w" and "BodyStore_MarkUnavailableOnce E i d w = (Inr b, w1)"
    and "BodyStore_MarkUnavailableOnce E i d' w1 = (Inr b', w2)"
    and "b" and "rnow E w1 \<le> rnow E w + max 1 (d div Millisecond)"
  shows "\<not> b'"
proof -
  note R = env_lawsD(1) [OF world_okD(1) [OF assms(1)]]
  let ?k = "unavailableKey E i" let ?t = "rnow E w"
  from assms(2) obtain r where d: "0 < d"
    and r: "rs_setnx (e_redis E) ?t ?k (RText ''1'') (max Millisecond d) (w_redis w) = (b, r)"
    and w1: "w1 = (tick w)\<lparr>w_redis := r\<rparr>"
    by (auto simp: BodyStore_MarkUnavailableOnce_def bindR_Inr expiringTTL_Inr redis_call_Inr)
  from r \<open>b\<close> have "rs_view (e_redis E) (w_redis w) ?t ?k = None"
    using redis_string_lawsD(3) [OF R, of ?t ?k "RText ''1''" "max Millisecond d" "w_redis w"] by simp
  then have "rs_view (e_redis E) r ?t ?k = Some (RText ''1'', Some (?t + max 1 (d div Millisecond)))"
    using redis_string_lawsD(4) [OF R, of "max Millisecond d" ?t ?k "RText ''1''" "w_redis w"] r max_ms [OF d]
    by simp
  then have "rs_view (e_redis E) r (rnow E w1) ?k \<noteq> None"
    using redis_view_later [OF R rnow_mono [OF world_okD(1) [OF assms(1)], of w w1], of r ?k] assms(5) w1
    by simp
  moreover from assms(3) obtain x r2 where
    "rs_setnx (e_redis E) (rnow E w1) ?k (RText ''1'') x r = (b', r2)"
    by (auto simp: BodyStore_MarkUnavailableOnce_def bindR_Inr redis_call_Inr w1)
  ultimately show ?thesis
    using redis_string_lawsD(3) [OF R, of "rnow E w1" ?k "RText ''1''" x r] by simp
qed

end
