(* ===== verification/PasteStore.thy ===== *)
theory PasteStore
  imports Ports Tables
begin

text \<open>
  \<^verbatim>\<open>internal/store/postgres/pastes.go\<close>: paste metadata in Postgres. Each SQL statement of the source
  is a function on the tables that checks the constraints of the schema, in the order the
  server does, and each method sends its statement. It meets the contract \<open>meta_store\<close>.
\<close>

section \<open>Statements\<close>

text \<open>What a row is after a trip through the columns: timestamps lose their nanoseconds.\<close>

definition scanPaste :: "'r env \<Rightarrow> PasteMeta \<Rightarrow> PasteMeta" where
  "scanPaste E m =
     m\<lparr>pm_CreatedAt := e_pg_time E (pm_CreatedAt m), pm_ExpiresAt := e_pg_time E (pm_ExpiresAt m),
       pm_ExpiredAuditedAt := map_option (e_pg_time E) (pm_ExpiredAuditedAt m),
       pm_DeletedAt := map_option (e_pg_time E) (pm_DeletedAt m)\<rparr>"

definition int4_overflow :: goerr where "int4_overflow = EPg ''22003''"
definition check_violation :: goerr where "check_violation = EPg ''23514''"
definition unique_violation :: goerr where "unique_violation = EPg ''23505''"
definition foreign_key_violation :: goerr where "foreign_key_violation = EPg ''23503''"

definition bad_encoding :: goerr where "bad_encoding = EPg ''22021''"

definition known_user :: "'r world \<Rightarrow> uuid \<Rightarrow> bool" where
  "known_user w u \<longleftrightarrow> u \<in> ur_ID ` set (w_users w)"

definition insert_paste :: "'r env \<Rightarrow> PasteMeta \<Rightarrow> 'r world \<Rightarrow> unit res \<times> 'r world" where
  "insert_paste E m w =
     (if \<not> (pg_text (pm_HashAlgo m) \<and> pg_text (pm_ContentHash m) \<and> pg_text (pm_KEKID m)) then (Inl bad_encoding, w)
      else if \<not> (int4 (pm_TTLSeconds m) \<and> int4 (pm_SizeBytes m) \<and> int4 (pm_ViewCount m)) then (Inl int4_overflow, w)
      else if \<not> (1 \<le> pm_TTLSeconds m \<and> pm_TTLSeconds m \<le> 86400) then (Inl check_violation, w)
      else if pm_ID m \<in> pm_ID ` set (w_pastes w) then (Inl unique_violation, w)
      else if \<not> known_user w (pm_OwnerID m) \<or> 
        (case pm_DeletedBy m of None \<Rightarrow> False | Some u \<Rightarrow> \<not> known_user w u)
      then (Inl foreign_key_violation, w)
      else (Inr (), w\<lparr>w_pastes := w_pastes w @ [scanPaste E m]\<rparr>))"

text \<open>
  \<^verbatim>\<open>UPDATE pastes SET ... WHERE ...\<close>: the rows that match are rewritten, unless the new value of one of
  them breaks a constraint; then the statement changes nothing.
\<close>

definition update_pastes ::
  "(PasteMeta \<Rightarrow> bool) \<Rightarrow> (PasteMeta \<Rightarrow> goerr option) \<Rightarrow> (PasteMeta \<Rightarrow> PasteMeta) \<Rightarrow>
   'r world \<Rightarrow> unit res \<times> 'r world" where
  "update_pastes P bad f w =
     (case List.map_filter bad (filter P (w_pastes w)) of
        e # _ \<Rightarrow> (Inl e, w)
      | [] \<Rightarrow> (Inr (), w\<lparr>w_pastes := map (\<lambda>m. if P m then f m else m) (w_pastes w)\<rparr>))"

definition delete_pastes :: "(PasteMeta \<Rightarrow> bool) \<Rightarrow> 'r world \<Rightarrow> int res \<times> 'r world" where
  "delete_pastes P w =
     (Inr (int (length (filter P (w_pastes w)))), w\<lparr>w_pastes := filter (\<lambda>m. \<not> P m) (w_pastes w)\<rparr>)"

text \<open>\<^verbatim>\<open>ORDER BY ... LIMIT ... OFFSET ...\<close>.\<close>

definition select_page :: "int \<Rightarrow> int \<Rightarrow> PasteMeta list \<Rightarrow> PasteMeta list" where
  "select_page limit offset ms = take (nat limit) (drop (nat offset) ms)"

definition newest_first :: "PasteMeta list \<Rightarrow> PasteMeta list" where
  "newest_first ms = rev (sort_key (\<lambda>m. (pm_CreatedAt m, pm_ID m)) ms)"

definition soonest_expiry_first :: "PasteMeta list \<Rightarrow> PasteMeta list" where
  "soonest_expiry_first ms = sort_key (\<lambda>m. (pm_ExpiresAt m, pm_ID m)) ms"

section \<open>The operations\<close>

definition PasteStore_Create :: "'r env \<Rightarrow> PasteMeta \<Rightarrow> ('r world, unit) op" where
  "PasteStore_Create E m = db_call E (insert_paste E m)"

definition PasteStore_Get :: "'r env \<Rightarrow> uuid \<Rightarrow> ('r world, PasteMeta) op" where
  "PasteStore_Get E i =
     db_call E (\<lambda>w. (case find (\<lambda>m. pm_ID m = i) (w_pastes w) of None \<Rightarrow> Inl ErrNotFound | Some m \<Rightarrow> Inr m, w))"

definition PasteStore_IncrementViews :: "'r env \<Rightarrow> uuid \<Rightarrow> ('r world, unit) op" where
  "PasteStore_IncrementViews E i =
     db_call E (update_pastes (\<lambda>m. pm_ID m = i)
       (\<lambda>m. if int4 (pm_ViewCount m + 1) then None else Some int4_overflow)
       (\<lambda>m. m\<lparr>pm_ViewCount := pm_ViewCount m + 1\<rparr>))"

definition PasteStore_MarkDeleted :: "'r env \<Rightarrow> uuid \<Rightarrow> uuid \<Rightarrow> gtime \<Rightarrow> ('r world, unit) op" where
  "PasteStore_MarkDeleted E i by at =
     db_call E (\<lambda>w. update_pastes (\<lambda>m. pm_ID m = i \<and> pm_DeletedAt m = None)
       (\<lambda>m. if known_user w by then None else Some foreign_key_violation)
       (\<lambda>m. m\<lparr>pm_DeletedAt := Some (e_pg_time E at), pm_DeletedBy := Some by\<rparr>) w)"

definition normalizePage :: "Page \<Rightarrow> Page" where
  "normalizePage page =
     (let p = (if pg_Limit page \<le> 0 \<or> pg_Limit page > 200 then page\<lparr>pg_Limit := 50\<rparr> else page)
      in if pg_Offset p < 0 then p\<lparr>pg_Offset := 0\<rparr> else p)"

definition PasteStore_ListByOwner :: "'r env \<Rightarrow> uuid \<Rightarrow> Page \<Rightarrow> ('r world, PasteMeta list) op" where
  "PasteStore_ListByOwner E ownerID page =
     (let page = normalizePage page
      in db_call E (\<lambda>w. (Inr (select_page (pg_Limit page) (pg_Offset page)
           (newest_first (filter (\<lambda>m. pm_OwnerID m = ownerID) (w_pastes w)))), w)))"

definition PasteStore_ListAll :: "'r env \<Rightarrow> uuid option \<Rightarrow> Page \<Rightarrow> ('r world, PasteMeta list) op" where
  "PasteStore_ListAll E ownerFilter page =
     (let page = normalizePage page
      in db_call E (\<lambda>w. (Inr (select_page (pg_Limit page) (pg_Offset page)
           (newest_first (filter (\<lambda>m. ownerFilter = None \<or> ownerFilter = Some (pm_OwnerID m)) (w_pastes w)))), w)))"

definition PasteStore_ListExpiredUnaudited :: "'r env \<Rightarrow> gtime \<Rightarrow> int \<Rightarrow> ('r world, PasteMeta list) op" where
  "PasteStore_ListExpiredUnaudited E now limit =
     db_call E (\<lambda>w. (Inr (select_page limit 0
       (soonest_expiry_first (filter (\<lambda>m. pm_ExpiresAt m \<le> e_pg_time E now \<and> pm_DeletedAt m = None \<and>
          pm_ExpiredAuditedAt m = None) (w_pastes w)))), w))"

definition PasteStore_MarkExpiredAudited :: "'r env \<Rightarrow> uuid list \<Rightarrow> gtime \<Rightarrow> ('r world, unit) op" where
  "PasteStore_MarkExpiredAudited E ids at =
     (if ids = [] then retR ()
      else db_call E (update_pastes (\<lambda>m. pm_ID m \<in> set ids \<and> pm_ExpiredAuditedAt m = None) (\<lambda>_. None)
             (\<lambda>m. m\<lparr>pm_ExpiredAuditedAt := Some (e_pg_time E at)\<rparr>)))"

definition PasteStore_PurgeOlderThan :: "'r env \<Rightarrow> gtime \<Rightarrow> ('r world, int) op" where
  "PasteStore_PurgeOlderThan E cutoff =
     db_call E (delete_pastes (\<lambda>m. pm_CreatedAt m < e_pg_time E cutoff))"

definition PasteStore_PurgeCompletedOlderThan :: "'r env \<Rightarrow> gtime \<Rightarrow> ('r world, int) op" where
  "PasteStore_PurgeCompletedOlderThan E cutoff =
     db_call E (delete_pastes (\<lambda>m. pm_CreatedAt m < e_pg_time E cutoff \<and>
       (pm_DeletedAt m \<noteq> None \<or> pm_ExpiredAuditedAt m \<noteq> None)))"

definition PasteStore_CountActive :: "'r env \<Rightarrow> gtime \<Rightarrow> ('r world, int) op" where
  "PasteStore_CountActive E now =
     db_call E (\<lambda>w. (Inr (int (length (filter (\<lambda>m. pm_ExpiresAt m > e_pg_time E now \<and> pm_DeletedAt m = None)
       (w_pastes w)))), w))"

definition PasteStore_Ping :: "'r env \<Rightarrow> ('r world, unit) op" where
  "PasteStore_Ping E = db_call E (\<lambda>w. (Inr (), w))"

definition NewPasteStore :: "'r env \<Rightarrow> 'r world MetaStore" where
  "NewPasteStore E =
     \<lparr>ms_Create = PasteStore_Create E, ms_Get = PasteStore_Get E,
      ms_IncrementViews = PasteStore_IncrementViews E, ms_MarkDeleted = PasteStore_MarkDeleted E,
      ms_ListByOwner = PasteStore_ListByOwner E, ms_ListAll = PasteStore_ListAll E,
      ms_ListExpiredUnaudited = PasteStore_ListExpiredUnaudited E,
      ms_MarkExpiredAudited = PasteStore_MarkExpiredAudited E,
      ms_PurgeOlderThan = PasteStore_PurgeOlderThan E,
      ms_PurgeCompletedOlderThan = Some (PasteStore_PurgeCompletedOlderThan E),
      ms_CountActive = PasteStore_CountActive E, ms_Ping = PasteStore_Ping E\<rparr>"

section \<open>Statements and the schema\<close>

definition paste_row :: "'r world \<Rightarrow> uuid \<Rightarrow> PasteMeta option" where
  "paste_row w i = find (\<lambda>m. pm_ID m = i) (w_pastes w)"

lemma find_ID:
  "distinct (map pm_ID ms) \<Longrightarrow> find (\<lambda>m. pm_ID m = i) ms = Some m \<longleftrightarrow> m \<in> set ms \<and> pm_ID m = i"
  by (induction ms) force+

lemma find_ID_None: "find (\<lambda>m. pm_ID m = i) ms = None \<longleftrightarrow> i \<notin> pm_ID ` set ms"
  by (auto simp: find_None_iff)

lemma find_append: "find P (xs @ ys) = (case find P xs of None \<Rightarrow> find P ys | Some x \<Rightarrow> Some x)"
  by (induction xs) auto

lemma find_map:
  assumes "\<And>m. pm_ID (f m) = pm_ID m"
  shows "find (\<lambda>m. pm_ID m = i) (map f ms) = map_option f (find (\<lambda>m. pm_ID m = i) ms)"
  by (induction ms) (auto simp: assms)

lemma insert_paste_Inr:
  "insert_paste E m w = (Inr (), w') \<longleftrightarrow>
     pm_ID m \<notin> pm_ID ` set (w_pastes w) \<and> paste_row_ok (w_users w) m \<and> int4 (pm_TTLSeconds m) \<and>
     pg_text (pm_HashAlgo m) \<and> pg_text (pm_ContentHash m) \<and> pg_text (pm_KEKID m) \<and>
     w' = w\<lparr>w_pastes := w_pastes w @ [scanPaste E m]\<rparr>"
  by (auto simp: insert_paste_def paste_row_ok_def known_user_def split: option.splits)

lemma insert_paste_snd:
  "snd (insert_paste E m w) = w \<or> insert_paste E m w = (Inr (), w\<lparr>w_pastes := w_pastes w @ [scanPaste E m]\<rparr>)"
  by (auto simp: insert_paste_def)

lemma update_pastes_snd:
  "snd (update_pastes P bad f w) = w \<or>
   update_pastes P bad f w = (Inr (), w\<lparr>w_pastes := map (\<lambda>m. if P m then f m else m) (w_pastes w)\<rparr>) \<and>
     (\<forall>m \<in> set (w_pastes w). P m \<longrightarrow> bad m = None)"
  by (auto simp: update_pastes_def map_filter_def filter_empty_conv split: list.splits)

lemma scanPaste_simps [simp]:
  "pm_ID (scanPaste E m) = pm_ID m" "paste_row_ok us (scanPaste E m) = paste_row_ok us m"
  by (simp_all add: scanPaste_def paste_row_ok_def)

text \<open>Each statement keeps the constraints.\<close>

lemma insert_paste_ok:
  "pastes_ok (w_users w) (w_pastes w) \<Longrightarrow> pastes_ok (w_users w) (w_pastes (snd (insert_paste E m w)))"
proof (cases "snd (insert_paste E m w) = w")
  case False
  then have i: "insert_paste E m w = (Inr (), w\<lparr>w_pastes := w_pastes w @ [scanPaste E m]\<rparr>)"
    using insert_paste_snd [of E m w] by blast
  then have "pm_ID m \<notin> pm_ID ` set (w_pastes w)" "paste_row_ok (w_users w) m"
    by (simp_all add: insert_paste_Inr)
  moreover assume "pastes_ok (w_users w) (w_pastes w)"
  ultimately show ?thesis
    by (simp add: i pastes_ok_def)
qed simp

lemma update_pastes_ok:
  assumes "pastes_ok (w_users w) (w_pastes w)"
    and "\<And>m. pm_ID (f m) = pm_ID m"
    and "\<And>m. paste_row_ok (w_users w) m \<Longrightarrow> P m \<Longrightarrow> bad m = None \<Longrightarrow> paste_row_ok (w_users w) (f m)"
  shows "pastes_ok (w_users w) (w_pastes (snd (update_pastes P bad f w)))"
proof -
  have "pm_ID (if P m then f m else m) = pm_ID m" for m
    by (simp add: assms(2))
  then show ?thesis
    using update_pastes_snd [of P bad f w] assms(1,3)
    by (auto simp: pastes_ok_def list_all_iff o_def)
qed

lemma delete_pastes_ok:
  "pastes_ok (w_users w) (w_pastes w) \<Longrightarrow> pastes_ok (w_users w) (w_pastes (snd (delete_pastes P w)))"
  by (auto simp: pastes_ok_def delete_pastes_def list_all_iff distinct_map_filter)

lemma statements_keep [simp]:
  "w_users (snd (insert_paste E m w)) = w_users w" "w_redis (snd (insert_paste E m w)) = w_redis w"
  "w_tick (snd (insert_paste E m w)) = w_tick w" "w_gate (snd (insert_paste E m w)) = w_gate w"
  "w_audit (snd (insert_paste E m w)) = w_audit w"
  "w_users (snd (update_pastes P bad f w)) = w_users w" "w_redis (snd (update_pastes P bad f w)) = w_redis w"
  "w_tick (snd (update_pastes P bad f w)) = w_tick w" "w_gate (snd (update_pastes P bad f w)) = w_gate w"
  "w_audit (snd (update_pastes P bad f w)) = w_audit w"
  "w_users (snd (delete_pastes P w)) = w_users w" "w_redis (snd (delete_pastes P w)) = w_redis w"
  "w_tick (snd (delete_pastes P w)) = w_tick w" "w_gate (snd (delete_pastes P w)) = w_gate w"
  "w_audit (snd (delete_pastes P w)) = w_audit w"
  by (simp_all add: insert_paste_def update_pastes_def delete_pastes_def split: list.splits)

lemma world_ok_statement:
  assumes "world_ok E w" and "w_users (snd (stmt (tick w))) = w_users w"
    and "pastes_ok (w_users w) (w_pastes (snd (stmt (tick w))))"
  shows "world_ok E (snd (db_call E stmt w))"
  by (rule db_call_snd [of E stmt w]) (use assms in \<open>simp_all add: world_ok_def\<close>)

lemma PasteStore_world_ok:
  assumes "world_ok E w"
  shows "world_ok E (snd (PasteStore_Create E m w))"
    "world_ok E (snd (PasteStore_IncrementViews E i w))"
    "world_ok E (snd (PasteStore_MarkDeleted E i by at w))"
    "world_ok E (snd (PasteStore_MarkExpiredAudited E ids at w))"
    "world_ok E (snd (PasteStore_PurgeOlderThan E at w))"
    "world_ok E (snd (PasteStore_PurgeCompletedOlderThan E at w))"
  using world_okD(3) [OF assms] assms
  by (auto intro!: world_ok_statement [OF assms] insert_paste_ok [of "tick w", simplified]
        update_pastes_ok [of "tick w", simplified] delete_pastes_ok [of "tick w", simplified]
      simp: PasteStore_Create_def PasteStore_IncrementViews_def PasteStore_MarkDeleted_def
        PasteStore_MarkExpiredAudited_def PasteStore_PurgeOlderThan_def PasteStore_PurgeCompletedOlderThan_def
        paste_row_ok_def known_user_def split: if_splits option.splits)

section \<open>The contract\<close>

lemma paste_row_tick [simp]: "paste_row (tick w) = paste_row w"
  by (simp add: paste_row_def fun_eq_iff)

lemma paste_row_update:
  assumes "\<And>m. pm_ID (f m) = pm_ID m"
  shows "paste_row (snd (update_pastes P bad f w)) i = paste_row w i \<or>
    paste_row (snd (update_pastes P bad f w)) i = map_option (\<lambda>m. if P m then f m else m) (paste_row w i)"
proof (cases "snd (update_pastes P bad f w) = w")
  case False
  then have "update_pastes P bad f w = (Inr (), w\<lparr>w_pastes := map (\<lambda>m. if P m then f m else m) (w_pastes w)\<rparr>)"
    using update_pastes_snd [of P bad f w] by blast
  then show ?thesis
    by (simp add: paste_row_def find_map [of "\<lambda>m. if P m then f m else m"] assms)
qed simp

lemma paste_row_update_Inr:
  assumes "update_pastes P bad f w = (Inr (), w')" and "\<And>m. pm_ID (f m) = pm_ID m"
  shows "paste_row w' i = map_option (\<lambda>m. if P m then f m else m) (paste_row w i)"
  using assms(1)
  by (auto simp: update_pastes_def paste_row_def find_map [of "\<lambda>m. if P m then f m else m"] assms(2)
      split: list.splits)

lemma paste_row_ID: "paste_row w i = Some m \<Longrightarrow> pm_ID m = i"
  by (simp add: paste_row_def find_Some_iff) blast

text \<open>An update that selects by identity leaves the other rows alone, whatever its fate.\<close>

lemma paste_row_db_update:
  assumes "\<And>m. pm_ID (f m) = pm_ID m"
  shows "paste_row (snd (db_call E (update_pastes P bad f) w)) i = paste_row w i \<or>
    paste_row (snd (db_call E (update_pastes P bad f) w)) i = map_option (\<lambda>m. if P m then f m else m) (paste_row w i)"
  by (rule db_call_snd [of E "update_pastes P bad f" w])
    (use paste_row_update [OF assms, of P bad "tick w" i] in simp_all)

lemma Create_row:
  "PasteStore_Create E m w = (Inr (), w') \<Longrightarrow> paste_row w (pm_ID m) = None \<and> paste_row w' (pm_ID m) = Some (scanPaste E m)"
  "j \<noteq> pm_ID m \<Longrightarrow> paste_row (snd (PasteStore_Create E m w)) j = paste_row w j"
proof -
  show "PasteStore_Create E m w = (Inr (), w') \<Longrightarrow> paste_row w (pm_ID m) = None \<and> paste_row w' (pm_ID m) = Some (scanPaste E m)"
    using find_ID_None [of "pm_ID m" "w_pastes w"]
    by (auto simp: PasteStore_Create_def db_call_Inr insert_paste_Inr paste_row_def find_append)
  assume j: "j \<noteq> pm_ID m"
  have "paste_row (snd (insert_paste E m w)) j = paste_row w j" for w
    using insert_paste_snd [of E m w] j
    by (auto simp: paste_row_def find_append split: option.splits)
  then show "paste_row (snd (PasteStore_Create E m w)) j = paste_row w j"
    by (rule_tac db_call_snd [of E "insert_paste E m" w]) (simp_all add: PasteStore_Create_def)
qed

lemma Get_row:
  "PasteStore_Get E i w = (Inr m, w') \<longleftrightarrow> e_fate E (w_tick w) = Served \<and> paste_row w i = Some m \<and> w' = tick w"
  "PasteStore_Get E i w = (Inl e, w') \<Longrightarrow> errors_Is e ErrNotFound \<Longrightarrow> paste_row w i = None"
  "snd (PasteStore_Get E i w) = tick w"
  by (auto simp: PasteStore_Get_def db_call_Inr paste_row_def db_call_def
      split: option.splits fate.splits)

lemma MarkDeleted_row:
  "PasteStore_MarkDeleted E i by at w = (Inr (), w') \<Longrightarrow>
     paste_row w' i = map_option (mark_row (e_pg_time E) by at) (paste_row w i)"
  "j \<noteq> i \<Longrightarrow> paste_row (snd (PasteStore_MarkDeleted E i by at w)) j = paste_row w j"
proof -
  show "PasteStore_MarkDeleted E i by at w = (Inr (), w') \<Longrightarrow>
     paste_row w' i = map_option (mark_row (e_pg_time E) by at) (paste_row w i)"
    by (cases "paste_row w i")
      (auto simp: PasteStore_MarkDeleted_def db_call_Inr mark_row_def dest!: paste_row_update_Inr [where i = i] dest: paste_row_ID)
  show "j \<noteq> i \<Longrightarrow> paste_row (snd (PasteStore_MarkDeleted E i by at w)) j = paste_row w j"
    by (rule db_call_snd [of E "\<lambda>w. update_pastes (\<lambda>m. pm_ID m = i \<and> pm_DeletedAt m = None)
       (\<lambda>m. if known_user w by then None else Some foreign_key_violation)
       (\<lambda>m. m\<lparr>pm_DeletedAt := Some (e_pg_time E at), pm_DeletedBy := Some by\<rparr>) w" w])
      (use paste_row_update [of "\<lambda>m. m\<lparr>pm_DeletedAt := Some (e_pg_time E at), pm_DeletedBy := Some by\<rparr>"
          "\<lambda>m. pm_ID m = i \<and> pm_DeletedAt m = None" _ "tick w" j] in
        \<open>cases "paste_row w j"; auto simp: PasteStore_MarkDeleted_def dest: paste_row_ID\<close>)+
qed

lemma IncrementViews_row:
  "paste_row (snd (PasteStore_IncrementViews E i w)) j = paste_row w j \<or>
   j = i \<and> paste_row (snd (PasteStore_IncrementViews E i w)) j =
     map_option (\<lambda>m. m\<lparr>pm_ViewCount := pm_ViewCount m + 1\<rparr>) (paste_row w j)"
proof -
  note u = paste_row_db_update [of "\<lambda>m. m\<lparr>pm_ViewCount := pm_ViewCount m + 1\<rparr>" E "\<lambda>m. pm_ID m = i"
      "\<lambda>m. if int4 (pm_ViewCount m + 1) then None else Some int4_overflow" w j]
  show ?thesis
    using u by (cases "paste_row w j") (auto simp: PasteStore_IncrementViews_def dest: paste_row_ID split: if_splits)
qed

text \<open>Metadata statements never touch Redis, the gate, the accounts or the audit table.\<close>

lemma PasteStore_keeps [simp]:
  "w_redis (snd (PasteStore_Create E m w)) = w_redis w" "w_gate (snd (PasteStore_Create E m w)) = w_gate w"
  "w_users (snd (PasteStore_Create E m w)) = w_users w" "w_audit (snd (PasteStore_Create E m w)) = w_audit w"
  "w_tick (snd (PasteStore_Create E m w)) = Suc (w_tick w)"
  "w_redis (snd (PasteStore_IncrementViews E i w)) = w_redis w" "w_gate (snd (PasteStore_IncrementViews E i w)) = w_gate w"
  "w_users (snd (PasteStore_IncrementViews E i w)) = w_users w" "w_audit (snd (PasteStore_IncrementViews E i w)) = w_audit w"
  "w_tick (snd (PasteStore_IncrementViews E i w)) = Suc (w_tick w)"
  "w_redis (snd (PasteStore_MarkDeleted E i by at w)) = w_redis w" "w_gate (snd (PasteStore_MarkDeleted E i by at w)) = w_gate w"
  "w_users (snd (PasteStore_MarkDeleted E i by at w)) = w_users w" "w_audit (snd (PasteStore_MarkDeleted E i by at w)) = w_audit w"
  "w_tick (snd (PasteStore_MarkDeleted E i by at w)) = Suc (w_tick w)"
  by (simp_all add: PasteStore_Create_def PasteStore_IncrementViews_def PasteStore_MarkDeleted_def
      db_call_def split_beta split: fate.splits)

interpretation pg_metas: meta_store "NewPasteStore E" paste_row "e_pg_time E" "world_ok E" "healthy E" for E
proof (unfold_locales, unfold NewPasteStore_def MetaStore.simps)
  fix w :: "'a world" and i m w'
  show "world_ok E w \<Longrightarrow> healthy E w \<Longrightarrow> paste_row w i = Some m \<Longrightarrow>
      \<exists>s'. PasteStore_Get E i w = (Inr m, s') \<and> healthy E s'"
    by (simp add: Get_row healthy_now(1) healthy_tick)
  show "paste_row (snd (PasteStore_IncrementViews E i w)) j = paste_row w j \<or>
      j = i \<and> paste_row (snd (PasteStore_IncrementViews E i w)) j =
        map_option (\<lambda>m. m\<lparr>pm_ViewCount := pm_ViewCount m + 1\<rparr>) (paste_row w j)" for j
    by (rule IncrementViews_row)
qed (auto dest: Create_row(1) Get_row(2) MarkDeleted_row(1) simp: Create_row(2) Get_row MarkDeleted_row(2)
      scanPaste_def [symmetric] PasteStore_world_ok intro: healthy_later)

end
