(* ===== verification/Logging.thy ===== *)
theory Logging
  imports World
begin

text \<open>
  \<^verbatim>\<open>internal/logging/logging.go\<close> and the log sink of \<^verbatim>\<open>internal/audit/logsink.go\<close>. A logger is its
  minimum level; a record below it is dropped, any other is appended to the log of the world.
\<close>

definition level_rank :: "log_level \<Rightarrow> int" where
  "level_rank l = (case l of LevelDebug \<Rightarrow> - 4 | LevelInfo \<Rightarrow> 0 | LevelWarn \<Rightarrow> 4 | LevelError \<Rightarrow> 8)"

instantiation log_level :: linorder
begin

definition less_eq_log_level :: "log_level \<Rightarrow> log_level \<Rightarrow> bool" where
  "less_eq_log_level a b \<longleftrightarrow> level_rank a \<le> level_rank b"

definition less_log_level :: "log_level \<Rightarrow> log_level \<Rightarrow> bool" where
  "less_log_level a b \<longleftrightarrow> level_rank a < level_rank b"

instance
proof
  fix a b :: log_level
  show "a = b" if "a \<le> b" and "b \<le> a"
    using that by (cases a; cases b) (simp_all add: less_eq_log_level_def level_rank_def)
qed (auto simp: less_eq_log_level_def less_log_level_def)

end

definition logging_New :: "string \<Rightarrow> log_level" where
  "logging_New level =
     (let l = ToLower level
      in if l = ''debug'' then LevelDebug
         else if l = ''warn'' \<or> l = ''warning'' then LevelWarn
         else if l = ''error'' then LevelError
         else LevelInfo)"

definition log_at :: "log_level \<Rightarrow> log_level \<Rightarrow> string \<Rightarrow> (string \<times> lval) list \<Rightarrow> 'r world \<Rightarrow> 'r world" where
  "log_at minLevel level msg attrs w =
     (if level < minLevel then w
      else w\<lparr>w_log := w_log w @ [\<lparr>ll_level = level, ll_msg = msg, ll_attrs = attrs\<rparr>]\<rparr>)"

definition fill_time :: "'r env \<Rightarrow> Event \<Rightarrow> 'r world \<Rightarrow> Event \<times> 'r world" where
  "fill_time E e w =
     (if IsZero (ev_At e) then (let (now, w') = clock_Now E w in (e\<lparr>ev_At := now\<rparr>, w')) else (e, w))"

definition logSink_Record :: "'r env \<Rightarrow> log_level \<Rightarrow> ctx \<Rightarrow> Event \<Rightarrow> 'r world \<Rightarrow> 'r world" where
  "logSink_Record E minLevel c e w =
     (let (e, w) = fill_time E e w;
          e = fill_request_info c e
      in log_at minLevel LevelInfo ''audit''
           ([(''event'', LStr (event_string (ev_Event e))), (''outcome'', LStr (outcome_string (ev_Outcome e))),
             (''at'', LTime (ev_At e)), (''ip'', LStr (ev_IP e)), (''user_agent'', LStr (ev_UserAgent e))] @
            (case ev_ActorID e of None \<Rightarrow> [] | Some u \<Rightarrow> [(''actor_id'', LID u)]) @
            (case ev_PasteID e of None \<Rightarrow> [] | Some i \<Rightarrow> [(''paste_id'', LID i)]) @
            (if ev_Details e = [] then [] else [(''details'', LDetails (ev_Details e))])) w)"

lemma log_at_keeps [simp]:
  "w_tick (log_at m l s a w) = w_tick w" "w_redis (log_at m l s a w) = w_redis w"
  "w_pastes (log_at m l s a w) = w_pastes w" "w_users (log_at m l s a w) = w_users w"
  "w_audit (log_at m l s a w) = w_audit w" "w_gate (log_at m l s a w) = w_gate w"
  by (simp_all add: log_at_def)

lemma fill_time_keeps [simp]:
  "w_redis (snd (fill_time E e w)) = w_redis w" "w_pastes (snd (fill_time E e w)) = w_pastes w"
  "w_users (snd (fill_time E e w)) = w_users w" "w_audit (snd (fill_time E e w)) = w_audit w"
  "w_gate (snd (fill_time E e w)) = w_gate w" "w_log (snd (fill_time E e w)) = w_log w"
  "w_tick w \<le> w_tick (snd (fill_time E e w))"
  by (simp_all add: fill_time_def clock_Now_def)

lemma logSink_keeps [simp]:
  "w_redis (logSink_Record E m c e w) = w_redis w" "w_pastes (logSink_Record E m c e w) = w_pastes w"
  "w_users (logSink_Record E m c e w) = w_users w" "w_audit (logSink_Record E m c e w) = w_audit w"
  "w_gate (logSink_Record E m c e w) = w_gate w" "w_tick w \<le> w_tick (logSink_Record E m c e w)"
  by (simp_all add: logSink_Record_def split_beta Let_def)

lemma level_simps: "LevelInfo < logging_New s \<longleftrightarrow> ToLower s \<in> {''warn'', ''warning'', ''error''}"
  by (auto simp: logging_New_def Let_def less_log_level_def level_rank_def)

end
