(* ===== verification/AuditStore.thy ===== *)
theory AuditStore
  imports Tables Logging
begin

text \<open>
  \<^verbatim>\<open>internal/store/postgres/audit.go\<close>: audit events in Postgres. Recording never fails towards its
  caller: an insert the server does not take is logged and dropped.
\<close>

definition nullIfEmpty :: "string \<Rightarrow> string option" where
  "nullIfEmpty s = (if s = [] then None else Some s)"

text \<open>\<^verbatim>\<open>INSERT INTO audit_events\<close>: text and jsonb columns refuse what they cannot hold.\<close>

definition insert_audit :: "AuditRow \<Rightarrow> 'r world \<Rightarrow> unit res \<times> 'r world" where
  "insert_audit r w =
     (if (case ar_UserAgent r of None \<Rightarrow> False | Some ua \<Rightarrow> \<not> pg_text ua) then (Inl (EPg ''22021''), w)
      else if \<not> pg_json_details (ar_Details r) then (Inl (EPg ''22P05''), w)
      else (Inr (), w\<lparr>w_audit := w_audit w @ [r]\<rparr>))"

definition audit_row :: "'r env \<Rightarrow> Event \<Rightarrow> AuditRow" where
  "audit_row E e =
     \<lparr>ar_At = e_pg_time E (ev_At e), ar_Event = ev_Event e, ar_ActorID = ev_ActorID e, ar_PasteID = ev_PasteID e,
      ar_IP = ParseAddr (ev_IP e), ar_UserAgent = nullIfEmpty (ev_UserAgent e), ar_Outcome = ev_Outcome e,
      ar_Details = ev_Details e\<rparr>"

definition AuditStore_Record :: "'r env \<Rightarrow> log_level \<Rightarrow> ctx \<Rightarrow> Event \<Rightarrow> 'r world \<Rightarrow> 'r world" where
  "AuditStore_Record E minLevel c e w =
     (let e = fill_request_info c e;
          (e, w) = fill_time E e w
      in case db_call E (insert_audit (audit_row E e)) w of
           (Inr _, w) \<Rightarrow> w
         | (Inl err, w) \<Rightarrow>
             log_at minLevel LevelError ''audit insert failed''
               [(''event'', LStr (event_string (ev_Event e))), (''err'', LErr err)] w)"

definition AuditStore_Count :: "'r env \<Rightarrow> string \<Rightarrow> ('r world, int) op" where
  "AuditStore_Count E event =
     db_call E (\<lambda>w. (Inr (int (length (filter (\<lambda>r. event_string (ar_Event r) = event) (w_audit w)))), w))"

definition AuditStore_PurgeOlderThan :: "'r env \<Rightarrow> gtime \<Rightarrow> ('r world, int) op" where
  "AuditStore_PurgeOlderThan E cutoff =
     db_call E (\<lambda>w. (Inr (int (length (filter (\<lambda>r. ar_At r < e_pg_time E cutoff) (w_audit w)))),
       w\<lparr>w_audit := filter (\<lambda>r. \<not> ar_At r < e_pg_time E cutoff) (w_audit w)\<rparr>))"

section \<open>Lemmas\<close>

lemma insert_audit_keeps [simp]:
  "w_redis (snd (insert_audit r w)) = w_redis w" "w_pastes (snd (insert_audit r w)) = w_pastes w"
  "w_users (snd (insert_audit r w)) = w_users w" "w_gate (snd (insert_audit r w)) = w_gate w"
  "w_log (snd (insert_audit r w)) = w_log w" "w_tick (snd (insert_audit r w)) = w_tick w"
  by (simp_all add: insert_audit_def)

lemma AuditStore_Record_eq:
  "AuditStore_Record E m c e w =
     (let p = fill_time E (fill_request_info c e) w; q = db_call E (insert_audit (audit_row E (fst p))) (snd p)
      in case fst q of Inr _ \<Rightarrow> snd q
         | Inl err \<Rightarrow> log_at m LevelError ''audit insert failed''
               [(''event'', LStr (event_string (ev_Event (fst p)))), (''err'', LErr err)] (snd q))"
  by (auto simp: AuditStore_Record_def Let_def split: prod.splits sum.splits)

lemma db_insert_audit_keeps [simp]:
  "w_redis (snd (db_call E (insert_audit r) w)) = w_redis w" "w_pastes (snd (db_call E (insert_audit r) w)) = w_pastes w"
  "w_users (snd (db_call E (insert_audit r) w)) = w_users w" "w_gate (snd (db_call E (insert_audit r) w)) = w_gate w"
  "w_tick (snd (db_call E (insert_audit r) w)) = Suc (w_tick w)"
  by (rule db_call_snd [of E "insert_audit r" w]; simp)+

text \<open>Apart from a line of the log, recording is the insert.\<close>

definition audit_insert_result :: "'r env \<Rightarrow> ctx \<Rightarrow> Event \<Rightarrow> 'r world \<Rightarrow> unit res \<times> 'r world" where
  "audit_insert_result E c e w =
     (let p = fill_time E (fill_request_info c e) w in db_call E (insert_audit (audit_row E (fst p))) (snd p))"

lemma AuditStore_Record_cases:
  obtains "AuditStore_Record E m c e w = snd (audit_insert_result E c e w)"
  | a where "AuditStore_Record E m c e w =
       log_at m LevelError ''audit insert failed'' a (snd (audit_insert_result E c e w))"
  by (cases "fst (audit_insert_result E c e w)")
    (auto simp: AuditStore_Record_eq audit_insert_result_def Let_def)

lemma audit_insert_result_keeps [simp]:
  "w_redis (snd (audit_insert_result E c e w)) = w_redis w" "w_pastes (snd (audit_insert_result E c e w)) = w_pastes w"
  "w_users (snd (audit_insert_result E c e w)) = w_users w" "w_gate (snd (audit_insert_result E c e w)) = w_gate w"
  "w_tick w \<le> w_tick (snd (audit_insert_result E c e w))"
  by (simp_all add: audit_insert_result_def Let_def le_SucI)

lemma AuditStore_Record_keeps [simp]:
  "w_redis (AuditStore_Record E m c e w) = w_redis w" "w_pastes (AuditStore_Record E m c e w) = w_pastes w"
  "w_users (AuditStore_Record E m c e w) = w_users w" "w_gate (AuditStore_Record E m c e w) = w_gate w"
  "w_tick w \<le> w_tick (AuditStore_Record E m c e w)"
  by (rule AuditStore_Record_cases [of E m c e w]; simp)+

lemma fill_time_id: "\<not> IsZero (ev_At e) \<Longrightarrow> fill_time E e w = (e, w)"
  by (simp add: fill_time_def)

lemma fill_request_info_At: "IsZero (ev_At (fill_request_info c e)) = IsZero (ev_At e)"
  by (simp add: fill_request_info_keeps)

section \<open>Properties\<close>


definition sample_event :: Event where
  "sample_event =
     \<lparr>ev_At = 5, ev_Event = PasteViewed, ev_ActorID = Some 7, ev_PasteID = None, ev_IP = [], ev_UserAgent = [],
      ev_Outcome = OutcomeSuccess, ev_Details = []\<rparr>"


text \<open>
  C22. A request whose user agent is not valid UTF-8 (or contains a NUL) leaves no audit row at all: the
  insert is refused and the event survives only as an error line of the log.
\<close>

theorem audit_lost_on_bad_user_agent:
  assumes "\<not> IsZero (ev_At e)" and "ev_UserAgent e = []" and "\<not> pg_text (ctx_ua c)" and "ctx_ua c \<noteq> []"
  shows "w_audit (AuditStore_Record E minLevel c e w) = w_audit w \<and>
    (minLevel \<le> LevelError \<longrightarrow> length (w_log (AuditStore_Record E minLevel c e w)) = Suc (length (w_log w)))"
proof -
  let ?r = "audit_row E (fill_request_info c e)"
  have ua: "ar_UserAgent ?r = Some (ctx_ua c)"
    using assms(2,4) by (simp add: audit_row_def fill_request_info_def RequestInfo_def nullIfEmpty_def Let_def)
  then have i: "insert_audit ?r w' = (Inl (EPg ''22021''), w')" for w' :: "'a world"
    using assms(3) by (simp add: insert_audit_def)
  then obtain err where "db_call E (insert_audit ?r) w = (Inl err, tick w)"
    by (cases "e_fate E (w_tick w)") (auto simp: db_call_def)
  then show ?thesis
    using assms(1)
    by (auto simp: AuditStore_Record_eq fill_time_id fill_request_info_At Let_def log_at_def)
qed

theorem audit_lost_on_bad_user_agent_witness:
  "w_audit (AuditStore_Record sample_env LevelInfo \<lparr>ctx_ip = ''10.0.0.1'', ctx_ua = [CHR 0xFF]\<rparr>
     sample_event sample_world) = []"
proof -
  have "rune_size (bytes_of [CHR 0xFF]) = 0"
    by (simp add: bytes_of_def rune_size_def lead_size_def)
  then have "\<not> pg_text [CHR 0xFF]"
    using Valid_step [of "bytes_of [CHR 0xFF]"] by (simp add: pg_text_def ValidString_def bytes_of_def)
  then show ?thesis
    using audit_lost_on_bad_user_agent [of sample_event "\<lparr>ctx_ip = ''10.0.0.1'', ctx_ua = [CHR 0xFF]\<rparr>"
        sample_env LevelInfo sample_world]
    by (simp add: sample_event_def IsZero_def zero_time_def sample_world_def)
qed

end
