(* ===== verification/Envelope.thy ===== *)
theory Envelope
  imports Sample
begin

text \<open>
  \<^verbatim>\<open>internal/crypto/envelope.go\<close> and the key derivation of \<^verbatim>\<open>internal/crypto/phc.go\<close>: a body is sealed
  under a fresh data key, which is wrapped under a server key or a password-derived key.
  AES-GCM, Argon2id and the random source are fields of the environment. A created cipher is
  represented by its key, which \<open>newGCM\<close> checks for the key sizes of AES. Overwriting buffers
  with zeros after use is not modelled.
\<close>

section \<open>Key derivation\<close>

record Argon2Params =
  ap_Time :: "32 word"
  ap_MemoryKiB :: "32 word"
  ap_Threads :: "8 word"

definition keyLen :: nat where "keyLen = 32"

text \<open>\<^verbatim>\<open>argon2.IDKey\<close> panics on a zero cost; the deferred release runs in that case too.\<close>

definition DeriveKey ::
  "'r env \<Rightarrow> string \<Rightarrow> bytes \<Rightarrow> Argon2Params \<Rightarrow> ('r world, bytes) op" where
  "DeriveKey E password salt p w =
     (case Acquire (e_select E (w_tick w)) (w_gate w) of
        (Some err, g) \<Rightarrow> (Inl err, (tick w)\<lparr>w_gate := g\<rparr>)
      | (None, g) \<Rightarrow>
          ((if ap_Time p = 0 \<or> ap_Threads p = 0 then Inl (EPanic ''argon2'')
            else Inr (e_argon2 E (bytes_of password) salt (ap_Time p) (ap_MemoryKiB p) (ap_Threads p) keyLen)),
           (tick w)\<lparr>w_gate := release g\<rparr>))"

section \<open>The envelope\<close>

definition envelopeAlgorithm :: string where "envelopeAlgorithm = ''aes256gcm''"
definition envelopeVersion :: int where "envelopeVersion = 1"
definition envelopeNonceLen :: nat where "envelopeNonceLen = 12"
definition envelopeSaltLen :: nat where "envelopeSaltLen = 16"
definition envelopeKeyLen :: nat where "envelopeKeyLen = 32"
definition aes_BlockSize :: nat where "aes_BlockSize = 16"

lemmas envelope_consts = envelopeAlgorithm_def envelopeVersion_def envelopeNonceLen_def
  envelopeSaltLen_def envelopeKeyLen_def aes_BlockSize_def keyLen_def

record Envelope =
  en_keys :: "(string \<times> bytes) list"
  en_active :: string
  en_params :: Argon2Params

definition validateArgon2Params :: "Argon2Params \<Rightarrow> unit res" where
  "validateArgon2Params p =
     (if ap_Time p = 0 \<or> ap_MemoryKiB p = 0 \<or> ap_Threads p = 0
      then Inl (EText ''cost values must be positive'')
      else if ap_MemoryKiB p < 8 * ucast (ap_Threads p)
      then Inl (EText ''memory must be at least 8 KiB per thread'')
      else Inr ())"

fun copy_keys :: "(string \<times> bytes) list \<Rightarrow> (string \<times> bytes) list res" where
  "copy_keys [] = Inr []"
| "copy_keys ((i, key) # ks) =
     (if i = [] then Inl (EText ''crypto: empty master key id'')
      else if length key \<noteq> envelopeKeyLen then Inl (EText ''crypto: master key must be 32 bytes'')
      else case copy_keys ks of Inl e \<Rightarrow> Inl e | Inr c \<Rightarrow> Inr ((i, key) # c))"

definition NewEnvelope ::
  "(string \<times> bytes) list \<Rightarrow> string \<Rightarrow> Gate option \<Rightarrow> Argon2Params \<Rightarrow> Envelope res" where
  "NewEnvelope keys activeID gate params =
     (if keys = [] then Inl (EText ''crypto: no master keys'')
      else if activeID = [] then Inl (EText ''crypto: empty active key id'')
      else case copy_keys keys of
        Inl e \<Rightarrow> Inl e
      | Inr keyCopy \<Rightarrow>
          (if map_of keyCopy activeID = None then Inl (EText ''crypto: active key not in ring'')
           else if gate = None then Inl (EText ''crypto: nil KDF gate'')
           else case validateArgon2Params params of
             Inl e \<Rightarrow> Inl (EWrap ''crypto: invalid KDF parameters'' e)
           | Inr _ \<Rightarrow> Inr \<lparr>en_keys = keyCopy, en_active = activeID, en_params = params\<rparr>))"

definition ActiveKEKID :: "Envelope \<Rightarrow> string" where
  "ActiveKEKID e = en_active e"

definition bodyAAD :: "'r env \<Rightarrow> uuid \<Rightarrow> gtime \<Rightarrow> bytes" where
  "bodyAAD E i expiresAt = bytes_of (e_uuid_String E i @ ''|'' @ Format_RFC3339 expiresAt)"

definition wrapAAD :: "'r env \<Rightarrow> uuid \<Rightarrow> bytes" where
  "wrapAAD E i = bytes_of (e_uuid_String E i)"

definition newGCM :: "bytes \<Rightarrow> bytes res" where
  "newGCM key = (if length key \<in> {16, 24, 32} then Inr key else Inl (EText ''crypto/aes: invalid key size''))"

definition randomBytes :: "'r env \<Rightarrow> nat \<Rightarrow> ('r world, bytes) op" where
  "randomBytes E n w =
     (case e_rand E (w_tick w) n of
        None \<Rightarrow> (Inl (EService ''crypto/rand''), tick w)
      | Some b \<Rightarrow> (Inr b, tick w))"

definition mapKDFError :: "goerr \<Rightarrow> goerr" where
  "mapKDFError e = (if errors_Is e ErrBusy then ErrKDFBusy else e)"

definition validateRecord :: "Envelope \<Rightarrow> EncryptedBody \<Rightarrow> unit res" where
  "validateRecord en r =
     (if eb_Version r \<noteq> envelopeVersion \<or> eb_Alg r \<noteq> envelopeAlgorithm
      then Inl (EText ''crypto: unsupported record'')
      else if length (eb_Nonce r) \<noteq> envelopeNonceLen
      then Inl (EText ''crypto: body nonce must be 12 bytes'')
      else if length (eb_Ciphertext r) < aes_BlockSize
      then Inl (EText ''crypto: body ciphertext is too short'')
      else if length (eb_WrapNonce r) \<noteq> envelopeNonceLen
      then Inl (EText ''crypto: wrap nonce must be 12 bytes'')
      else if length (eb_WrappedDEK r) \<noteq> envelopeKeyLen + aes_BlockSize
      then Inl (EText ''crypto: wrapped DEK has invalid length'')
      else case eb_WrapMode r of
        WrapKEK \<Rightarrow>
          (if eb_KEKID r = [] \<or> eb_KDF r \<noteq> None
           then Inl (EText ''crypto: malformed KEK-wrapped record'') else Inr ())
      | WrapPassword \<Rightarrow>
          (case eb_KDF r of
             None \<Rightarrow> Inl (EText ''crypto: malformed password-wrapped record'')
           | Some k \<Rightarrow>
               (if eb_KEKID r \<noteq> [] then Inl (EText ''crypto: malformed password-wrapped record'')
                else if length (kp_Salt k) \<noteq> envelopeSaltLen
                then Inl (EText ''crypto: KDF salt must be 16 bytes'')
                else
                  (let params = \<lparr>ap_Time = kp_Time k, ap_MemoryKiB = kp_MemoryKiB k, ap_Threads = kp_Threads k\<rparr>
                   in case validateArgon2Params params of
                        Inl e \<Rightarrow> Inl (EWrap ''crypto: invalid stored KDF parameters'' e)
                      | Inr _ \<Rightarrow>
                          (if ap_Time params > ap_Time (en_params en) \<or>
                              ap_MemoryKiB params > ap_MemoryKiB (en_params en) \<or>
                              ap_Threads params > ap_Threads (en_params en)
                           then Inl (EText ''crypto: stored KDF parameters exceed configured budget'')
                           else Inr ()))))
      | WrapOther _ \<Rightarrow> Inl (EText ''crypto: unknown wrap mode''))"

text \<open>The part of \<^verbatim>\<open>Seal\<close> that chooses the wrapping key and completes the record's wrap fields.\<close>

definition seal_wrap_key ::
  "'r env \<Rightarrow> Envelope \<Rightarrow> string \<Rightarrow> EncryptedBody \<Rightarrow> ('r world, EncryptedBody \<times> bytes) op" where
  "seal_wrap_key E en password r =
     (if password = []
      then retR (r\<lparr>eb_WrapMode := WrapKEK, eb_KEKID := en_active en\<rparr>,
                 (case map_of (en_keys en) (en_active en) of None \<Rightarrow> [] | Some k \<Rightarrow> k))
      else
        bindR (mapE (EWrap ''crypto: create KDF salt'') (randomBytes E envelopeSaltLen)) (\<lambda>salt.
        bindR (mapE mapKDFError (DeriveKey E password salt (en_params en))) (\<lambda>derived.
        retR (r\<lparr>eb_WrapMode := WrapPassword,
                eb_KDF := Some \<lparr>kp_Salt = salt, kp_Time = ap_Time (en_params en),
                  kp_MemoryKiB = ap_MemoryKiB (en_params en), kp_Threads = ap_Threads (en_params en)\<rparr>\<rparr>,
              derived))))"

definition Seal ::
  "'r env \<Rightarrow> Envelope \<Rightarrow> uuid \<Rightarrow> gtime \<Rightarrow> bytes \<Rightarrow> string \<Rightarrow> ('r world, EncryptedBody) op" where
  "Seal E en i expiresAt plain password =
     bindR (randomBytes E envelopeKeyLen) (\<lambda>dek.
     bindR (mapE (EWrap ''crypto: create body cipher'') (liftR (newGCM dek))) (\<lambda>bodyAEAD.
     bindR (mapE (EWrap ''crypto: create body nonce'') (randomBytes E envelopeNonceLen)) (\<lambda>bodyNonce.
     bindR (seal_wrap_key E en password
       \<lparr>eb_Version = envelopeVersion, eb_Alg = envelopeAlgorithm, eb_Nonce = bodyNonce,
        eb_Ciphertext = e_gcm_seal E bodyAEAD bodyNonce plain (bodyAAD E i expiresAt),
        eb_WrapMode = WrapOther [], eb_KEKID = [], eb_KDF = None, eb_WrapNonce = [], eb_WrappedDEK = []\<rparr>)
       (\<lambda>(r, wrapKey).
     bindR (mapE (EWrap ''crypto: create wrap cipher'') (liftR (newGCM wrapKey))) (\<lambda>wrapAEAD.
     bindR (mapE (EWrap ''crypto: create wrap nonce'') (randomBytes E envelopeNonceLen)) (\<lambda>wrapNonce.
     retR (r\<lparr>eb_WrapNonce := wrapNonce,
             eb_WrappedDEK := e_gcm_seal E wrapAEAD wrapNonce dek (wrapAAD E i)\<rparr>)))))))"

text \<open>The part of \<^verbatim>\<open>Open\<close> that finds the unwrapping key of a validated record.\<close>

definition open_wrap_key :: "'r env \<Rightarrow> Envelope \<Rightarrow> EncryptedBody \<Rightarrow> string \<Rightarrow> ('r world, bytes) op" where
  "open_wrap_key E en r password =
     (case eb_WrapMode r of
        WrapKEK \<Rightarrow>
          (case map_of (en_keys en) (eb_KEKID r) of None \<Rightarrow> failR ErrKeyUnavailable | Some key \<Rightarrow> retR key)
      | WrapPassword \<Rightarrow>
          (if password = [] then failR ErrPasswordRequired
           else case eb_KDF r of
             None \<Rightarrow> failR (EPanic ''nil dereference'')
           | Some k \<Rightarrow>
               mapE mapKDFError (DeriveKey E password (kp_Salt k)
                 \<lparr>ap_Time = kp_Time k, ap_MemoryKiB = kp_MemoryKiB k, ap_Threads = kp_Threads k\<rparr>))
      | WrapOther _ \<Rightarrow> retR [])"

definition auth_failed :: goerr where
  "auth_failed = EText ''cipher: message authentication failed''"

definition Open ::
  "'r env \<Rightarrow> Envelope \<Rightarrow> uuid \<Rightarrow> gtime \<Rightarrow> EncryptedBody \<Rightarrow> string \<Rightarrow> ('r world, bytes) op" where
  "Open E en i expiresAt r password =
     bindR (liftR (validateRecord en r)) (\<lambda>_.
     bindR (open_wrap_key E en r password) (\<lambda>wrapKey.
     bindR (mapE (EWrap ''crypto: create wrap cipher'') (liftR (newGCM wrapKey))) (\<lambda>wrapAEAD.
     bindR (case e_gcm_open E wrapAEAD (eb_WrapNonce r) (eb_WrappedDEK r) (wrapAAD E i) of
              None \<Rightarrow> failR (if eb_WrapMode r = WrapPassword then ErrWrongPassword
                            else EWrap ''crypto: unwrap DEK'' auth_failed)
            | Some dek \<Rightarrow> retR dek) (\<lambda>dek.
     if length dek \<noteq> envelopeKeyLen then failR (EText ''crypto: unwrapped DEK must be 32 bytes'')
     else
     bindR (mapE (EWrap ''crypto: create body cipher'') (liftR (newGCM dek))) (\<lambda>bodyAEAD.
     case e_gcm_open E bodyAEAD (eb_Nonce r) (eb_Ciphertext r) (bodyAAD E i expiresAt) of
       None \<Rightarrow> failR (EWrap ''crypto: decrypt body'' auth_failed)
     | Some plain \<Rightarrow> retR plain)))))"

section \<open>Lemmas\<close>

text \<open>A constructed envelope has 32-byte keys with non-empty ids, its active key and sane costs.\<close>

definition envelope_ok :: "Envelope \<Rightarrow> bool" where
  "envelope_ok en \<longleftrightarrow>
     (\<forall>(i, key) \<in> set (en_keys en). i \<noteq> [] \<and> length key = envelopeKeyLen) \<and>
     map_of (en_keys en) (en_active en) \<noteq> None \<and>
     validateArgon2Params (en_params en) = Inr ()"

lemma copy_keys_Inr:
  "copy_keys ks = Inr c \<Longrightarrow> c = ks \<and> (\<forall>(i, key) \<in> set ks. i \<noteq> [] \<and> length key = envelopeKeyLen)"
  by (induction ks arbitrary: c rule: copy_keys.induct) (auto split: if_splits sum.splits)

lemma NewEnvelope_ok:
  assumes "NewEnvelope keys active gate params = Inr en"
  shows "envelope_ok en" "en = \<lparr>en_keys = keys, en_active = active, en_params = params\<rparr>" "gate \<noteq> None"
  using assms
  by (auto simp: NewEnvelope_def envelope_ok_def split: if_splits sum.splits dest!: copy_keys_Inr)

lemma envelope_okD:
  assumes "envelope_ok en" and "map_of (en_keys en) i = Some key"
  shows "i \<noteq> []" "length key = envelopeKeyLen"
  using assms map_of_SomeD [OF assms(2)] by (auto simp: envelope_ok_def)

lemma gate_after_DeriveKey [simp]: "w_gate (snd (DeriveKey E pw salt p w)) = w_gate w"
  by (cases "e_select E (w_tick w)" "w_gate w" rule: Acquire_cases)
     (simp_all add: DeriveKey_def release_def)

lemma DeriveKey_Inr:
  "DeriveKey E pw salt p w = (Inr k, w') \<Longrightarrow>
   k = e_argon2 E (bytes_of pw) salt (ap_Time p) (ap_MemoryKiB p) (ap_Threads p) keyLen \<and>
   ap_Time p \<noteq> 0 \<and> ap_Threads p \<noteq> 0"
  by (auto simp: DeriveKey_def split: prod.splits option.splits if_splits)

text \<open>The \<^verbatim>\<open>select\<close> of the next \<open>Acquire\<close> takes a free slot.\<close>

definition slot_free :: "'r env \<Rightarrow> 'r world \<Rightarrow> bool" where
  "slot_free E w \<longleftrightarrow> e_select E (w_tick w) = SelectSlot \<and> g_used (w_gate w) < g_cap (w_gate w)"

lemma DeriveKey_slot_free:
  assumes "slot_free E w" and "ap_Time p \<noteq> 0" and "ap_Threads p \<noteq> 0"
  shows "\<exists>w'. DeriveKey E pw salt p w =
    (Inr (e_argon2 E (bytes_of pw) salt (ap_Time p) (ap_MemoryKiB p) (ap_Threads p) keyLen), w')"
  using assms by (simp add: DeriveKey_def Acquire_def slot_free_def)

lemma gate_after_randomBytes [simp]: "w_gate (snd (randomBytes E n w)) = w_gate w"
  by (simp add: randomBytes_def split: option.splits)

lemma gate_after_Seal: "w_gate (snd (Seal E en i x plain pw w)) = w_gate w"
  unfolding Seal_def seal_wrap_key_def
  by (intro bindR_keeps [where P = w_gate]) (auto intro!: bindR_keeps [where P = w_gate] split: prod.splits)

lemma gate_after_Open: "w_gate (snd (Open E en i x r pw w)) = w_gate w"
  unfolding Open_def open_wrap_key_def
  by (intro bindR_keeps [where P = w_gate])
     (auto intro!: bindR_keeps [where P = w_gate] split: WrapMode.splits option.splits)

section \<open>What sealing and opening establish\<close>

text \<open>
  \<open>sealed_by E i x plain wk r\<close>: the record \<open>r\<close> carries \<open>plain\<close> for paste \<open>i\<close> with expiry \<open>x\<close>, under some
  data key that is wrapped with \<open>wk\<close>.
\<close>

definition sealed_by ::
  "'r env \<Rightarrow> uuid \<Rightarrow> gtime \<Rightarrow> bytes \<Rightarrow> bytes \<Rightarrow> EncryptedBody \<Rightarrow> bool" where
  "sealed_by E i x plain wk r \<longleftrightarrow>
     length wk = envelopeKeyLen \<and>
     (\<exists>dek. length dek = envelopeKeyLen \<and>
        eb_WrappedDEK r = e_gcm_seal E wk (eb_WrapNonce r) dek (wrapAAD E i) \<and>
        eb_Ciphertext r = e_gcm_seal E dek (eb_Nonce r) plain (bodyAAD E i x))"

definition kdf_key :: "'r env \<Rightarrow> string \<Rightarrow> KDFParams \<Rightarrow> bytes" where
  "kdf_key E pw k =
     e_argon2 E (bytes_of pw) (kp_Salt k) (kp_Time k) (kp_MemoryKiB k) (kp_Threads k) keyLen"

definition kdf_of :: "bytes \<Rightarrow> Argon2Params \<Rightarrow> KDFParams" where
  "kdf_of salt p =
     \<lparr>kp_Salt = salt, kp_Time = ap_Time p, kp_MemoryKiB = ap_MemoryKiB p, kp_Threads = ap_Threads p\<rparr>"

lemma Argon2Params_eta [simp]:
  "\<lparr>ap_Time = ap_Time p, ap_MemoryKiB = ap_MemoryKiB p, ap_Threads = ap_Threads p\<rparr> = (p :: Argon2Params)"
  by (cases p) simp

lemma newGCM_32 [simp]: "length k = 32 \<Longrightarrow> newGCM k = Inr k"
  by (simp add: newGCM_def)

lemma newGCM_Inr: "newGCM k = Inr a \<Longrightarrow> a = k"
  by (simp add: newGCM_def split: if_splits)

lemma randomBytes_Inr:
  "crypto_laws E \<Longrightarrow> randomBytes E n w = (Inr b, w') \<Longrightarrow> length b = n"
  by (auto simp: randomBytes_def split: option.splits dest: crypto_lawsD(5))

lemma Seal_KEK:
  assumes "crypto_laws E" and "envelope_ok en" and "Seal E en i x plain [] w = (Inr r, w')"
  shows "eb_WrapMode r = WrapKEK" "eb_KEKID r = en_active en" "eb_KDF r = None"
    "sealed_by E i x plain (the (map_of (en_keys en) (en_active en))) r"
    "validateRecord en r = Inr ()"
proof -
  from assms(2) obtain key where key: "map_of (en_keys en) (en_active en) = Some key"
    by (auto simp: envelope_ok_def)
  note len = envelope_okD [OF assms(2) key]
  from assms(3) key len show "eb_WrapMode r = WrapKEK" "eb_KEKID r = en_active en" "eb_KDF r = None"
    "sealed_by E i x plain (the (map_of (en_keys en) (en_active en))) r"
    "validateRecord en r = Inr ()"
    by (auto simp: Seal_def seal_wrap_key_def bindR_Inr sealed_by_def validateRecord_def envelope_consts
          crypto_lawsD(2) [OF assms(1)] dest!: newGCM_Inr randomBytes_Inr [OF assms(1)])
qed

lemma Seal_password:
  assumes "crypto_laws E" and "envelope_ok en" and "pw \<noteq> []"
    and "Seal E en i x plain pw w = (Inr r, w')"
  obtains salt where "eb_WrapMode r = WrapPassword" "eb_KEKID r = []"
    "eb_KDF r = Some (kdf_of salt (en_params en))" "length salt = envelopeSaltLen"
    "sealed_by E i x plain (kdf_key E pw (kdf_of salt (en_params en))) r"
    "validateRecord en r = Inr ()"
proof -
  from assms(2) have v: "validateArgon2Params (en_params en) = Inr ()"
    by (simp add: envelope_ok_def)
  from assms(3,4) show thesis
    by (auto simp: Seal_def seal_wrap_key_def bindR_Inr sealed_by_def validateRecord_def envelope_consts
          crypto_lawsD(2,3) [OF assms(1)] kdf_key_def kdf_of_def v Let_def
          dest!: newGCM_Inr randomBytes_Inr [OF assms(1)] DeriveKey_Inr
          intro!: that)
qed

lemma Open_Inr_iff:
  assumes "crypto_laws E"
  shows "Open E en i x r pw w = (Inr plain, w') \<longleftrightarrow>
    validateRecord en r = Inr () \<and>
    (\<exists>wk dek. open_wrap_key E en r pw w = (Inr wk, w') \<and> length wk \<in> {16, 24, 32} \<and>
       length dek = envelopeKeyLen \<and>
       eb_WrappedDEK r = e_gcm_seal E wk (eb_WrapNonce r) dek (wrapAAD E i) \<and>
       eb_Ciphertext r = e_gcm_seal E dek (eb_Nonce r) plain (bodyAAD E i x))"
    (is "?L \<longleftrightarrow> ?R")
proof
  assume ?L
  then show ?R
    by (fastforce simp: Open_def bindR_Inr newGCM_def crypto_lawsD(1) [OF assms]
          split: option.splits if_splits)
next
  assume ?R
  then obtain wk dek where *: "validateRecord en r = Inr ()" "open_wrap_key E en r pw w = (Inr wk, w')"
    "newGCM wk = Inr wk" "length dek = envelopeKeyLen" "newGCM dek = Inr dek"
    "e_gcm_open E wk (eb_WrapNonce r) (eb_WrappedDEK r) (wrapAAD E i) = Some dek"
    "e_gcm_open E dek (eb_Nonce r) (eb_Ciphertext r) (bodyAAD E i x) = Some plain"
    by (auto simp: newGCM_def crypto_lawsD(1) [OF assms] envelope_consts)
  then show ?L
    by (simp add: Open_def bindR_def mapE_def)
qed

lemma validateRecord_wider_budget:
  assumes "validateRecord en r = Inr ()"
    and "ap_Time (en_params en) \<le> ap_Time (en_params en')"
    and "ap_MemoryKiB (en_params en) \<le> ap_MemoryKiB (en_params en')"
    and "ap_Threads (en_params en) \<le> ap_Threads (en_params en')"
  shows "validateRecord en' r = Inr ()"
  using assms
  by (auto simp: validateRecord_def Let_def split: if_splits WrapMode.splits option.splits sum.splits)

lemma bodyAAD_same_second: "unix_sec x = unix_sec y \<Longrightarrow> bodyAAD E i x = bodyAAD E i y"
  by (simp add: bodyAAD_def Format_RFC3339_def)

lemma open_wrap_key_KEK:
  "eb_WrapMode r = WrapKEK \<Longrightarrow> map_of (en_keys en) (eb_KEKID r) = Some key \<Longrightarrow>
   open_wrap_key E en r pw w = (Inr key, w)"
  by (simp add: open_wrap_key_def)

lemma open_wrap_key_password:
  assumes "eb_WrapMode r = WrapPassword" and "eb_KDF r = Some k" and "pw \<noteq> []" and "slot_free E w"
    and "kp_Time k \<noteq> 0" and "kp_Threads k \<noteq> 0"
  shows "\<exists>w'. open_wrap_key E en r pw w = (Inr (kdf_key E pw k), w')"
  using assms DeriveKey_slot_free [OF assms(4),
      of "\<lparr>ap_Time = kp_Time k, ap_MemoryKiB = kp_MemoryKiB k, ap_Threads = kp_Threads k\<rparr>" pw "kp_Salt k"]
  by (simp add: open_wrap_key_def kdf_key_def)

lemma validateRecord_KEK:
  "eb_WrapMode r = WrapKEK \<Longrightarrow> validateRecord en r = validateRecord en' r"
  by (simp add: validateRecord_def)

lemma Open_sealed_by:
  assumes "crypto_laws E" and "validateRecord en r = Inr ()"
    and "open_wrap_key E en r pw w = (Inr wk, w')" and "sealed_by E i x plain wk r"
    and "unix_sec y = unix_sec x"
  shows "Open E en i y r pw w = (Inr plain, w')"
proof -
  from assms(4) obtain dek where "length wk = 32" "length dek = envelopeKeyLen"
    "eb_WrappedDEK r = e_gcm_seal E wk (eb_WrapNonce r) dek (wrapAAD E i)"
    "eb_Ciphertext r = e_gcm_seal E dek (eb_Nonce r) plain (bodyAAD E i y)"
    using bodyAAD_same_second [OF assms(5), of E i] by (auto simp: sealed_by_def envelope_consts)
  with assms(2,3) show ?thesis
    by (subst Open_Inr_iff [OF assms(1)]) auto
qed

section \<open>Properties\<close>

definition sample_params :: Argon2Params where
  "sample_params = \<lparr>ap_Time = 3, ap_MemoryKiB = 32768, ap_Threads = 2\<rparr>"

definition sample_envelope :: Envelope where
  "sample_envelope =
     \<lparr>en_keys = [(''k1'', replicate 32 7)], en_active = ''k1'', en_params = sample_params\<rparr>"

lemma sample_envelope_ok: "envelope_ok sample_envelope"
  by (simp add: envelope_ok_def sample_envelope_def sample_params_def validateArgon2Params_def envelope_consts)

lemma sample_seal_ok:
  "\<exists>r w. Seal sample_env sample_envelope 1 x plain pw sample_world = (Inr r, w) \<and> slot_free sample_env w"
  by (cases "pw = []")
     (simp_all add: Seal_def seal_wrap_key_def bindR_def mapE_def randomBytes_def sample_env_def
        envelope_consts sample_envelope_def DeriveKey_def Acquire_def sample_world_def NewGate_def
        newGCM_def sample_params_def release_def slot_free_def tick_def)

text \<open>
  C13. A body sealed without a password is opened again, for the same paste, to the same bytes:
  at any later time, whatever password is presented, by any envelope whose key ring still
  holds the key the body was wrapped with, also after the active key was rotated. The expiry
  passed to \<^verbatim>\<open>Open\<close> need only agree to the second, so the rounding of the database column does no harm.
\<close>

theorem seal_open_server_key:
  assumes "crypto_laws E" and "envelope_ok en"
    and "Seal E en i x plain [] w = (Inr r, w1)"
    and "map_of (en_keys en') (en_active en) = map_of (en_keys en) (en_active en)"
    and "unix_sec y = unix_sec x"
  shows "Open E en' i y r pw w2 = (Inr plain, w2)"
proof -
  note s = Seal_KEK [OF assms(1-3)]
  from assms(2) obtain key where key: "map_of (en_keys en) (en_active en) = Some key"
    by (auto simp: envelope_ok_def)
  have "open_wrap_key E en' r pw w2 = (Inr key, w2)"
    using s(1,2) key assms(4) by (intro open_wrap_key_KEK) simp_all
  moreover have "validateRecord en' r = Inr ()"
    using s(5) validateRecord_KEK [OF s(1)] by metis
  ultimately show ?thesis
    using s(4) key Open_sealed_by [OF assms(1) _ _ _ assms(5)] by simp
qed

theorem seal_open_server_key_witness:
  "\<exists>r w. Seal sample_env sample_envelope 1 1500000000 [1, 2, 3] [] sample_world = (Inr r, w) \<and>
     Open sample_env sample_envelope 1 1000000000 r ''x'' w = (Inr [1, 2, 3], w)"
proof -
  obtain r w where s: "Seal sample_env sample_envelope 1 1500000000 [1, 2, 3] [] sample_world = (Inr r, w)"
    using sample_seal_ok by blast
  have "unix_sec 1000000000 = unix_sec 1500000000" by (simp add: unix_sec_def)
  with s show ?thesis
    using seal_open_server_key [OF sample_laws(2) sample_envelope_ok s refl] by blast
qed

text \<open>
  C12. A body sealed with a password is opened with the same password to the same bytes, by any
  envelope whose cost budget is at least the sealing one's, whenever the key-derivation gate
  grants a slot. The key ring plays no part.
\<close>

theorem seal_open_password:
  assumes "crypto_laws E" and "envelope_ok en" and "pw \<noteq> []"
    and "Seal E en i x plain pw w = (Inr r, w1)"
    and "ap_Time (en_params en) \<le> ap_Time (en_params en')"
    and "ap_MemoryKiB (en_params en) \<le> ap_MemoryKiB (en_params en')"
    and "ap_Threads (en_params en) \<le> ap_Threads (en_params en')"
    and "unix_sec y = unix_sec x" and "slot_free E w2"
  shows "\<exists>w3. Open E en' i y r pw w2 = (Inr plain, w3) \<and> w_gate w3 = w_gate w2"
proof -
  obtain salt where s: "eb_WrapMode r = WrapPassword" "eb_KDF r = Some (kdf_of salt (en_params en))"
    "sealed_by E i x plain (kdf_key E pw (kdf_of salt (en_params en))) r" "validateRecord en r = Inr ()"
    using Seal_password [OF assms(1-4)] by metis
  have "validateArgon2Params (en_params en) = Inr ()"
    using assms(2) by (simp add: envelope_ok_def)
  then have "kp_Time (kdf_of salt (en_params en)) \<noteq> 0" "kp_Threads (kdf_of salt (en_params en)) \<noteq> 0"
    by (auto simp: validateArgon2Params_def kdf_of_def split: if_splits)
  then obtain w3 where k: "open_wrap_key E en' r pw w2 = (Inr (kdf_key E pw (kdf_of salt (en_params en))), w3)"
    using open_wrap_key_password [OF s(1,2) assms(3,9)] by blast
  have "Open E en' i y r pw w2 = (Inr plain, w3)"
    using Open_sealed_by [OF assms(1) validateRecord_wider_budget [OF s(4) assms(5-7)] k s(3) assms(8)] .
  then show ?thesis
    using gate_after_Open [of E en' i y r pw w2] by simp
qed

theorem seal_open_password_witness:
  "\<exists>r w w'. Seal sample_env sample_envelope 1 0 [1, 2, 3] ''pw'' sample_world = (Inr r, w) \<and>
     Open sample_env sample_envelope 1 0 r ''pw'' w = (Inr [1, 2, 3], w')"
proof -
  obtain r w where s: "Seal sample_env sample_envelope 1 0 [1, 2, 3] ''pw'' sample_world = (Inr r, w)"
    and f: "slot_free sample_env w"
    using sample_seal_ok by blast
  show ?thesis
    using seal_open_password [OF sample_laws(2) sample_envelope_ok _ s order_refl order_refl order_refl refl f] s
    by auto
qed



text \<open>
  A record sealed with a password holds no wrap under a server key. Its key id is empty, and
  without a password no envelope, whatever keys it has, opens it.
\<close>

lemma password_record_needs_password:
  assumes "crypto_laws E" and "envelope_ok en" and "pw \<noteq> []"
    and "Seal E en i x plain pw w = (Inr r, w1)"
  shows "eb_KEKID r = [] \<and> (\<forall>en' j y w2 b w3. Open E en' j y r [] w2 \<noteq> (Inr b, w3))"
proof -
  obtain salt where "eb_WrapMode r = WrapPassword" "eb_KEKID r = []"
    using Seal_password [OF assms] by metis
  then show ?thesis
    by (auto simp: Open_Inr_iff [OF assms(1)] open_wrap_key_def)
qed

text \<open>
  C15. A stored record cannot make the server spend more on key derivation than it is configured
  for. When a stored cost exceeds the budget, \<^verbatim>\<open>Open\<close> fails and neither the gate nor anything else
  outside is touched.
\<close>

theorem open_respects_budget:
  assumes "eb_WrapMode r = WrapPassword" and "eb_KDF r = Some k"
    and "ap_Time (en_params en) < kp_Time k \<or> ap_MemoryKiB (en_params en) < kp_MemoryKiB k \<or>
         ap_Threads (en_params en) < kp_Threads k"
  shows "\<exists>e. Open E en i x r pw w = (Inl e, w)"
proof -
  have "\<exists>e. validateRecord en r = Inl e"
    using assms by (auto simp: validateRecord_def Let_def split: sum.splits)
  then show ?thesis
    by (auto simp: Open_def bindR_def)
qed

definition costly_record :: EncryptedBody where
  "costly_record =
     \<lparr>eb_Version = 1, eb_Alg = ''aes256gcm'', eb_Nonce = replicate 12 0, eb_Ciphertext = replicate 16 0,
      eb_WrapMode = WrapPassword, eb_KEKID = [],
      eb_KDF = Some \<lparr>kp_Salt = replicate 16 0, kp_Time = 3, kp_MemoryKiB = 4000000, kp_Threads = 2\<rparr>,
      eb_WrapNonce = replicate 12 0, eb_WrappedDEK = replicate 48 0\<rparr>"

theorem open_respects_budget_witness:
  "\<exists>e. Open sample_env sample_envelope 1 0 costly_record ''pw'' sample_world = (Inl e, sample_world)"
  by (rule open_respects_budget [where k = "the (eb_KDF costly_record)"])
     (simp_all add: costly_record_def sample_envelope_def sample_params_def)

end
