(* ===== verification/Live.thy ===== *)
theory Live
  imports ServiceLaws BodyStore PasteStore AuditStore Envelope
begin

text \<open>
  The paste service over the repository's own ports: bodies in Redis, metadata and audit events in
  Postgres, the AES-GCM envelope, the log and audit sinks. The contracts of \<open>Ports\<close> hold of them
  together, so what \<open>ServiceLaws\<close> proves holds of the assembled program.
\<close>

section \<open>The assembled service\<close>

definition NewEnvelopePort :: "'r env \<Rightarrow> Envelope \<Rightarrow> 'r world EnvelopePort" where
  "NewEnvelopePort E en = \<lparr>es_Seal = Seal E en, es_Open = Open E en, es_ActiveKEKID = ActiveKEKID en\<rparr>"

record live_config =
  lc_envelope :: Envelope
  lc_level :: log_level
  lc_base :: string
  lc_limits :: Limits

text \<open>\<^verbatim>\<open>NewService\<close> with the ports of the repository; the clock is \<^verbatim>\<open>time.Now().UTC()\<close>.\<close>

definition live_deps :: "'r env \<Rightarrow> live_config \<Rightarrow> 'r world Deps" where
  "live_deps E l =
     \<lparr>d_Bodies = NewBodyStore E, d_Metas = NewPasteStore E, d_Envelope = NewEnvelopePort E (lc_envelope l),
      d_Audit = Some (Multi_Record [logSink_Record E (lc_level l), AuditStore_Record E (lc_level l)]),
      d_Now = clock_Now E, d_BaseURL = lc_base l, d_Limits = lc_limits l,
      d_uuid_New = (\<lambda>w. (e_uuid_New E (w_tick w), tick w)), d_uuid_String = e_uuid_String E,
      d_sha256 = e_sha256 E\<rparr>"

definition live_ok :: "'r env \<Rightarrow> live_config \<Rightarrow> 'r world \<Rightarrow> bool" where
  "live_ok E l w \<longleftrightarrow> world_ok E w \<and> envelope_ok (lc_envelope l) \<and> ValidString (en_active (lc_envelope l))"

section \<open>Silent steps\<close>

text \<open>A step that changes nothing but the interaction counter.\<close>

definition silent :: "'r world \<Rightarrow> 'r world \<Rightarrow> bool" where
  "silent w w' \<longleftrightarrow> (\<exists>n \<ge> w_tick w. w' = w\<lparr>w_tick := n\<rparr>)"

lemma silent_simps [simp]: "silent w w" "silent w (tick w)"
proof -
  have "w = w\<lparr>w_tick := w_tick w\<rparr>" by simp
  then show "silent w w" unfolding silent_def by blast
  show "silent w (tick w)" unfolding silent_def tick_def by (intro exI [of _ "Suc (w_tick w)"]) simp
qed

lemma silent_trans:
  assumes "silent a b" and "silent b c"
  shows "silent a c"
proof -
  from assms obtain m n where "w_tick a \<le> m" "b = a\<lparr>w_tick := m\<rparr>" "m \<le> n" "c = b\<lparr>w_tick := n\<rparr>"
    by (auto simp: silent_def)
  then show ?thesis unfolding silent_def by (intro exI [of _ n]) simp
qed

lemma bindR_silent:
  assumes "\<And>w. silent w (snd (m w))" and "\<And>x w. silent w (snd (k x w))"
  shows "silent w (snd (bindR m k w))"
proof (cases "m w")
  case (Pair a w1)
  with assms(1) [of w] have "silent w w1" by simp
  with Pair silent_trans [OF _ assms(2)] show ?thesis
    by (cases a) (auto simp: bindR_def)
qed

lemma randomBytes_silent: "silent w (snd (randomBytes E n w))"
  by (simp add: randomBytes_def split: option.splits)

lemma DeriveKey_silent: "silent w (snd (DeriveKey E pw salt p w))"
proof (cases "e_select E (w_tick w)" "w_gate w" rule: Acquire_cases)
  case slot
  have "snd (DeriveKey E pw salt p w) = tick w"
    using slot by (simp add: DeriveKey_def release_def tick_def)
  then show ?thesis by simp
next
  case (failed e)
  have "snd (DeriveKey E pw salt p w) = tick w"
    using failed by (simp add: DeriveKey_def tick_def)
  then show ?thesis by simp
qed

lemmas envelope_silent = randomBytes_silent DeriveKey_silent

lemma Seal_silent: "silent w (snd (Seal E en i x plain pw w))"
  unfolding Seal_def seal_wrap_key_def
  by (intro bindR_silent) (auto intro!: bindR_silent envelope_silent split: prod.splits)

lemma Open_silent: "silent w (snd (Open E en i x r pw w))"
  unfolding Open_def open_wrap_key_def
  by (intro bindR_silent) (auto intro!: bindR_silent envelope_silent split: WrapMode.splits option.splits)

lemma silentD:
  assumes "silent w w'"
  shows "w_redis w' = w_redis w" "w_pastes w' = w_pastes w" "w_users w' = w_users w" "w_audit w' = w_audit w"
    "w_log w' = w_log w" "w_gate w' = w_gate w" "w_tick w \<le> w_tick w'"
  using assms by (auto simp: silent_def)

lemma healthy_silent: "healthy E w \<Longrightarrow> silent w w' \<Longrightarrow> healthy E w'"
  by (rule healthy_later) (simp_all add: silentD)

section \<open>The envelope keeps its contract\<close>

lemma ValidString_Algorithm: "ValidString envelopeAlgorithm"
  by (simp add: envelopeAlgorithm_def ValidString_def bytes_of_def Valid_step rune_size_def lead_size_def)

lemma validateRecord_Inr:
  "validateRecord en r = Inr () \<Longrightarrow> eb_Version r = 1 \<and> eb_Alg r = envelopeAlgorithm"
  by (simp add: validateRecord_def envelopeVersion_def split: if_splits)

text \<open>What a sealed record is, for either way of wrapping.\<close>

lemma Seal_record:
  assumes "crypto_laws E" and "envelope_ok en" and "Seal E en i x plain pw w = (Inr r, w')"
  obtains (key) "pw = []" "eb_WrapMode r = WrapKEK" "eb_KEKID r = en_active en" "validateRecord en r = Inr ()"
      "sealed_by E i x plain (the (map_of (en_keys en) (en_active en))) r" "map_of (en_keys en) (en_active en) \<noteq> None"
  | (password) k where "pw \<noteq> []" "eb_WrapMode r = WrapPassword" "eb_KEKID r = []" "validateRecord en r = Inr ()"
      "eb_KDF r = Some k" "kp_Time k \<noteq> 0" "kp_Threads k \<noteq> 0" "sealed_by E i x plain (kdf_key E pw k) r"
proof (cases "pw = []")
  case True
  with assms show thesis
    using key Seal_KEK [OF assms(1,2), of i x plain w r w'] by (auto simp: envelope_ok_def)
next
  case False
  obtain salt where s: "eb_WrapMode r = WrapPassword" "eb_KEKID r = []"
    "eb_KDF r = Some (kdf_of salt (en_params en))" "validateRecord en r = Inr ()"
    "sealed_by E i x plain (kdf_key E pw (kdf_of salt (en_params en))) r"
    using Seal_password [OF assms(1,2) False assms(3)] by metis
  have "kp_Time (kdf_of salt (en_params en)) \<noteq> 0" "kp_Threads (kdf_of salt (en_params en)) \<noteq> 0"
    using assms(2) by (auto simp: envelope_ok_def validateArgon2Params_def kdf_of_def split: if_splits)
  with s False show thesis using password by blast
qed

lemma Seal_storable:
  assumes "crypto_laws E" and "envelope_ok en" and "ValidString (en_active en)"
    and "Seal E en i x plain pw w = (Inr r, w')"
  shows "storable r" "eb_KEKID r = (if pw = [] then ActiveKEKID en else [])"
proof -
  have nil: "ValidString []" by (simp add: ValidString_def bytes_of_def Valid.simps)
  show "storable r"
    using assms(1,2,4)
    by (cases rule: Seal_record)
      (use validateRecord_Inr [of en r] assms(3) nil in \<open>auto simp: storable_def in64_def ValidString_Algorithm\<close>)
  show "eb_KEKID r = (if pw = [] then ActiveKEKID en else [])"
    using assms(1,2,4) by (cases rule: Seal_record) (simp_all add: ActiveKEKID_def)
qed

lemma Open_of_Seal:
  assumes "crypto_laws E" and "envelope_ok en" and "Seal E en i x plain pw w = (Inr r, w')"
    and "unix_sec y = unix_sec x" and "Open E en i y r pw u = (Inr q, u')"
  shows "q = plain"
  using assms(1-3)
proof (cases rule: Seal_record)
  case key
  then have "open_wrap_key E en r pw u = (Inr (the (map_of (en_keys en) (en_active en))), u)"
    by (auto simp: open_wrap_key_def)
  from Open_sealed_by [OF assms(1) key(4) this key(5) assms(4)] assms(5) show ?thesis by simp
next
  case (password k)
  from assms(5) obtain wk where wk: "open_wrap_key E en r pw u = (Inr wk, u')"
    unfolding Open_Inr_iff [OF assms(1)] by blast
  then have "wk = kdf_key E pw k"
    using password by (auto simp: open_wrap_key_def kdf_key_def dest!: DeriveKey_Inr)
  from Open_sealed_by [OF assms(1) password(4) wk [unfolded this] password(8) assms(4)] assms(5) show ?thesis by simp
qed

lemma Open_of_Seal_healthy:
  assumes "crypto_laws E" and "envelope_ok en" and "Seal E en i x plain pw w = (Inr r, w')"
    and "unix_sec y = unix_sec x" and "healthy E u"
  shows "\<exists>u'. Open E en i y r pw u = (Inr plain, u') \<and> healthy E u'"
proof -
  have "\<exists>u'. Open E en i y r pw u = (Inr plain, u')"
    using assms(1-3)
  proof (cases rule: Seal_record)
    case key
    then have "open_wrap_key E en r pw u = (Inr (the (map_of (en_keys en) (en_active en))), u)"
      by (auto simp: open_wrap_key_def)
    from Open_sealed_by [OF assms(1) key(4) this key(5) assms(4)] show ?thesis by blast
  next
    case (password k)
    have "slot_free E u" using assms(5) by (simp add: healthy_def slot_free_def)
    from open_wrap_key_password [OF password(2,5,1) this password(6,7)] obtain u' where
      "open_wrap_key E en r pw u = (Inr (kdf_key E pw k), u')" by blast
    from Open_sealed_by [OF assms(1) password(4) this password(8) assms(4)] show ?thesis by blast
  qed
  then show ?thesis
    using healthy_silent [OF assms(5) Open_silent [of u E en i y r pw]] by auto
qed

lemma Open_without_password:
  assumes "crypto_laws E" and "envelope_ok en" and "Seal E en i x plain pw w = (Inr r, w')" and "pw \<noteq> []"
  shows "Open E en i y r [] u = (Inl ErrPasswordRequired, u)"
  using assms(1-3)
  by (cases rule: Seal_record) (use assms(4) in \<open>simp_all add: Open_def bindR_def open_wrap_key_def\<close>)

lemma randomBytes_healthy:
  assumes "crypto_laws E" and "healthy E w"
  shows "\<exists>b w'. randomBytes E n w = (Inr b, w') \<and> length b = n \<and> healthy E w'"
  using healthy_now(3) [OF assms(2), of n] crypto_lawsD(5) [OF assms(1)] healthy_tick [OF assms(2)]
  by (auto simp: randomBytes_def)

lemma Seal_healthy:
  assumes "crypto_laws E" and "envelope_ok en" and "healthy E w"
  shows "\<exists>r w'. Seal E en i x plain pw w = (Inr r, w') \<and> healthy E w'"
proof -
  obtain dek w1 where 1: "randomBytes E envelopeKeyLen w = (Inr dek, w1)" "length dek = 32" "healthy E w1"
    using randomBytes_healthy [OF assms(1,3), of envelopeKeyLen] by (auto simp: envelopeKeyLen_def)
  obtain nonce w2 where 2: "randomBytes E envelopeNonceLen w1 = (Inr nonce, w2)" "healthy E w2"
    using randomBytes_healthy [OF assms(1) 1(3)] by blast
  have "\<exists>r k w3. seal_wrap_key E en pw r0 w2 = (Inr (r, k), w3) \<and> length k = 32 \<and> healthy E w3" for r0
  proof (cases "pw = []")
    case True
    from assms(2) obtain key where "map_of (en_keys en) (en_active en) = Some key"
      by (auto simp: envelope_ok_def)
    with True envelope_okD(2) [OF assms(2) this] 2 show ?thesis
      by (simp add: seal_wrap_key_def envelopeKeyLen_def)
  next
    case False
    obtain salt w3 where 3: "randomBytes E envelopeSaltLen w2 = (Inr salt, w3)" "healthy E w3"
      using randomBytes_healthy [OF assms(1) 2(2)] by blast
    have "slot_free E w3" using 3(2) by (simp add: healthy_def slot_free_def)
    moreover have "ap_Time (en_params en) \<noteq> 0" "ap_Threads (en_params en) \<noteq> 0"
      using assms(2) by (auto simp: envelope_ok_def validateArgon2Params_def split: if_splits)
    ultimately obtain w4 where 4: "DeriveKey E pw salt (en_params en) w3 =
        (Inr (e_argon2 E (bytes_of pw) salt (ap_Time (en_params en)) (ap_MemoryKiB (en_params en))
           (ap_Threads (en_params en)) keyLen), w4)"
      using DeriveKey_slot_free by blast
    then have "healthy E w4"
      using healthy_silent [OF 3(2) DeriveKey_silent [of w3 E pw salt "en_params en"]] by simp
    with False 3 4 show ?thesis
      by (simp add: seal_wrap_key_def bindR_def mapE_def crypto_lawsD(3) [OF assms(1)] keyLen_def)
  qed
  note wrap = this
  define r0 where "r0 = \<lparr>eb_Version = envelopeVersion, eb_Alg = envelopeAlgorithm, eb_Nonce = nonce,
        eb_Ciphertext = e_gcm_seal E dek nonce plain (bodyAAD E i x),
        eb_WrapMode = WrapOther [], eb_KEKID = [], eb_KDF = None, eb_WrapNonce = [], eb_WrappedDEK = []\<rparr>"
  obtain r k w3 where 3: "seal_wrap_key E en pw r0 w2 = (Inr (r, k), w3)" "length k = 32" "healthy E w3"
    using wrap [of r0] by blast
  obtain wn w4 where 4: "randomBytes E envelopeNonceLen w3 = (Inr wn, w4)" "healthy E w4"
    using randomBytes_healthy [OF assms(1) 3(3)] by blast
  have "Seal E en i x plain pw w =
      (Inr (r\<lparr>eb_WrapNonce := wn, eb_WrappedDEK := e_gcm_seal E k wn dek (wrapAAD E i)\<rparr>), w4)"
    using 1 2 3 4 by (simp add: Seal_def bindR_def mapE_def r0_def [symmetric])
  with 4 show ?thesis by blast
qed

lemma envelope_contract:
  "envelope_port (NewEnvelopePort E (lc_envelope l)) (live_ok E l) (healthy E)"
proof (unfold_locales, unfold NewEnvelopePort_def EnvelopePort.simps)
  fix w :: "'a world" and i x p pw r w'
  assume ok: "live_ok E l w"
  then have E: "crypto_laws E" "envelope_ok (lc_envelope l)" "ValidString (en_active (lc_envelope l))"
    by (auto simp: live_ok_def dest: world_okD(1) env_lawsD(2))
  show "storable r" if "Seal E (lc_envelope l) i x p pw w = (Inr r, w')"
    using Seal_storable(1) [OF E that] .
  show "eb_KEKID r = (if pw = [] then ActiveKEKID (lc_envelope l) else [])"
    if "Seal E (lc_envelope l) i x p pw w = (Inr r, w')"
    using Seal_storable(2) [OF E that] .
  show "q = p" if "Seal E (lc_envelope l) i x p pw w = (Inr r, w')" "unix_sec y = unix_sec x"
    "Open E (lc_envelope l) i y r pw u = (Inr q, u')" for y u q u'
    using Open_of_Seal [OF E(1,2) that] .
  show "Open E (lc_envelope l) i y r [] u = (Inl ErrPasswordRequired, u)"
    if "Seal E (lc_envelope l) i x p pw w = (Inr r, w')" "pw \<noteq> []" for y u
    using Open_without_password [OF E(1,2) that] .
  show "\<exists>u'. Open E (lc_envelope l) i y r pw u = (Inr p, u') \<and> healthy E u'"
    if "Seal E (lc_envelope l) i x p pw w = (Inr r, w')" "unix_sec y = unix_sec x" "healthy E u" for y u
    using Open_of_Seal_healthy [OF E(1,2) that] .
  show "\<exists>r s'. Seal E (lc_envelope l) i x p pw w = (Inr r, s') \<and> healthy E s'" if "healthy E w"
    using Seal_healthy [OF E(1,2) that] .
qed

section \<open>The ports work side by side\<close>

text \<open>A contract that holds in sound states holds in the sound states with a further property.\<close>

lemma body_store_and:
  "body_store B held now sound fine \<Longrightarrow> body_store B held now (\<lambda>s. sound s \<and> P) fine"
  by (auto simp: body_store_def)

lemma meta_store_and:
  "meta_store M row stored sound fine \<Longrightarrow> meta_store M row stored (\<lambda>s. sound s \<and> P) fine"
  by (auto simp: meta_store_def)

lemma live_ok_eq:
  "live_ok E l = (\<lambda>w. world_ok E w \<and> (envelope_ok (lc_envelope l) \<and> ValidString (en_active (lc_envelope l))))"
  by (simp add: live_ok_def fun_eq_iff)

lemma live_neutral:
  assumes "w_redis w' = w_redis w" and "w_pastes w' = w_pastes w" and "w_users w' = w_users w"
    and "w_gate w' = w_gate w" and "w_tick w \<le> w_tick w'"
  shows "neutral (body_held E) paste_row (rnow E) (live_ok E l) (healthy E) w_tick w w'"
proof -
  have "live_ok E l w \<Longrightarrow> rnow E w \<le> rnow E w'"
    using assms(5) by (auto simp: live_ok_def intro: rnow_mono dest: world_okD(1))
  moreover have "live_ok E l w = live_ok E l w'"
    by (simp add: live_ok_def world_ok_cong [OF assms(3,2)])
  ultimately show ?thesis
    using assms healthy_later [of E w w']
    by (simp add: neutral_def body_held_def paste_row_def fun_eq_iff)
qed

lemma silent_neutral:
  "silent w w' \<Longrightarrow> neutral (body_held E) paste_row (rnow E) (live_ok E l) (healthy E) w_tick w w'"
  by (intro live_neutral) (simp_all add: silentD)

lemma unix_sec_pg_time: "pg_time_laws E \<Longrightarrow> unix_sec (e_pg_time E t) = unix_sec t"
proof -
  have "(t - t mod 1000) div 1000000000 = t div 1000000000"
    using zdiv_zmult2_eq [of 1000000 "t - t mod 1000" 1000] zdiv_zmult2_eq [of 1000000 t 1000]
    by (simp add: minus_mod_eq_div_mult)
  then show "pg_time_laws E \<Longrightarrow> unix_sec (e_pg_time E t) = unix_sec t"
    by (simp add: pg_time_laws_def unix_sec_def)
qed

lemma Get_silent: "silent w (snd (BodyStore_Get E i w))"
proof -
  have "snd (BodyStore_Get E i w) = tick w"
    by (auto simp: BodyStore_Get_def bindR_def mapE_def redis_call_def tick_def Let_def
        split: fate.splits option.splits)
  then show ?thesis by simp
qed

interpretation live: paste_ports "live_deps E l" "body_held E" "rnow E" "live_ok E l" "healthy E" paste_row
  "e_pg_time E" w_tick "e_clock E" for E l
proof -
  have B: "body_store (d_Bodies (live_deps E l)) (body_held E) (rnow E) (live_ok E l) (healthy E)"
    unfolding live_ok_eq live_deps_def Deps.simps by (intro body_store_and redis_bodies.body_store_axioms)
  have M: "meta_store (d_Metas (live_deps E l)) paste_row (e_pg_time E) (live_ok E l) (healthy E)"
    unfolding live_ok_eq live_deps_def Deps.simps by (intro meta_store_and pg_metas.meta_store_axioms)
  have V: "envelope_port (d_Envelope (live_deps E l)) (live_ok E l) (healthy E)"
    unfolding live_deps_def Deps.simps by (rule envelope_contract)
  show "paste_ports (live_deps E l) (body_held E) (rnow E) (live_ok E l) (healthy E) paste_row (e_pg_time E) w_tick (e_clock E)"
  proof (intro paste_ports.intro B M V paste_ports_axioms.intro, unfold live_deps_def Deps.simps NewBodyStore_def
      BodyStore.simps NewPasteStore_def MetaStore.simps NewEnvelopePort_def EnvelopePort.simps)
    fix w :: "'a world" and t
    show "unix_sec (e_pg_time E t) = unix_sec t" if "live_ok E l w"
      using that unix_sec_pg_time by (auto simp: live_ok_def dest!: world_okD(1) env_lawsD(4))
    show "neutral (body_held E) paste_row (rnow E) (live_ok E l) (healthy E) w_tick w (f c e w)"
      if "Some (Multi_Record [logSink_Record E (lc_level l), AuditStore_Record E (lc_level l)]) = Some f" for f c e
      using that by (auto intro!: live_neutral intro: le_trans [OF logSink_keeps(6) AuditStore_Record_keeps(5)])
    show "rnow E w \<le> rnow E (snd (PasteStore_Create E m w))" "rnow E w \<le> rnow E (snd (PasteStore_IncrementViews E i w))"
      "rnow E w \<le> rnow E (snd (PasteStore_MarkDeleted E i u t w))" if "live_ok E l w" for m i u t
      using that by (auto simp: live_ok_def intro!: rnow_mono dest: world_okD(1))
  qed (auto intro!: silent_neutral Seal_silent Open_silent Get_silent live_neutral
      simp: clock_Now_def Get_row(3) body_ops_tick paste_row_def body_held_def fun_eq_iff)
qed

text \<open>A sample configuration.\<close>

definition sample_live :: live_config where
  "sample_live =
     \<lparr>lc_envelope = sample_envelope, lc_level = LevelInfo, lc_base = ''http://p/'',
      lc_limits = \<lparr>li_MaxSize = 1000, li_TTLDefault = 60, li_TTLMin = 1, li_TTLMax = 86400\<rparr>\<rparr>"

end
