(* ===== verification/PasteProps.thy ===== *)
theory PasteProps
  imports Live
begin

text \<open>
  The properties of the assembled paste service: what is created can be read until it expires, nothing
  is released late or to the wrong caller, deletion is final, a failed creation leaves no body.
\<close>

section \<open>When everything outside works\<close>

lemma live_deps_simps [simp]:
  "d_Bodies (live_deps E l) = NewBodyStore E" "d_Metas (live_deps E l) = NewPasteStore E"
  "d_Envelope (live_deps E l) = NewEnvelopePort E (lc_envelope l)" "d_Now (live_deps E l) = clock_Now E"
  "d_Limits (live_deps E l) = lc_limits l" "d_sha256 (live_deps E l) = e_sha256 E"
  "d_uuid_New (live_deps E l) = (\<lambda>w. (e_uuid_New E (w_tick w), tick w))"
  by (simp_all add: live_deps_def)

lemma store_simps [simp]:
  "ms_Create (NewPasteStore E) = PasteStore_Create E" "ms_Get (NewPasteStore E) = PasteStore_Get E"
  "ms_ListByOwner (NewPasteStore E) = PasteStore_ListByOwner E" "ms_ListAll (NewPasteStore E) = PasteStore_ListAll E"
  "ms_MarkDeleted (NewPasteStore E) = PasteStore_MarkDeleted E"
  "bs_Put (NewBodyStore E) = BodyStore_Put E" "bs_Get (NewBodyStore E) = BodyStore_Get E"
  "bs_Delete (NewBodyStore E) = BodyStore_Delete E"
  "es_Seal (NewEnvelopePort E en) = Seal E en" "es_Open (NewEnvelopePort E en) = Open E en"
  by (simp_all add: NewPasteStore_def NewBodyStore_def NewEnvelopePort_def)

lemma clock_Now_simps [simp]: "fst (clock_Now E w) = e_clock E (w_tick w)" "snd (clock_Now E w) = tick w"
  by (simp_all add: clock_Now_def)

text \<open>The lifetime \<open>Create\<close> uses, and the inputs it accepts.\<close>

definition chosen_ttl :: "live_config \<Rightarrow> CreateInput \<Rightarrow> int" where
  "chosen_ttl l inp = (if ci_TTLSeconds inp = 0 then li_TTLDefault (lc_limits l) else ci_TTLSeconds inp)"

definition acceptable :: "live_config \<Rightarrow> CreateInput \<Rightarrow> bool" where
  "acceptable l inp \<longleftrightarrow>
     li_TTLMin (lc_limits l) \<le> chosen_ttl l inp \<and> chosen_ttl l inp \<le> li_TTLMax (lc_limits l) \<and>
     ValidString (ci_Password inp) \<and> (ci_Password inp = [] \<or> RuneCountInString (ci_Password inp) \<le> 128) \<and>
     (\<exists>b. Canonicalize (ci_Content inp) (li_MaxSize (lc_limits l)) = Inr b)"

lemma create_eq:
  assumes "acceptable l inp" and "Canonicalize (ci_Content inp) (li_MaxSize (lc_limits l)) = Inr b"
  shows "service_Create (live_deps E l) c p inp w =
    (let i = e_uuid_New E (Suc (w_tick w));
         m = create_meta (live_deps E l) p (ci_Password inp) (chosen_ttl l inp) b (e_clock E (w_tick w)) i
     in bindR (Seal E (lc_envelope l) i (pm_ExpiresAt m) b (ci_Password inp)) (\<lambda>r.
        create_store (live_deps E l) c p (if pm_PasswordProtected m then m else m\<lparr>pm_KEKID := eb_KEKID r\<rparr>) r)
        (tick (tick w)))"
proof -
  have "\<not> (chosen_ttl l inp < li_TTLMin (lc_limits l) \<or> chosen_ttl l inp > li_TTLMax (lc_limits l))"
    "\<not> (\<not> ValidString (ci_Password inp) \<or> (ci_Password inp \<noteq> [] \<and> RuneCountInString (ci_Password inp) > 128))"
    using assms(1) by (auto simp: acceptable_def)
  then show ?thesis
    unfolding service_Create_def Let_def live_deps_simps chosen_ttl_def [symmetric]
    by (simp only: if_False) (simp add: bindR_eval assms(2))
qed

text \<open>The row \<open>Create\<close> inserts is one the schema takes.\<close>

lemma insert_created:
  assumes "known_user w (pm_OwnerID m)" and "1 \<le> pm_TTLSeconds m" and "pm_TTLSeconds m \<le> 86400"
    and "int4 (pm_SizeBytes m)" and "pm_ViewCount m = 0" and "pm_DeletedBy m = None"
    and "pg_text (pm_HashAlgo m)" and "pg_text (pm_ContentHash m)" and "pg_text (pm_KEKID m)"
    and "paste_row w (pm_ID m) = None"
  shows "insert_paste E m w = (Inr (), w\<lparr>w_pastes := w_pastes w @ [scanPaste E m]\<rparr>)"
  using assms
  by (auto simp: insert_paste_Inr paste_row_ok_def known_user_def int4_def paste_row_def find_None_iff)

lemma Create_healthy:
  assumes "healthy E w" and "insert_paste E m (tick w) = (Inr (), w')"
  shows "PasteStore_Create E m w = (Inr (), w')"
  using assms by (simp add: PasteStore_Create_def db_call_healthy)

lemma create_healthy:
  assumes ok: "live_ok E l w" and fine: "healthy E w" and inp: "acceptable l inp"
    and owner: "known_user w (pr_UserID p)" and ttl: "1 \<le> chosen_ttl l inp" "chosen_ttl l inp \<le> 86400"
    and mx: "li_MaxSize (lc_limits l) < 2 ^ 31" and fresh: "paste_row w (e_uuid_New E (Suc (w_tick w))) = None"
    and key: "pg_text (en_active (lc_envelope l))"
  obtains (created) cr w1 where "service_Create (live_deps E l) c p inp w = (Inr cr, w1)" "live_ok E l w1" "healthy E w1"
    | (late) n w1 where "service_Create (live_deps E l) c p inp w = (Inl ErrExpired, w1)"
      "w_tick w \<le> n" "n < w_tick w1" "e_clock E (w_tick w) + chosen_ttl l inp * Second \<le> e_clock E n"
proof -
  obtain b where b: "Canonicalize (ci_Content inp) (li_MaxSize (lc_limits l)) = Inr b"
    using inp by (auto simp: acceptable_def)
  define i where "i = e_uuid_New E (Suc (w_tick w))"
  define m where "m = create_meta (live_deps E l) p (ci_Password inp) (chosen_ttl l inp) b (e_clock E (w_tick w)) i"
  have L: "crypto_laws E" "envelope_ok (lc_envelope l)"
    using ok by (auto simp: live_ok_def dest: world_okD(1) env_lawsD(2))
  have fine2: "healthy E (tick (tick w))" using fine by (intro healthy_tick)
  obtain r v where seal: "Seal E (lc_envelope l) i (pm_ExpiresAt m) b (ci_Password inp) (tick (tick w)) = (Inr r, v)"
    "healthy E v"
    using Seal_healthy [OF L fine2] by blast
  have sil: "silent (tick (tick w)) v"
    using Seal_silent [of "tick (tick w)" E "lc_envelope l" i "pm_ExpiresAt m" b "ci_Password inp"] seal by simp
  have kid: "eb_KEKID r = (if ci_Password inp = [] then en_active (lc_envelope l) else [])"
    using Seal_storable(2) [OF L _ seal(1)] ok by (simp add: live_ok_def ActiveKEKID_def)
  define m' where "m' = (if pm_PasswordProtected m then m else m\<lparr>pm_KEKID := eb_KEKID r\<rparr>)"
  have eq: "service_Create (live_deps E l) c p inp w = create_store (live_deps E l) c p m' r v"
    unfolding create_eq [OF inp b] Let_def i_def [symmetric] m_def [symmetric]
    by (simp add: bindR_def seal(1) m'_def)
  have "wrap64 (chosen_ttl l inp * Second) = chosen_ttl l inp * Second"
    using ttl by (intro wrap64_id) (simp add: in64_def time_units)
  then have m': "pm_ID m' = i" "pm_ExpiresAt m' = e_clock E (w_tick w) + chosen_ttl l inp * Second" "pm_OwnerID m' = pr_UserID p"
    "pm_TTLSeconds m' = chosen_ttl l inp" "pm_SizeBytes m' = int (length b)" "pm_ViewCount m' = 0"
    "pm_DeletedBy m' = None" "pm_HashAlgo m' = ''sha256''" "pm_ContentHash m' = hex_EncodeToString (e_sha256 E b)"
    "pm_KEKID m' = (if ci_Password inp = [] then en_active (lc_envelope l) else [])"
    using kid by (simp_all add: m'_def m_def create_meta_def HashHex_def)
  show thesis
  proof (cases "e_clock E (w_tick v) < pm_ExpiresAt m'")
    case False
    then have "service_Create (live_deps E l) c p inp w = (Inl ErrExpired, tick v)"
      using time_Sub_pos [of "pm_ExpiresAt m'" "e_clock E (w_tick v)"]
      by (simp add: eq create_store_def bindR_def)
    then show thesis
      using late [of "tick v" "w_tick v"] False m'(2) silentD(7) [OF sil] by simp
  next
    case True
    define rem where "rem = time_Sub (pm_ExpiresAt m') (e_clock E (w_tick v))"
    have rem: "0 < rem" using True by (simp add: rem_def time_Sub_pos)
    obtain s1 where put: "BodyStore_Put E i r rem (tick v) = (Inr (), s1)" "healthy E s1"
      using redis_bodies.put_fine [OF healthy_tick [OF seal(2)] rem, of i r] by auto
    have s1: "w_pastes s1 = w_pastes w" "w_users s1 = w_users w"
      using Put_keeps(1,2) [of E i r rem "tick v"] put(1) silentD(2,3) [OF sil] by simp_all
    have "insert_paste E m' (tick s1) = (Inr (), (tick s1)\<lparr>w_pastes := w_pastes (tick s1) @ [scanPaste E m']\<rparr>)"
    proof (rule insert_created)
      show "int4 (pm_SizeBytes m')"
        using Canonicalize_Inr(4) [OF b] mx by (simp add: m' int4_def)
      show "pg_text (pm_HashAlgo m')" unfolding m' by (rule pg_text_ascii) simp
      show "pg_text (pm_KEKID m')"
        using key by (simp add: m' pg_text_def)
      show "paste_row (tick s1) (pm_ID m') = None"
        using fresh by (simp add: m' i_def paste_row_def s1)
    qed (use owner ttl in \<open>simp_all add: m' pg_text_hex known_user_def s1\<close>)
    then have "\<exists>s2. PasteStore_Create E m' s1 = (Inr (), s2)"
      using Create_healthy [OF put(2)] by blast
    then obtain s2 where cr: "PasteStore_Create E m' s1 = (Inr (), s2)" by blast
    obtain cr' w1 where res: "service_Create (live_deps E l) c p inp w = (Inr cr', w1)" "live.quiet E l s2 w1"
      using rem put(1) cr live.record_quiet [of E l s2]
      by (simp add: eq create_store_def create_store_meta_def bindR_def mapE_def rem_def m'(1) Let_def)
    have "live_ok E l s2"
    proof -
      have "live_ok E l v"
        using ok live.quietD(3) [OF silent_neutral [OF sil]] by (simp add: live_ok_def)
      then have "live_ok E l s1"
        using live.sound_bodies(1) [of E l i r rem "tick v"] put(1) by (simp add: live_ok_def)
      then show ?thesis
        using live.sound_metas(1) [of E l s1 m'] cr by simp
    qed
    moreover have "healthy E s2"
      using live.create_fine [OF put(2), of l m'] cr by simp
    ultimately show thesis
      using created res live.quietD(3,5) [OF res(2)] by blast
  qed
qed

section \<open>A sample run\<close>

text \<open>An environment whose clocks stand still.\<close>

definition still_env :: "mem env" where
  "still_env = sample_env\<lparr>e_clock := (\<lambda>_. 0), e_rclock := (\<lambda>_. 0)\<rparr>"

definition sample_input :: "string \<Rightarrow> CreateInput" where
  "sample_input pw = \<lparr>ci_Content = ''kek'', ci_Password = pw, ci_TTLSeconds = 0\<rparr>"

definition sample_principal :: Principal where
  "sample_principal = \<lparr>pr_UserID = 7, pr_Username = ''ada'', pr_IsAdmin = False\<rparr>"

lemma still_env_laws: "env_laws still_env"
  using sample_env_laws
  by (auto simp: env_laws_def still_env_def crypto_laws_def uuid_laws_def pg_time_laws_def mono_def)

lemma still_live_ok: "live_ok still_env sample_live sample_world1" "healthy still_env sample_world1"
proof -
  have "ValidString ''k1''" by (rule ValidString_ascii_chars) simp
  then show "live_ok still_env sample_live sample_world1"
    using sample_world1_ok(1) still_env_laws sample_envelope_ok
    by (simp add: live_ok_def world_ok_def sample_live_def) (simp add: sample_envelope_def)
  show "healthy still_env sample_world1"
    using sample_world1_ok(2) by (simp add: healthy_def still_env_def)
qed

lemma sample_acceptable: "pw \<in> {[], ''pw''} \<Longrightarrow> acceptable sample_live (sample_input pw)"
proof -
  have c: "Canonicalize ''kek'' 1000 = Inr (BOM @ StripBOM (bytes_of ''kek''))"
    by (simp add: Canonicalize_alt ValidString_ascii Let_def StripBOM_def BOM_def)
  have "RuneCountInString ''pw'' \<le> 128"
    using RuneCount_le_length [of "bytes_of ''pw''"] by (simp add: RuneCountInString_def)
  with c show "pw \<in> {[], ''pw''} \<Longrightarrow> acceptable sample_live (sample_input pw)"
    by (auto simp: acceptable_def chosen_ttl_def sample_live_def sample_input_def ValidString_ascii)
qed

lemma sample_premises:
  "known_user sample_world1 (pr_UserID sample_principal)"
  "1 \<le> chosen_ttl sample_live (sample_input pw)" "chosen_ttl sample_live (sample_input pw) \<le> 86400"
  "li_MaxSize (lc_limits sample_live) < 2 ^ 31" "paste_row sample_world1 i = None"
  "pg_text (en_active (lc_envelope sample_live))"
proof -
  show "pg_text (en_active (lc_envelope sample_live))"
    unfolding sample_live_def sample_envelope_def live_config.simps Envelope.simps by (rule pg_text_ascii) simp
qed (simp_all add: known_user_def sample_world1_def sample_user_def sample_principal_def chosen_ttl_def
       sample_live_def sample_input_def paste_row_def sample_world_def)

lemma still_clock: "\<not> e_clock still_env m + chosen_ttl sample_live (sample_input pw) * Second \<le> e_clock still_env n"
  by (simp add: still_env_def chosen_ttl_def sample_live_def sample_input_def time_units)

lemma still_create:
  assumes "pw \<in> {[], ''pw''}"
  obtains cr w1 where
    "service_Create (live_deps still_env sample_live) background sample_principal (sample_input pw) sample_world1 = (Inr cr, w1)"
    "live_ok still_env sample_live w1" "healthy still_env w1"
  by (rule create_healthy [OF still_live_ok sample_acceptable [OF assms] sample_premises, of background])
    (use that still_clock in blast)+

lemma still_times:
  "e_clock still_env n = 0" "e_rclock still_env n = 0" "e_pg_time still_env t = t - t mod 1000"
  by (simp_all add: still_env_def sample_env_def)

lemma still_created:
  assumes "service_Create (live_deps still_env sample_live) background sample_principal (sample_input pw)
      sample_world1 = (Inr cr, w1)"
  shows "body_held still_env w1 0 (pm_ID (cr_Meta cr)) \<noteq> None"
    "\<exists>m. paste_row w1 (pm_ID (cr_Meta cr)) = Some m \<and> pm_DeletedAt m = None \<and> pm_OwnerID m = 7 \<and>
         pm_ExpiresAt m = 60000000000"
    "pm_ExpiresAt (cr_Meta cr) = 60000000000"
proof -
  have "body_held still_env w1 0 (pm_ID (cr_Meta cr)) \<noteq> None \<and>
    (\<exists>m. paste_row w1 (pm_ID (cr_Meta cr)) = Some m \<and> pm_DeletedAt m = None \<and> pm_OwnerID m = 7 \<and>
         pm_ExpiresAt m = 60000000000) \<and> pm_ExpiresAt (cr_Meta cr) = 60000000000"
    using still_live_ok(1) assms
  proof (cases rule: live.create_stores)
    case (1 b x r v' u a)
    have x: "pm_ExpiresAt (cr_Meta cr) = 60000000000" "pm_OwnerID (cr_Meta cr) = 7"
      using 1(14) by (subst 1(13), simp add: create_meta_def still_times wrap64_def time_units sample_input_def
          sample_live_def sample_principal_def)+
    show ?thesis
      using 1(3,6,12) x by (simp add: rnow_def still_times)
  qed
  then show "body_held still_env w1 0 (pm_ID (cr_Meta cr)) \<noteq> None"
    "\<exists>m. paste_row w1 (pm_ID (cr_Meta cr)) = Some m \<and> pm_DeletedAt m = None \<and> pm_OwnerID m = 7 \<and>
         pm_ExpiresAt m = 60000000000"
    "pm_ExpiresAt (cr_Meta cr) = 60000000000" by blast+
qed

section \<open>Creating and reading\<close>

text \<open>
  C7. With services that answer, an acceptable request of a known account creates a paste; the only
  other outcome is \<^verbatim>\<open>ErrExpired\<close>, and then a clock reading during the call was past the expiry.
\<close>

theorem create_succeeds:
  assumes "live_ok E l w" and "healthy E w" and "acceptable l inp" and "known_user w (pr_UserID p)"
    and "1 \<le> chosen_ttl l inp" and "chosen_ttl l inp \<le> 86400" and "li_MaxSize (lc_limits l) < 2 ^ 31"
    and "paste_row w (e_uuid_New E (Suc (w_tick w))) = None" and "pg_text (en_active (lc_envelope l))"
  shows "(\<exists>cr w1. service_Create (live_deps E l) c p inp w = (Inr cr, w1)) \<or>
    (\<exists>w1 n. service_Create (live_deps E l) c p inp w = (Inl ErrExpired, w1) \<and> w_tick w \<le> n \<and> n < w_tick w1 \<and>
       e_clock E (w_tick w) + chosen_ttl l inp * Second \<le> e_clock E n)"
  by (rule create_healthy [OF assms, of c]) blast+

theorem create_succeeds_witness:
  "\<exists>cr w1. service_Create (live_deps still_env sample_live) background sample_principal (sample_input ''pw'')
     sample_world1 = (Inr cr, w1)"
  using create_succeeds [OF still_live_ok sample_acceptable sample_premises, of "''pw''" background] still_clock
  by blast



text \<open>
  C1. The round trip. A paste that \<open>Create\<close> reported, read with its password while the row is not deleted
  and Redis still holds the body, comes back as the canonical form of exactly the content that
  was submitted. The only other answer is the status expired without content, and then the
  clock had reached the expiry during the read. Between the two calls anything may happen to the
  rest of the system; of this paste only the view counter may have changed.
\<close>

theorem create_then_read:
  assumes "live_ok E l w" and "service_Create (live_deps E l) c p inp w = (Inr cr, w1)"
    and "i = pm_ID (cr_Meta cr)" and "live_ok E l w2" and "healthy E w2" and "w_tick w1 \<le> w_tick w2"
    and "paste_row w2 i = map_option (\<lambda>m. m\<lparr>pm_ViewCount := views\<rparr>) (paste_row w1 i)"
    and "\<tau> = e_rclock E (w_tick w2 + 2)" and "body_held E w2 \<tau> i = body_held E w1 \<tau> i" and "body_held E w1 \<tau> i \<noteq> None"
  shows "\<exists>res w3. service_Read (live_deps E l) c' q i (ci_Password inp) w2 = (Inr res, w3) \<and>
    (rr_Status res = StatusActive \<and> rr_Content res = Some (BOM @ StripBOM (bytes_of (ci_Content inp))) \<or>
     rr_Status res = StatusExpired \<and> rr_Content res = None \<and>
       (\<exists>n. w_tick w2 \<le> n \<and> n < w_tick w3 \<and> e_pg_time E (pm_ExpiresAt (cr_Meta cr)) \<le> e_clock E n))"
  using assms(1,2)
proof (cases rule: live.create_stores)
  case (1 b x r v' u a)
  define m where "m = (cr_Meta cr)\<lparr>pm_CreatedAt := e_pg_time E (pm_CreatedAt (cr_Meta cr)),
       pm_ExpiresAt := e_pg_time E (pm_ExpiresAt (cr_Meta cr)), pm_ViewCount := views\<rparr>"
  have row: "paste_row w2 i = Some m" using 1(3) assms(3,7) by (simp add: m_def)
  have \<tau>: "rnow E w1 \<le> \<tau>"
    using assms(1,6,8) env_lawsD(5) [of E "w_tick w1" "w_tick w2 + 2"]
    by (auto simp: rnow_def live_ok_def dest: world_okD(1))
  have held: "body_held E w2 \<tau> i = Some (Some r)"
    using 1(6) [OF \<tau>] assms(3,9,10) by (auto split: if_splits)
  have now: "rnow E (snd (d_Now (live_deps E l) (snd (ms_Get (d_Metas (live_deps E l)) i w2)))) = \<tau>"
    using Get_row(3) [of E i w2] assms(8) by (simp add: rnow_def)
  have m: "pm_DeletedAt m = None" "unix_sec (pm_ExpiresAt m) = unix_sec (pm_ExpiresAt (cr_Meta cr))"
    "pm_PasswordProtected m = (ci_Password inp \<noteq> [])"
    using 1(11,12) live.stored_second [OF assms(4)] by (simp_all add: m_def)
  obtain res w3 where "service_Read (live_deps E l) c' q i (ci_Password inp) w2 = (Inr res, w3)"
    "rr_Status res = StatusActive \<and> rr_Content res = Some b \<or>
     rr_Status res = StatusExpired \<and> rr_Content res = None \<and> live.reached E w2 w3 (pm_ExpiresAt m)"
    using live.read_sealed [OF assms(4,5) row m(1) held [folded now] 1(4,5) [folded assms(3)] m(2,3), of c' q] by blast
  with Canonicalize_Inr(5) [OF 1(1)] show ?thesis
    by (auto simp: live.reached_def m_def)
qed

theorem create_then_read_witness:
  "\<exists>cr w1 res w3. service_Create (live_deps still_env sample_live) background sample_principal (sample_input ''pw'')
       sample_world1 = (Inr cr, w1) \<and>
     service_Read (live_deps still_env sample_live) background None (pm_ID (cr_Meta cr)) ''pw'' w1 = (Inr res, w3) \<and>
     rr_Content res = Some (BOM @ StripBOM (bytes_of ''kek''))"
proof -
  obtain cr w1 where c: "service_Create (live_deps still_env sample_live) background sample_principal
      (sample_input ''pw'') sample_world1 = (Inr cr, w1)"
    and w1: "live_ok still_env sample_live w1" "healthy still_env w1"
    by (rule still_create [of "''pw''"]) simp_all
  note k = still_created [OF c]
  from k(2) obtain m where m: "paste_row w1 (pm_ID (cr_Meta cr)) = Some m" by blast
  have "\<exists>res w3. service_Read (live_deps still_env sample_live) background None (pm_ID (cr_Meta cr)) ''pw'' w1 = (Inr res, w3) \<and>
     rr_Content res = Some (BOM @ StripBOM (bytes_of ''kek''))"
    using create_then_read [OF still_live_ok(1) c refl w1 order_refl, of "pm_ViewCount m" 0 background None] k m
    by (auto simp: still_times sample_input_def)
  with c show ?thesis by blast
qed

text \<open>The sample paste read back.\<close>

lemma still_read:
  obtains i w res w' where "live_ok still_env sample_live w"
    "service_Read (live_deps still_env sample_live) background None i ''pw'' w = (Inr res, w')" "rr_Content res \<noteq> None"
proof -
  obtain cr w1 where c: "service_Create (live_deps still_env sample_live) background sample_principal
      (sample_input ''pw'') sample_world1 = (Inr cr, w1)"
    and w1: "live_ok still_env sample_live w1" "healthy still_env w1"
    by (rule still_create [of "''pw''"]) simp_all
  note k = still_created [OF c]
  let ?i = "pm_ID (cr_Meta cr)"
  have pw: "ci_Password (sample_input ''pw'') = ''pw''" by (simp add: sample_input_def)
  have now: "rnow still_env w = 0" for w :: "mem world" by (simp add: rnow_def still_times)
  show thesis
    using still_live_ok(1) c
  proof (cases rule: live.create_stores)
    case (1 b x r v' u a)
    obtain m where m: "paste_row w1 ?i = Some m" "pm_DeletedAt m = None" "pm_ExpiresAt m = 60000000000"
      "pm_PasswordProtected m"
      using k(2) 1(3,11) by (auto simp: sample_input_def)
    have held: "body_held still_env w1 0 ?i = Some (Some r)"
      using 1(6) [of 0] k(1) by (auto simp: now split: if_splits)
    obtain res w3 where r: "service_Read (live_deps still_env sample_live) background None ?i ''pw'' w1 = (Inr res, w3)"
      "rr_Status res = StatusActive \<and> rr_Content res = Some b \<or>
       rr_Status res = StatusExpired \<and> rr_Content res = None \<and> live.reached still_env w1 w3 (pm_ExpiresAt m)"
      by (rule live.read_sealed [OF w1 m(1,2) _ 1(4) 1(5) [unfolded pw], where c = background and q = None])
        (use held m k in \<open>simp_all add: now\<close>)
    then have "rr_Content res \<noteq> None"
      by (auto simp: live.reached_def still_times m(3))
    then show thesis by (rule that [OF w1(1) r(1)])
  qed
qed

text \<open>
  C2. \<open>Read\<close> releases text only from a row that exists and is not deleted, with status active, decrypted by
  the envelope from the stored record for this paste and this expiry, with a password when the paste
  is protected; and the last thing it did before returning was to read a clock still before the expiry.
\<close>

theorem read_releases_only_live:
  assumes "live_ok E l w" and "service_Read (live_deps E l) c p i pw w = (Inr res, w')" and "rr_Content res = Some plain"
  shows "rr_Status res = StatusActive \<and> paste_row w i = Some (rr_Meta res) \<and> pm_DeletedAt (rr_Meta res) = None \<and>
    (pm_PasswordProtected (rr_Meta res) \<longrightarrow> pw \<noteq> []) \<and>
    (\<exists>u r v. fst (BodyStore_Get E i u) = Inr r \<and>
       fst (Open E (lc_envelope l) i (pm_ExpiresAt (rr_Meta res)) r pw v) = Inr plain) \<and>
    (\<exists>n. Suc n = w_tick w' \<and> e_clock E n < pm_ExpiresAt (rr_Meta res))"
  using assms(2,3)
proof (cases rule: read_content)
  case (1 u r v v' u')
  have "paste_row w i = Some (rr_Meta res)"
    using live.meta_get_ok [OF assms(1), of i "rr_Meta res"] 1(1) by (metis prod.collapse)
  moreover have "fst (BodyStore_Get E i u) = Inr r"
    "fst (Open E (lc_envelope l) i (pm_ExpiresAt (rr_Meta res)) r pw v) = Inr plain"
    using 1(5,6) by simp_all
  moreover have "Suc (w_tick u') = w_tick w'" "e_clock E (w_tick u') < pm_ExpiresAt (rr_Meta res)"
    using 1(7,8) by simp_all
  ultimately show ?thesis using 1(2,3,4) by blast
qed

theorem read_releases_only_live_witness:
  "\<exists>i w res w'. service_Read (live_deps still_env sample_live) background None i ''pw'' w = (Inr res, w') \<and>
     rr_Content res \<noteq> None \<and> rr_Status res = StatusActive"
proof -
  obtain i w res w' where r: "live_ok still_env sample_live w"
    "service_Read (live_deps still_env sample_live) background None i ''pw'' w = (Inr res, w')" "rr_Content res \<noteq> None"
    by (rule still_read)
  then show ?thesis using read_releases_only_live [OF r(1,2)] by blast
qed



section \<open>Deleting\<close>

text \<open>
  C4. A caller who neither owns the paste nor is an administrator deletes nothing: the answer is
  \<^verbatim>\<open>ErrForbidden\<close> (or the failure of the lookup), and only the interaction counter has moved.
\<close>

theorem delete_needs_owner_or_admin:
  assumes "paste_row w i = Some m" and "pm_OwnerID m \<noteq> pr_UserID p" and "\<not> pr_IsAdmin p"
  shows "service_Delete (live_deps E l) c p i w =
    (Inl (if e_fate E (w_tick w) = Served then ErrForbidden else EService ''postgres''), tick w)"
  using assms
  by (auto simp: service_Delete_def bindR_def PasteStore_Get_def db_call_def paste_row_def split: fate.splits)

theorem delete_needs_owner_or_admin_witness:
  "\<exists>i w. fst (service_Delete (live_deps still_env sample_live) background
     \<lparr>pr_UserID = 8, pr_Username = ''eve'', pr_IsAdmin = False\<rparr> i w) = Inl ErrForbidden"
proof -
  obtain cr w1 where c: "service_Create (live_deps still_env sample_live) background sample_principal
      (sample_input ''pw'') sample_world1 = (Inr cr, w1)" and "live_ok still_env sample_live w1" "healthy still_env w1"
    by (rule still_create [of "''pw''"]) simp_all
  obtain m where "paste_row w1 (pm_ID (cr_Meta cr)) = Some m" "pm_OwnerID m = 7"
    using still_created(2) [OF c] by blast
  then show ?thesis
    using delete_needs_owner_or_admin [of w1 "pm_ID (cr_Meta cr)" m "\<lparr>pr_UserID = 8, pr_Username = ''eve'', pr_IsAdmin = False\<rparr>"
        still_env sample_live background] healthy_now(1) [OF \<open>healthy still_env w1\<close>]
    by (intro exI [of _ "pm_ID (cr_Meta cr)"] exI [of _ w1]) simp
qed

text \<open>
  C3. A \<open>Delete\<close> that reports success for a paste that is neither deleted nor past its expiry has removed the
  body from Redis for good and marked the row with the caller, so that every later \<open>Read\<close> in a state with
  that row answers with status deleted and no content; other pastes keep their rows and bodies.
\<close>

theorem delete_removes:
  assumes "live_ok E l w" and "service_Delete (live_deps E l) c p i w = (Inr (), w')"
    and "paste_row w i = Some m" and "pm_DeletedAt m = None"
    and "\<forall>n. w_tick w \<le> n \<and> n < w_tick w' \<longrightarrow> e_clock E n < pm_ExpiresAt m"
  shows "(\<forall>t. rnow E w' \<le> t \<longrightarrow> body_held E w' t i = None) \<and>
    (\<exists>at. paste_row w' i = Some (m\<lparr>pm_DeletedAt := Some at, pm_DeletedBy := Some (pr_UserID p)\<rparr>)) \<and>
    (\<forall>j t. j \<noteq> i \<longrightarrow> rnow E w' \<le> t \<longrightarrow> paste_row w' j = paste_row w j \<and> body_held E w' t j = body_held E w t j) \<and>
    (\<forall>c' q pw res w''. service_Read (live_deps E l) c' q i pw w' = (Inr res, w'') \<longrightarrow>
       rr_Status res = StatusDeleted \<and> rr_Content res = None)"
  using assms(1,2)
proof (cases rule: live.delete_result)
  case (noop m')
  with assms(3-5) show ?thesis by (auto simp: live.reached_def linorder_not_le [symmetric])
next
  case (deleted m' t)
  then have row: "paste_row w' i = Some (m\<lparr>pm_DeletedAt := Some (e_pg_time E t), pm_DeletedBy := Some (pr_UserID p)\<rparr>)"
    using assms(3,4) by (simp add: mark_row_def)
  from live.read_deleted [OF deleted(7) row] have
    "\<forall>c' q pw res w''. service_Read (live_deps E l) c' q i pw w' = (Inr res, w'') \<longrightarrow>
       rr_Status res = StatusDeleted \<and> rr_Content res = None" by simp
  with row deleted(4-6) show ?thesis by blast
qed

text \<open>In a fine state the owner's \<open>Delete\<close> succeeds.\<close>

lemma delete_healthy:
  assumes "live_ok E l w" and "healthy E w" and "paste_row w i = Some m" and "pm_OwnerID m = pr_UserID p"
  shows "\<exists>w'. service_Delete (live_deps E l) c p i w = (Inr (), w')"
proof -
  have g: "PasteStore_Get E i w = (Inr m, tick w)"
    using assms(2,3) by (simp add: Get_row healthy_now(1))
  have h: "healthy E (tick (tick w))" using assms(2) by (intro healthy_tick)
  obtain w3 where d: "BodyStore_Delete E i (tick (tick w)) = (Inr (), w3)" "healthy E w3"
    using live.delete_fine [OF h, of l i] by auto
  have w3: "w_users w3 = w_users w" "w_pastes w3 = w_pastes w"
    using Delete_keeps [of E i "tick (tick w)"] d(1) by simp_all
  have "m \<in> set (w_pastes w)" using assms(3) by (auto simp: paste_row_def find_Some_iff)
  then have "known_user (tick w3) (pr_UserID p)"
    using assms(1,4) by (force simp: live_ok_def world_ok_def pastes_ok_def list_all_iff paste_row_ok_def known_user_def w3)
  then have "\<exists>w4. PasteStore_MarkDeleted E i (pr_UserID p) t w3 = (Inr (), w4)" for t
    using d(2) by (simp add: PasteStore_MarkDeleted_def db_call_healthy update_pastes_def List.map_filter_def)
  then obtain w4 where k: "PasteStore_MarkDeleted E i (pr_UserID p) (e_clock E (Suc (w_tick w))) w3 = (Inr (), w4)"
    by blast
  show ?thesis
    using assms(4) by (auto simp: service_Delete_def bindR_def g d k mapE_def)
qed

theorem delete_removes_witness:
  "\<exists>i w w' at. service_Delete (live_deps still_env sample_live) background sample_principal i w = (Inr (), w') \<and>
     map_option pm_DeletedAt (paste_row w' i) = Some (Some at)"
proof -
  obtain cr w1 where c: "service_Create (live_deps still_env sample_live) background sample_principal
      (sample_input ''pw'') sample_world1 = (Inr cr, w1)" and w1: "live_ok still_env sample_live w1" "healthy still_env w1"
    by (rule still_create [of "''pw''"]) simp_all
  obtain m where m: "paste_row w1 (pm_ID (cr_Meta cr)) = Some m" "pm_OwnerID m = pr_UserID sample_principal"
    "pm_DeletedAt m = None" "pm_ExpiresAt m = 60000000000"
    using still_created(2) [OF c] by (auto simp: sample_principal_def)
  obtain w' where d: "service_Delete (live_deps still_env sample_live) background sample_principal
      (pm_ID (cr_Meta cr)) w1 = (Inr (), w')"
    using delete_healthy [OF w1 m(1,2)] by blast
  from delete_removes [OF w1(1) d m(1,3)] m(4) d show ?thesis
    by (fastforce simp: still_times)
qed

text \<open>
  C6. A \<open>Create\<close> that fails while the services answer leaves no encrypted body behind: for every paste the
  store holds afterwards what it held before, or nothing.
\<close>

theorem failed_create_leaves_no_body:
  assumes "live_ok E l w" and "healthy E w" and "service_Create (live_deps E l) c p inp w = (Inl e, w')"
    and "rnow E w' \<le> t"
  shows "body_held E w' t j = body_held E w t j \<or> body_held E w' t j = None"
  by (rule live.create_failed [OF assms])

theorem failed_create_leaves_no_body_witness:
  "service_Create (live_deps still_env sample_live) background sample_principal
      ((sample_input [])\<lparr>ci_TTLSeconds := 100000\<rparr>) sample_world1 = (Inl ErrInvalidTTL, sample_world1) \<and>
   body_held still_env sample_world1 0 5 = None"
proof -
  have c: "service_Create (live_deps still_env sample_live) background sample_principal
      ((sample_input [])\<lparr>ci_TTLSeconds := 100000\<rparr>) sample_world1 = (Inl ErrInvalidTTL, sample_world1)"
    by (simp add: service_Create_def sample_input_def sample_live_def)
  have "body_held still_env sample_world1 0 5 = None"
    by (simp add: body_held_def still_env_def sample_env_def sample_world1_def sample_world_def mem_redis_def)
  with c failed_create_leaves_no_body [OF still_live_ok c, of 0 5] show ?thesis
    by (simp add: rnow_def still_times)
qed

section \<open>Verifying and listing\<close>

text \<open>
  C19. \<open>Verify\<close> compares with the stored digest only, in any letter case and with surrounding white space
  ignored: it answers a match exactly when the trimmed lower-case text is the lower-case digest,
  whatever the status of the paste. It needs no body and no password, and leaves bodies and rows alone.
\<close>

theorem verify_matches_digest:
  assumes "live_ok E l w" and "service_Verify (live_deps E l) c i h w = (Inr res, w')"
  shows "paste_row w i = Some (vr_Meta res) \<and>
    (vr_Match res \<longleftrightarrow> ToLower (TrimSpace h) = ToLower (pm_ContentHash (vr_Meta res))) \<and>
    vr_Status res = meta_Status (vr_Meta res) (e_clock E (Suc (w_tick w))) \<and>
    paste_row w' = paste_row w \<and> body_held E w' = body_held E w"
proof -
  from assms(2) obtain m where g: "PasteStore_Get E i w = (Inr m, tick w)"
    using Get_row(3) [of E i w] by (auto simp: service_Verify_def bindR_Inr)
  define s2 where "s2 = tick (tick w)"
  from assms(2) g have r: "res = \<lparr>vr_Match = EqualFold (TrimSpace h) (pm_ContentHash m),
      vr_Status = meta_Status m (e_clock E (Suc (w_tick w))), vr_Meta = m\<rparr>"
    "live.quiet E l s2 w'"
    using live.record_quiet [of E l s2] by (auto simp: service_Verify_def bindR_def Let_def s2_def)
  have "paste_row w i = Some m" using g by (simp add: Get_row)
  with r(1) live.quietD(1,2) [OF r(2)] show ?thesis
    by (simp add: EqualFold_def s2_def)
qed

theorem verify_matches_digest_witness:
  "\<exists>i w res w'. service_Verify (live_deps still_env sample_live) background i ''  AB '' w = (Inr res, w') \<and> \<not> vr_Match res"
proof -
  obtain cr w1 where c: "service_Create (live_deps still_env sample_live) background sample_principal
      (sample_input ''pw'') sample_world1 = (Inr cr, w1)" and w1: "live_ok still_env sample_live w1" "healthy still_env w1"
    by (rule still_create [of "''pw''"]) simp_all
  let ?i = "pm_ID (cr_Meta cr)"
  obtain m where m: "paste_row w1 ?i = Some m" "length (pm_ContentHash m) = 64"
    using still_live_ok(1) c
  proof (cases rule: live.create_stores)
    case (1 b x r v' u a)
    have "pm_ContentHash (cr_Meta cr) = hex_EncodeToString (e_sha256 still_env b)"
      by (subst 1(13)) (simp add: create_meta_def HashHex_def)
    then show thesis
      using that 1(3) crypto_lawsD(4) [OF env_lawsD(2) [OF still_env_laws]] by simp
  qed
  have "PasteStore_Get still_env ?i w1 = (Inr m, tick w1)"
    using m(1) healthy_now(1) [OF w1(2)] by (simp add: Get_row)
  then obtain res w' where v: "service_Verify (live_deps still_env sample_live) background ?i ''  AB '' w1 = (Inr res, w')"
    by (simp add: service_Verify_def bindR_def Let_def)
  have "length (ToLower (TrimSpace ''  AB '')) \<noteq> 64" by code_simp
  then have "ToLower (TrimSpace ''  AB '') \<noteq> ToLower (pm_ContentHash m)"
    using m(2) by (metis ToLower_def length_map)
  with verify_matches_digest [OF w1(1) v] m(1) v show ?thesis by auto
qed

lemma normalizePage_bounds:
  "0 < pg_Limit (normalizePage pg)" "pg_Limit (normalizePage pg) \<le> 200" "0 \<le> pg_Offset (normalizePage pg)"
  by (auto simp: normalizePage_def Let_def)

lemma set_newest_first [simp]: "set (newest_first ms) = set ms"
  by (simp add: newest_first_def)

lemma select_page_sub:
  "set (select_page n k ms) \<subseteq> set ms" "length (select_page n k ms) \<le> nat n"
  unfolding select_page_def by (metis set_take_subset set_drop_subset subset_trans) simp

text \<open>
  C20. Lists. \<open>ListMine\<close> returns rows of the caller only, \<open>ListAll\<close> answers \<^verbatim>\<open>ErrForbidden\<close> to everyone but an
  administrator, and no page has more than 200 rows, whatever limit was asked for.
\<close>

theorem lists_respect_caller:
  "(fst (service_ListMine (live_deps E l) p pg w) = Inr ms \<longrightarrow>
      (\<forall>m \<in> set ms. m \<in> set (w_pastes w) \<and> pm_OwnerID m = pr_UserID p) \<and> length ms \<le> 200) \<and>
   (\<not> pr_IsAdmin p \<longrightarrow> service_ListAll (live_deps E l) p flt pg w = (Inl ErrForbidden, w)) \<and>
   (fst (service_ListAll (live_deps E l) p flt pg w) = Inr ms \<longrightarrow>
      pr_IsAdmin p \<and> (\<forall>m \<in> set ms. m \<in> set (w_pastes w) \<and> (\<forall>u. flt = Some u \<longrightarrow> pm_OwnerID m = u)) \<and> length ms \<le> 200)"
proof -
  let ?n = "pg_Limit (normalizePage pg)"
  have len: "length (select_page ?n k xs) \<le> 200" for k and xs :: "PasteMeta list"
    using select_page_sub(2) [of ?n k xs] normalizePage_bounds(2) [of pg] by linarith
  have mine: "(\<forall>m \<in> set ms. m \<in> set (w_pastes w) \<and> pm_OwnerID m = pr_UserID p) \<and> length ms \<le> 200"
    if "fst (service_ListMine (live_deps E l) p pg w) = Inr ms"
    using that len select_page_sub(1)
    by (fastforce simp: service_ListMine_def PasteStore_ListByOwner_def Let_def db_call_def split: fate.splits)
  have all: "(\<forall>m \<in> set ms. m \<in> set (w_pastes w) \<and> (\<forall>u. flt = Some u \<longrightarrow> pm_OwnerID m = u)) \<and> length ms \<le> 200"
    if "fst (service_ListAll (live_deps E l) p flt pg w) = Inr ms" "pr_IsAdmin p"
    using that len select_page_sub(1)
    by (fastforce simp: service_ListAll_def PasteStore_ListAll_def Let_def db_call_def split: fate.splits)
  have no: "service_ListAll (live_deps E l) p flt pg w = (Inl ErrForbidden, w)" if "\<not> pr_IsAdmin p"
    using that by (simp add: service_ListAll_def)
  show ?thesis
  proof (cases "pr_IsAdmin p")
    case True
    with mine all show ?thesis by blast
  next
    case False
    with mine no show ?thesis by auto
  qed
qed

theorem lists_respect_caller_witness:
  "fst (service_ListMine (live_deps still_env sample_live) sample_principal \<lparr>pg_Limit = 0, pg_Offset = 0\<rparr> sample_world1) = Inr [] \<and>
   service_ListAll (live_deps still_env sample_live) sample_principal None \<lparr>pg_Limit = 0, pg_Offset = 0\<rparr> sample_world1 =
     (Inl ErrForbidden, sample_world1)"
  using lists_respect_caller [of still_env sample_live sample_principal "\<lparr>pg_Limit = 0, pg_Offset = 0\<rparr>" sample_world1 "[]" None]
  by (simp add: sample_principal_def service_ListMine_def PasteStore_ListByOwner_def Let_def db_call_def still_env_def
      sample_env_def sample_world1_def sample_world_def select_page_def newest_first_def)

end
