(* ===== verification/UserStore.thy ===== *)
theory UserStore
  imports PasteStore "HOL-Library.Sorting_Algorithms"
begin

text \<open>
  \<^verbatim>\<open>internal/store/postgres/users.go\<close>: accounts in Postgres. As in \<open>PasteStore\<close> each statement is a
  function on the tables that checks the constraints of the schema; the default of \<^verbatim>\<open>created_at\<close> and
  \<^verbatim>\<open>now()\<close> read the clock of the database server.
\<close>

section \<open>Statements\<close>

definition userColumn_or_empty :: "string option \<Rightarrow> string" where
  "userColumn_or_empty c = (case c of None \<Rightarrow> [] | Some s \<Rightarrow> s)"

definition scanUser :: "UserRow \<Rightarrow> User" where
  "scanUser r =
     \<lparr>us_ID = ur_ID r, us_Username = ur_Username r, us_DisplayName = userColumn_or_empty (ur_DisplayName r),
      us_Provider = ur_Provider r, us_OIDCIssuer = userColumn_or_empty (ur_OIDCIssuer r),
      us_OIDCSubject = userColumn_or_empty (ur_OIDCSubject r),
      us_PasswordHash = userColumn_or_empty (ur_PasswordHash r), us_IsAdmin = ur_IsAdmin r,
      us_Disabled = ur_Disabled r, us_CreatedAt = ur_CreatedAt r, us_LastLoginAt = ur_LastLoginAt r\<rparr>"

fun isUniqueViolation :: "goerr \<Rightarrow> bool" where
  "isUniqueViolation (EPg code) = (code = ''23505'')"
| "isUniqueViolation (EWrap p e) = isUniqueViolation e"
| "isUniqueViolation _ = False"

definition nullableString :: "string \<Rightarrow> string option" where
  "nullableString s = (if s = [] then None else Some s)"

definition pg_now :: "'r env \<Rightarrow> 'r world \<Rightarrow> gtime" where
  "pg_now E w = e_pg_time E (e_dbclock E (w_tick w))"

definition user_columns_text :: "UserRow \<Rightarrow> bool" where
  "user_columns_text r \<longleftrightarrow>
     pg_text (ur_Username r) \<and>
     list_all (\<lambda>c. case c of None \<Rightarrow> True | Some s \<Rightarrow> pg_text s)
       [ur_DisplayName r, ur_OIDCIssuer r, ur_OIDCSubject r, ur_PasswordHash r]"

definition conflicts :: "UserRow \<Rightarrow> UserRow \<Rightarrow> bool" where
  "conflicts r q \<longleftrightarrow>
     ur_ID q = ur_ID r \<or> ur_Username q = ur_Username r \<or> (oidc_key r \<noteq> None \<and> oidc_key q = oidc_key r)"

definition insert_user :: "UserRow \<Rightarrow> 'r world \<Rightarrow> unit res \<times> 'r world" where
  "insert_user r w =
     (if \<not> user_columns_text r then (Inl bad_encoding, w)
      else if list_ex (conflicts r) (w_users w) then (Inl unique_violation, w)
      else (Inr (), w\<lparr>w_users := w_users w @ [r]\<rparr>))"

definition update_users :: "(UserRow \<Rightarrow> bool) \<Rightarrow> (UserRow \<Rightarrow> UserRow) \<Rightarrow> 'r world \<Rightarrow> 'r world" where
  "update_users P f w = w\<lparr>w_users := map (\<lambda>r. if P r then f r else r) (w_users w)\<rparr>"

definition select_user :: "bool \<Rightarrow> (UserRow \<Rightarrow> bool) \<Rightarrow> 'r world \<Rightarrow> User res \<times> 'r world" where
  "select_user args_ok P w =
     (if \<not> args_ok then (Inl bad_encoding, w)
      else case find P (w_users w) of
             None \<Rightarrow> (Inl ErrUserNotFound, w)
           | Some r \<Rightarrow> (Inr (scanUser r), w))"

text \<open>
  \<^verbatim>\<open>INSERT ... ON CONFLICT (oidc_issuer, oidc_subject) DO UPDATE ... RETURNING\<close>: a row with the same
  pair is updated; otherwise the new row is inserted under the other constraints.
\<close>

definition upsert_user :: "'r env \<Rightarrow> UserRow \<Rightarrow> 'r world \<Rightarrow> User res \<times> 'r world" where
  "upsert_user E r w =
     (if \<not> user_columns_text r then (Inl bad_encoding, w)
      else case find (\<lambda>q. oidc_key q = oidc_key r) (w_users w) of
             Some q \<Rightarrow>
               (let q' = q\<lparr>ur_DisplayName := ur_DisplayName r, ur_IsAdmin := ur_IsAdmin r,
                           ur_LastLoginAt := Some (pg_now E w)\<rparr>
                in (Inr (scanUser q'), update_users (\<lambda>x. ur_ID x = ur_ID q) (\<lambda>_. q') w))
           | None \<Rightarrow>
               (case insert_user r w of
                  (Inl e, w') \<Rightarrow> (Inl e, w')
                | (Inr _, w') \<Rightarrow> (Inr (scanUser r), w')))"

section \<open>The operations\<close>

definition UserStore_Create :: "'r env \<Rightarrow> User \<Rightarrow> ('r world, unit) op" where
  "UserStore_Create E u =
     mapE (\<lambda>e. if isUniqueViolation e then ErrUserExists else EWrap ''postgres: create user'' e)
       (db_call E (\<lambda>w. insert_user
          \<lparr>ur_ID = us_ID u, ur_Username = us_Username u, ur_DisplayName = nullableString (us_DisplayName u),
           ur_Provider = us_Provider u, ur_OIDCIssuer = nullableString (us_OIDCIssuer u),
           ur_OIDCSubject = nullableString (us_OIDCSubject u),
           ur_PasswordHash = nullableString (us_PasswordHash u), ur_IsAdmin = us_IsAdmin u,
           ur_Disabled = us_Disabled u, ur_CreatedAt = pg_now E w, ur_LastLoginAt = None\<rparr> w))"

definition UserStore_GetByID :: "'r env \<Rightarrow> uuid \<Rightarrow> ('r world, User) op" where
  "UserStore_GetByID E i = db_call E (select_user True (\<lambda>r. ur_ID r = i))"

definition UserStore_GetByUsername :: "'r env \<Rightarrow> string \<Rightarrow> ('r world, User) op" where
  "UserStore_GetByUsername E username =
     db_call E (select_user (pg_text username) (\<lambda>r. ur_Username r = username))"

definition UserStore_GetByOIDC :: "'r env \<Rightarrow> string \<Rightarrow> string \<Rightarrow> ('r world, User) op" where
  "UserStore_GetByOIDC E issuer subject =
     db_call E (select_user (pg_text issuer \<and> pg_text subject) (\<lambda>r. oidc_key r = Some (issuer, subject)))"

definition UserStore_UpsertOIDC :: "'r env \<Rightarrow> User \<Rightarrow> ('r world, User) op" where
  "UserStore_UpsertOIDC E u =
     mapE (\<lambda>e. if isUniqueViolation e then ErrUserExists else EWrap ''postgres: upsert OIDC user'' e)
       (db_call E (\<lambda>w. upsert_user E
          \<lparr>ur_ID = us_ID u, ur_Username = us_Username u, ur_DisplayName = nullableString (us_DisplayName u),
           ur_Provider = ProviderOIDC, ur_OIDCIssuer = Some (us_OIDCIssuer u),
           ur_OIDCSubject = Some (us_OIDCSubject u), ur_PasswordHash = None, ur_IsAdmin = us_IsAdmin u,
           ur_Disabled = False, ur_CreatedAt = pg_now E w, ur_LastLoginAt = Some (pg_now E w)\<rparr> w))"

definition UserStore_SetPasswordHash :: "'r env \<Rightarrow> uuid \<Rightarrow> string \<Rightarrow> ('r world, unit) op" where
  "UserStore_SetPasswordHash E i passwordHash =
     mapE (EWrap ''postgres: set password hash'')
       (db_call E (\<lambda>w. if \<not> pg_text passwordHash then (Inl bad_encoding, w)
          else (Inr (), update_users (\<lambda>r. ur_ID r = i) (\<lambda>r. r\<lparr>ur_PasswordHash := Some passwordHash\<rparr>) w)))"

definition UserStore_SetDisabled :: "'r env \<Rightarrow> uuid \<Rightarrow> bool \<Rightarrow> ('r world, unit) op" where
  "UserStore_SetDisabled E i disabled =
     mapE (EWrap ''postgres: set user disabled'')
       (db_call E (\<lambda>w. (Inr (), update_users (\<lambda>r. ur_ID r = i) (\<lambda>r. r\<lparr>ur_Disabled := disabled\<rparr>) w)))"

definition UserStore_TouchLogin :: "'r env \<Rightarrow> uuid \<Rightarrow> gtime \<Rightarrow> ('r world, unit) op" where
  "UserStore_TouchLogin E i at =
     mapE (EWrap ''postgres: touch user login'')
       (db_call E (\<lambda>w. (Inr (), update_users (\<lambda>r. ur_ID r = i)
          (\<lambda>r. r\<lparr>ur_LastLoginAt := Some (e_pg_time E at)\<rparr>) w)))"

text \<open>\<^verbatim>\<open>ORDER BY username\<close> uses the collation of the database, which is an argument.\<close>

definition UserStore_List :: "'r env \<Rightarrow> string comparator \<Rightarrow> ('r world, User list) op" where
  "UserStore_List E collation =
     mapE (EWrap ''postgres: list users'')
       (db_call E (\<lambda>w. (Inr (map scanUser (Sorting_Algorithms.sort (key ur_Username collation) (w_users w))), w)))"


section \<open>Lemmas\<close>

lemma insert_user_keeps [simp]:
  "w_redis (snd (insert_user r w)) = w_redis w" "w_pastes (snd (insert_user r w)) = w_pastes w"
  "w_audit (snd (insert_user r w)) = w_audit w" "w_gate (snd (insert_user r w)) = w_gate w"
  "w_tick (snd (insert_user r w)) = w_tick w" "w_log (snd (insert_user r w)) = w_log w"
  by (simp_all add: insert_user_def)

lemma update_users_keeps [simp]:
  "w_redis (update_users P f w) = w_redis w" "w_pastes (update_users P f w) = w_pastes w"
  "w_audit (update_users P f w) = w_audit w" "w_gate (update_users P f w) = w_gate w"
  "w_tick (update_users P f w) = w_tick w" "w_log (update_users P f w) = w_log w"
  by (simp_all add: update_users_def)

lemma select_user_same [simp]: "snd (select_user a P w) = w"
  by (simp add: select_user_def split: option.splits)

text \<open>More accounts, or the same identifiers, keep the rows of \<^verbatim>\<open>pastes\<close> valid.\<close>

lemma pastes_ok_users: "ur_ID ` set us \<subseteq> ur_ID ` set us' \<Longrightarrow> pastes_ok us ms \<Longrightarrow> pastes_ok us' ms"
  by (fastforce simp: pastes_ok_def list_all_iff paste_row_ok_def split: option.splits)

lemma users_ok_append:
  assumes "users_ok us" and "\<not> list_ex (conflicts r) us"
  shows "users_ok (us @ [r])"
  using assms by (auto simp: users_ok_def conflicts_def list_ex_iff image_iff)

lemma insert_user_world_ok: "world_ok E w \<Longrightarrow> world_ok E (snd (insert_user r w))"
  using pastes_ok_users [of "w_users w" "w_users w @ [r]" "w_pastes w"]
  by (auto simp: insert_user_def world_ok_def users_ok_append)

text \<open>An update that keeps the keys of a row.\<close>

definition same_keys :: "UserRow \<Rightarrow> UserRow \<Rightarrow> bool" where
  "same_keys r q \<longleftrightarrow> ur_ID q = ur_ID r \<and> ur_Username q = ur_Username r \<and> oidc_key q = oidc_key r"

lemma update_users_world_ok:
  assumes "world_ok E w" and "\<And>r. r \<in> set (w_users w) \<Longrightarrow> P r \<Longrightarrow> same_keys r (f r)"
  shows "world_ok E (update_users P f w)"
proof -
  let ?us = "map (\<lambda>r. if P r then f r else r) (w_users w)"
  have keys: "map ur_ID ?us = map ur_ID (w_users w)" "map ur_Username ?us = map ur_Username (w_users w)"
    "map oidc_key ?us = map oidc_key (w_users w)"
    using assms(2) by (auto simp: same_keys_def)
  then have "ur_ID ` set ?us = ur_ID ` set (w_users w)"
    by (metis list.set_map)
  then have "pastes_ok ?us (w_pastes w)"
    using pastes_ok_users [of "w_users w" ?us] world_okD(3) [OF assms(1)] by blast
  moreover have "users_ok ?us"
    using world_okD(2) [OF assms(1)] keys unfolding users_ok_def by presburger
  ultimately show ?thesis
    using world_okD(1) [OF assms(1)] by (simp add: world_ok_def update_users_def)
qed

lemma find_row: "find P xs = Some x \<Longrightarrow> x \<in> set xs \<and> P x"
  by (auto simp: find_Some_iff)

lemma upsert_user_world_ok:
  assumes "world_ok E w"
  shows "world_ok E (snd (upsert_user E r w))"
proof (cases "find (\<lambda>q. oidc_key q = oidc_key r) (w_users w)")
  case None
  then show ?thesis
    using insert_user_world_ok [OF assms, of r] assms by (auto simp: upsert_user_def split: prod.splits sum.splits)
next
  case (Some q)
  have "same_keys x (q\<lparr>ur_DisplayName := ur_DisplayName r, ur_IsAdmin := ur_IsAdmin r, ur_LastLoginAt := Some (pg_now E w)\<rparr>)"
    if "x \<in> set (w_users w)" "ur_ID x = ur_ID q" for x
  proof -
    have "x = q"
      using that find_row [OF Some] world_okD(2) [OF assms]
      by (auto simp: users_ok_def distinct_map dest: inj_onD)
    then show ?thesis by (simp add: same_keys_def oidc_key_def)
  qed
  with Some assms show ?thesis
    by (auto simp: upsert_user_def Let_def intro!: update_users_world_ok)
qed

lemma db_call_world_ok:
  assumes "world_ok E w" and "\<And>w. world_ok E w \<Longrightarrow> world_ok E (snd (stmt w))"
  shows "world_ok E (snd (db_call E stmt w))"
  using assms by (metis db_call_snd world_ok_tick)


section \<open>Properties\<close>



lemma distinct_keys_inj:
  "distinct (filter (\<lambda>k. k \<noteq> None) (map f xs)) \<Longrightarrow> x \<in> set xs \<Longrightarrow> y \<in> set xs \<Longrightarrow>
   f x = Some k \<Longrightarrow> f y = Some k \<Longrightarrow> x = y"
proof (induction xs)
  case (Cons z xs)
  then show ?case
    by (cases "x = z"; cases "y = z") (auto split: if_splits simp: image_iff)
qed simp

lemma users_ok_unique:
  assumes "users_ok us" and "x \<in> set us" and "y \<in> set us"
  shows "ur_ID x = ur_ID y \<Longrightarrow> x = y" and "ur_Username x = ur_Username y \<Longrightarrow> x = y"
    and "oidc_key x = Some k \<Longrightarrow> oidc_key y = Some k \<Longrightarrow> x = y"
  using assms distinct_keys_inj [of oidc_key us x y k]
  by (auto simp: users_ok_def distinct_map dest: inj_onD)

lemma find_unique:
  assumes "x \<in> set xs" and "P x" and "\<And>y. y \<in> set xs \<Longrightarrow> P y \<Longrightarrow> y = x"
  shows "find P xs = Some x"
proof (cases "find P xs")
  case None
  with assms(1,2) show ?thesis by (simp add: find_None_iff)
next
  case (Some y)
  then show ?thesis using assms(3) find_row [OF Some] by blast
qed

lemma find_user:
  assumes "users_ok us" and "q \<in> set us"
  shows "find (\<lambda>r. ur_ID r = ur_ID q) us = Some q" "find (\<lambda>r. ur_Username r = ur_Username q) us = Some q"
    "oidc_key q = Some k \<Longrightarrow> find (\<lambda>r. oidc_key r = Some k) us = Some q"
proof -
  note u = users_ok_unique [OF assms(1) _ assms(2)]
  show "find (\<lambda>r. ur_ID r = ur_ID q) us = Some q"
    by (rule find_unique) (simp_all add: assms(2) u(1))
  show "find (\<lambda>r. ur_Username r = ur_Username q) us = Some q"
    by (rule find_unique) (simp_all add: assms(2) u(2))
  show "find (\<lambda>r. oidc_key r = Some k) us = Some q" if "oidc_key q = Some k"
    by (rule find_unique) (use assms(2) u(3) that in blast)+
qed

text \<open>The row an upsert leaves for an identity.\<close>

lemma upsert_user_Inr:
  assumes "world_ok E w" and "upsert_user E r w = (Inr v, w')" and "oidc_key r = Some k"
  obtains q where "q \<in> set (w_users w')" "oidc_key q = Some k" "v = scanUser q" "ur_IsAdmin q = ur_IsAdmin r"
    "ur_DisplayName q = ur_DisplayName r"
    "\<And>q0. q0 \<in> set (w_users w) \<Longrightarrow> oidc_key q0 = Some k \<Longrightarrow>
       ur_ID q = ur_ID q0 \<and> ur_Username q = ur_Username q0 \<and> ur_Disabled q = ur_Disabled q0 \<and>
       length (w_users w') = length (w_users w)"
    "\<forall>q0 \<in> set (w_users w). oidc_key q0 \<noteq> Some k \<Longrightarrow> ur_ID q = ur_ID r \<and> w_users w' = w_users w @ [r]"
    "\<And>q0. q0 \<in> set (w_users w) \<Longrightarrow> oidc_key q0 \<noteq> Some k \<Longrightarrow> q0 \<in> set (w_users w')"
proof (cases "find (\<lambda>q. oidc_key q = oidc_key r) (w_users w)")
  case None
  then have no: "\<forall>q0 \<in> set (w_users w). oidc_key q0 \<noteq> Some k"
    using assms(3) by (auto simp: find_None_iff)
  from assms(2) None have "v = scanUser r" "w_users w' = w_users w @ [r]"
    by (auto simp: upsert_user_def insert_user_def split: if_splits)
  then show ?thesis
    using no assms(3) by (intro that [of r]) auto
next
  case (Some q)
  define q' where "q' = q\<lparr>ur_DisplayName := ur_DisplayName r, ur_IsAdmin := ur_IsAdmin r,
    ur_LastLoginAt := Some (pg_now E w)\<rparr>"
  have q: "q \<in> set (w_users w)" "oidc_key q = Some k"
    using find_row [OF Some] assms(3) by auto
  from assms(2) Some have v: "v = scanUser q'" "w_users w' = map (\<lambda>x. if ur_ID x = ur_ID q then q' else x) (w_users w)"
    by (auto simp: upsert_user_def Let_def q'_def update_users_def split: if_splits)
  have uniq: "x = q" if "x \<in> set (w_users w)" "ur_ID x = ur_ID q \<or> oidc_key x = Some k" for x
    using users_ok_unique [OF world_okD(2) [OF assms(1)] that(1) q(1)] that(2) q(2) by blast
  have key: "oidc_key q' = Some k" "ur_ID q' = ur_ID q"
    using q(2) by (simp_all add: q'_def oidc_key_def)
  show ?thesis
  proof (rule that [of q'])
    show "q' \<in> set (w_users w')" using q(1) by (auto simp: v(2))
    show "q0 \<in> set (w_users w')" if "q0 \<in> set (w_users w)" "oidc_key q0 \<noteq> Some k" for q0
      using that uniq q(2) by (force simp: v(2))
  qed (use q uniq key v in \<open>auto simp: q'_def\<close>)
qed


text \<open>
  C25. Logins of one OIDC identity always lead to one account. The upsert returns the account that
  already carries the identity, with its identifier, its username and its disabled flag unchanged and
  the administrator flag of this login, or a new enabled account when there is none; afterwards the
  identity looks up exactly the returned account.
\<close>

theorem upsert_keeps_account:
  assumes "world_ok E w" and "UserStore_UpsertOIDC E u w = (Inr v, w1)"
    and "w_users w2 = w_users w1" and "e_fate E (w_tick w2) = Served"
  shows "us_OIDCIssuer v = us_OIDCIssuer u \<and> us_OIDCSubject v = us_OIDCSubject u \<and> us_IsAdmin v = us_IsAdmin u \<and>
    (\<forall>q \<in> set (w_users w). oidc_key q = Some (us_OIDCIssuer u, us_OIDCSubject u) \<longrightarrow>
       us_ID v = ur_ID q \<and> us_Username v = ur_Username q \<and> us_Disabled v = ur_Disabled q \<and>
       length (w_users w1) = length (w_users w)) \<and>
    ((\<forall>q \<in> set (w_users w). oidc_key q \<noteq> Some (us_OIDCIssuer u, us_OIDCSubject u)) \<longrightarrow>
       us_ID v = us_ID u \<and> \<not> us_Disabled v) \<and>
    UserStore_GetByOIDC E (us_OIDCIssuer u) (us_OIDCSubject u) w2 = (Inr v, tick w2)"
proof -
  define r where "r = \<lparr>ur_ID = us_ID u, ur_Username = us_Username u, ur_DisplayName = nullableString (us_DisplayName u),
           ur_Provider = ProviderOIDC, ur_OIDCIssuer = Some (us_OIDCIssuer u),
           ur_OIDCSubject = Some (us_OIDCSubject u), ur_PasswordHash = None, ur_IsAdmin = us_IsAdmin u,
           ur_Disabled = False, ur_CreatedAt = pg_now E (tick w), ur_LastLoginAt = Some (pg_now E (tick w))\<rparr>"
  have up: "upsert_user E r (tick w) = (Inr v, w1)"
    using assms(2) by (auto simp: UserStore_UpsertOIDC_def r_def db_call_Inr)
  have key: "oidc_key r = Some (us_OIDCIssuer u, us_OIDCSubject u)" and adm: "ur_IsAdmin r = us_IsAdmin u"
    by (simp_all add: r_def oidc_key_def)
  have cols: "pg_text (us_OIDCIssuer u) \<and> pg_text (us_OIDCSubject u)"
    using up by (auto simp: upsert_user_def user_columns_text_def r_def split: if_splits)
  have ok: "world_ok E (tick w)" using assms(1) by simp
  have ok1: "world_ok E w1" using upsert_user_world_ok [OF ok, of r] up by simp
  show ?thesis
  proof (cases rule: upsert_user_Inr [OF ok up key])
    case (1 q)
    have "find (\<lambda>x. oidc_key x = Some (us_OIDCIssuer u, us_OIDCSubject u)) (w_users w2) = Some q"
      using find_user(3) [OF world_okD(2) [OF ok1] 1(1,2)] assms(3) by simp
    then have "UserStore_GetByOIDC E (us_OIDCIssuer u) (us_OIDCSubject u) w2 = (Inr v, tick w2)"
      using assms(4) cols 1(3) by (simp add: UserStore_GetByOIDC_def db_call_def select_user_def)
    moreover have "us_OIDCIssuer v = us_OIDCIssuer u \<and> us_OIDCSubject v = us_OIDCSubject u \<and> us_IsAdmin v = us_IsAdmin u"
      using 1(2,3,4) adm by (auto simp: scanUser_def oidc_key_def userColumn_or_empty_def split: option.splits)
    moreover have "\<not> ur_Disabled q" if "ur_ID q = ur_ID r" "w_users w1 = w_users w @ [r]"
    proof -
      have "q = r" using users_ok_unique(1) [OF world_okD(2) [OF ok1] 1(1), of r] that by simp
      then show ?thesis by (simp add: r_def)
    qed
    moreover have "us_ID v = ur_ID q" "us_Username v = ur_Username q" "us_Disabled v = ur_Disabled q" "ur_ID r = us_ID u"
      by (simp_all add: 1(3) scanUser_def r_def)
    ultimately show ?thesis
      using 1(6,7) by simp
  qed
qed


definition sample_oidc :: User where
  "sample_oidc =
     \<lparr>us_ID = 8, us_Username = ''grace'', us_DisplayName = [], us_Provider = ProviderOIDC,
      us_OIDCIssuer = ''https://id.example'', us_OIDCSubject = ''g1'', us_PasswordHash = [], us_IsAdmin = True,
      us_Disabled = False, us_CreatedAt = 0, us_LastLoginAt = None\<rparr>"

lemma sample_upsert: "\<exists>v w1. UserStore_UpsertOIDC sample_env sample_oidc sample_world1 = (Inr v, w1)"
proof -
  have "pg_text ''grace''" "pg_text ''https://id.example''" "pg_text ''g1''"
    by (rule pg_text_ascii, simp)+
  then show ?thesis
    by (simp add: UserStore_UpsertOIDC_def mapE_def db_call_def upsert_user_def user_columns_text_def insert_user_def
      sample_oidc_def sample_world1_def sample_world_def sample_env_def nullableString_def tick_def oidc_key_def
      sample_user_def conflicts_def)
qed

theorem upsert_keeps_account_witness:
  "\<exists>v w1. UserStore_UpsertOIDC sample_env sample_oidc sample_world1 = (Inr v, w1) \<and>
     UserStore_GetByOIDC sample_env (us_OIDCIssuer sample_oidc) (us_OIDCSubject sample_oidc) w1 = (Inr v, tick w1) \<and>
     us_IsAdmin v"
proof -
  obtain v w1 where up: "UserStore_UpsertOIDC sample_env sample_oidc sample_world1 = (Inr v, w1)"
    using sample_upsert by blast
  have "e_fate sample_env (w_tick w1) = Served" by (simp add: sample_env_def)
  from upsert_keeps_account [OF sample_world1_ok(1) up refl this] up show ?thesis
    by (auto simp: sample_oidc_def)
qed

end
