(* ===== verification/Phc.thy ===== *)
theory Phc
  imports Envelope Base64 Netip
begin

text \<open>
  The password hashes of \<^verbatim>\<open>internal/crypto/phc.go\<close>: the PHC string that \<^verbatim>\<open>HashPassword\<close> prints and
  \<^verbatim>\<open>VerifyPassword\<close> reads, with Go's \<^verbatim>\<open>fmt.Sscanf\<close> for the format of the parameters.
\<close>

section \<open>Scanning\<close>

text \<open>
  \<^verbatim>\<open>fmt.Sscanf\<close> skips white space before an operand, but a newline is an error there. A
  \<^verbatim>\<open>%d\<close> reads a non-empty run of decimal digits that must fit the operand; input after the last
  operand is ignored.
\<close>

definition scan_space :: "string \<Rightarrow> string option" where
  "scan_space s =
     (let t = trim_left space_runes s
      in if CHR 0x0A \<in> set (take (length s - length t) s) then None else Some t)"

definition scan_uint :: "nat \<Rightarrow> string \<Rightarrow> (nat \<times> string) option" where
  "scan_uint width s =
     (case scan_space s of
        None \<Rightarrow> None
      | Some t \<Rightarrow>
          (let ds = takeWhile is_digit t
           in if ds = [] then None
              else case read_digits 0 ds of
                     None \<Rightarrow> None
                   | Some n \<Rightarrow> if n < 2 ^ width then Some (n, dropWhile is_digit t) else None))"

definition scan_lit :: "string \<Rightarrow> string \<Rightarrow> string option" where
  "scan_lit l s = (if HasPrefix s l then Some (drop (length l) s) else None)"

definition scan_params :: "string \<Rightarrow> Argon2Params option" where
  "scan_params s =
     Option.bind (scan_lit ''m='' s) (\<lambda>s.
     Option.bind (scan_uint 32 s) (\<lambda>(m, s).
     Option.bind (scan_lit '',t='' s) (\<lambda>s.
     Option.bind (scan_uint 32 s) (\<lambda>(t, s).
     Option.bind (scan_lit '',p='' s) (\<lambda>s.
     Option.bind (scan_uint 8 s) (\<lambda>(p, s).
     Some \<lparr>ap_Time = of_nat t, ap_MemoryKiB = of_nat m, ap_Threads = of_nat p\<rparr>))))))"

section \<open>Hashing and verifying\<close>

definition phc_string :: "Argon2Params \<Rightarrow> bytes \<Rightarrow> bytes \<Rightarrow> string" where
  "phc_string p salt key =
     ''$argon2id$v=19$m='' @ show_nat (unat (ap_MemoryKiB p)) @ '',t='' @ show_nat (unat (ap_Time p)) @
     '',p='' @ show_nat (unat (ap_Threads p)) @ ''$'' @ RawStd_Encode salt @ ''$'' @ RawStd_Encode key"

definition HashPassword :: "'r env \<Rightarrow> string \<Rightarrow> Argon2Params \<Rightarrow> ('r world, string) op" where
  "HashPassword E password p =
     bindR (randomBytes E 16) (\<lambda>salt.
     bindR (DeriveKey E password salt p) (\<lambda>key.
     retR (phc_string p salt key)))"

text \<open>The four parts of a PHC string: parameters, salt and expected key.\<close>

definition parse_phc :: "string \<Rightarrow> (Argon2Params \<times> bytes \<times> bytes) res" where
  "parse_phc phc =
     (case Split CHR ''$'' phc of
        [_, alg, ver, params, salt, key] \<Rightarrow>
          if alg \<noteq> ''argon2id'' \<or> ver \<noteq> ''v=19'' then Inl (EText ''crypto: unsupported phc string'')
          else (case scan_params params of
                  None \<Rightarrow> Inl (EWrap ''crypto: phc params'' (EText ''scan''))
                | Some p \<Rightarrow>
                    (case (RawStd_Decode salt, RawStd_Decode key) of
                       (Some s, Some k) \<Rightarrow> Inr (p, s, k)
                     | _ \<Rightarrow> Inl (EText ''illegal base64 data'')))
      | _ \<Rightarrow> Inl (EText ''crypto: unsupported phc string''))"

definition VerifyPassword :: "'r env \<Rightarrow> string \<Rightarrow> string \<Rightarrow> ('r world, bool) op" where
  "VerifyPassword E phc password =
     bindR (liftR (parse_phc phc)) (\<lambda>(p, salt, want).
     bindR (DeriveKey E password salt p) (\<lambda>got.
     retR (got = want)))"

section \<open>Printing and parsing\<close>

lemma is_digit_char_digit: "is_digit c \<longleftrightarrow> char_digit c \<noteq> None"
  by (simp add: is_digit_def char_digit_def Let_def)

lemma strip_one_other: "list_all (\<lambda>r. r \<noteq> [] \<and> hd r \<noteq> c) rs \<Longrightarrow> strip_one rs (c # s) = None"
proof (induction rs)
  case (Cons r rs)
  then show ?case by (cases r) auto
qed simp

lemma scan_space_digit:
  assumes "is_digit c"
  shows "scan_space (c # s) = Some (c # s)"
proof -
  have "list_all (\<lambda>r. r \<noteq> [] \<and> \<not> is_digit (hd r)) space_runes" by code_simp
  then have "list_all (\<lambda>r. r \<noteq> [] \<and> hd r \<noteq> c) space_runes"
    using assms by (auto simp: list_all_iff)
  then have "trim_left space_runes (c # s) = c # s"
    by (subst trim_left.simps) (simp add: strip_one_other)
  then show ?thesis by (simp add: scan_space_def)
qed

lemma scan_uint_show_nat:
  assumes "n < 2 ^ width" and "s = [] \<or> \<not> is_digit (hd s)"
  shows "scan_uint width (show_nat n @ s) = Some (n, s)"
proof -
  have digits: "\<forall>c \<in> set (show_nat n). is_digit c"
    using show_nat_digits by (simp add: is_digit_char_digit)
  then obtain c cs where c: "show_nat n = c # cs" "is_digit c"
    by (metis list.set_intros(1) show_nat_nonempty list.exhaust)
  then have "scan_space (show_nat n @ s) = Some (show_nat n @ s)"
    by (simp add: scan_space_digit)
  moreover have "takeWhile is_digit (show_nat n @ s) = show_nat n" "dropWhile is_digit (show_nat n @ s) = s"
    using digits assms(2) by (cases s; simp add: takeWhile_append2 dropWhile_append2)+
  ultimately show ?thesis
    using assms(1) by (simp add: scan_uint_def read_digits_show_nat)
qed

lemma unat_bounds: "unat (x :: 32 word) < 2 ^ 32" "unat (y :: 8 word) < 2 ^ 8"
  using unsigned_less [of x] unsigned_less [of y] by simp_all

lemma scan_params_print:
  "scan_params (''m='' @ show_nat (unat (ap_MemoryKiB p)) @ '',t='' @ show_nat (unat (ap_Time p)) @
     '',p='' @ show_nat (unat (ap_Threads p))) = Some (p :: Argon2Params)"
proof -
  have nd: "\<not> is_digit CHR '',''" by (simp add: is_digit_def)
  show ?thesis
    using scan_uint_show_nat [OF unat_bounds(2), of "[]" "ap_Threads p"]
    by (simp add: scan_params_def scan_lit_def HasPrefix_def scan_uint_show_nat unat_bounds [simplified] nd
          scan_uint_show_nat [where width = 32, simplified])
qed

lemma dollar_free:
  "CHR ''$'' \<notin> set (RawStd_Encode b)" "CHR ''$'' \<notin> set (show_nat n)"
proof -
  have "CHR ''$'' \<notin> insert CHR ''='' (set std_alphabet)" by code_simp
  then show "CHR ''$'' \<notin> set (RawStd_Encode b)"
    using std64.set_EncodeToString by blast
  show "CHR ''$'' \<notin> set (show_nat n)"
    using show_nat_digits [of "CHR ''$''" n] by (auto simp: char_digit_def)
qed

lemma parse_phc_string: "parse_phc (phc_string p salt key) = Inr (p, salt, key)"
proof -
  let ?ps = "''m='' @ show_nat (unat (ap_MemoryKiB p)) @ '',t='' @ show_nat (unat (ap_Time p)) @
     '',p='' @ show_nat (unat (ap_Threads p))"
  have nodollar: "CHR ''$'' \<notin> set []" "CHR ''$'' \<notin> set ''argon2id''" "CHR ''$'' \<notin> set ''v=19''" "CHR ''$'' \<notin> set ?ps"
    by (simp_all add: dollar_free)
  have eq: "phc_string p salt key =
    [] @ CHR ''$'' # ''argon2id'' @ CHR ''$'' # ''v=19'' @ CHR ''$'' # ?ps @ CHR ''$'' #
    RawStd_Encode salt @ CHR ''$'' # RawStd_Encode key"
    by (simp add: phc_string_def)
  have "Split CHR ''$'' (phc_string p salt key) = [[], ''argon2id'', ''v=19'', ?ps, RawStd_Encode salt, RawStd_Encode key]"
    by (simp only: eq Split_append [OF nodollar(1)] Split_append [OF nodollar(2)] Split_append [OF nodollar(3)]
          Split_append [OF nodollar(4)] Split_append [OF dollar_free(1)] Split_single [OF dollar_free(1)])
  then show ?thesis
    by (simp add: parse_phc_def scan_params_print [simplified] std64.DecodeString_EncodeToString)
qed


section \<open>A hash verifies its own password\<close>

lemma HashPassword_Inr:
  assumes "HashPassword E pw p w = (Inr phc, w')"
  shows "ap_Time p \<noteq> 0" "ap_Threads p \<noteq> 0"
    "\<exists>salt. phc = phc_string p salt
       (e_argon2 E (bytes_of pw) salt (ap_Time p) (ap_MemoryKiB p) (ap_Threads p) keyLen)"
  using assms by (auto simp: HashPassword_def bindR_Inr dest!: DeriveKey_Inr)

lemma HashPassword_healthy:
  assumes "slot_free E (tick w)" and "e_rand E (w_tick w) 16 \<noteq> None" and "ap_Time p \<noteq> 0" and "ap_Threads p \<noteq> 0"
  shows "\<exists>phc w'. HashPassword E pw p w = (Inr phc, w')"
proof -
  obtain salt where "e_rand E (w_tick w) 16 = Some salt" using assms(2) by blast
  moreover obtain w' where "DeriveKey E pw salt p (tick w) =
    (Inr (e_argon2 E (bytes_of pw) salt (ap_Time p) (ap_MemoryKiB p) (ap_Threads p) keyLen), w')"
    using DeriveKey_slot_free [OF assms(1,3,4)] by blast
  ultimately show ?thesis
    by (simp add: HashPassword_def bindR_def randomBytes_def)
qed

text \<open>
  C23. A password is accepted against its own hash, and another password is accepted only when
  the key derivation maps both to the same key under the stored salt and costs: the printed
  hash carries everything the verification needs.
\<close>

theorem verify_hash:
  assumes "HashPassword E pw p w = (Inr phc, w1)" and "slot_free E w2"
  shows "\<exists>salt w3. parse_phc phc = Inr (p, salt, e_argon2 E (bytes_of pw) salt (ap_Time p) (ap_MemoryKiB p) (ap_Threads p) keyLen) \<and>
    VerifyPassword E phc pw' w2 =
      (Inr (e_argon2 E (bytes_of pw') salt (ap_Time p) (ap_MemoryKiB p) (ap_Threads p) keyLen =
            e_argon2 E (bytes_of pw) salt (ap_Time p) (ap_MemoryKiB p) (ap_Threads p) keyLen), w3)"
proof -
  note h = HashPassword_Inr [OF assms(1)]
  from h(3) obtain salt where phc: "phc = phc_string p salt
    (e_argon2 E (bytes_of pw) salt (ap_Time p) (ap_MemoryKiB p) (ap_Threads p) keyLen)" by blast
  obtain w3 where "DeriveKey E pw' salt p w2 =
    (Inr (e_argon2 E (bytes_of pw') salt (ap_Time p) (ap_MemoryKiB p) (ap_Threads p) keyLen), w3)"
    using DeriveKey_slot_free [OF assms(2) h(1,2)] by blast
  then show ?thesis
    by (auto simp: VerifyPassword_def bindR_def phc parse_phc_string)
qed

theorem verify_hash_witness:
  "\<exists>phc w1 w3. HashPassword sample_env ''open sesame'' sample_params sample_world = (Inr phc, w1) \<and>
     VerifyPassword sample_env phc ''open sesame'' sample_world = (Inr True, w3)"
proof -
  have slot: "slot_free sample_env sample_world" "slot_free sample_env (tick sample_world)"
    by (simp_all add: slot_free_def sample_env_def sample_world_def NewGate_def)
  have costs: "e_rand sample_env (w_tick sample_world) 16 \<noteq> None" "ap_Time sample_params \<noteq> 0"
    "ap_Threads sample_params \<noteq> 0"
    by (simp_all add: sample_params_def sample_env_def)
  obtain phc w1 where "HashPassword sample_env ''open sesame'' sample_params sample_world = (Inr phc, w1)"
    using HashPassword_healthy [OF slot(2), of sample_params "''open sesame''"] costs by blast
  with verify_hash [OF this slot(1), of "''open sesame''"] show ?thesis by auto
qed

end
