(* ===== verification/AuthPorts.thy ===== *)
theory AuthPorts
  imports UserStore Phc
begin

text \<open>
  \<^verbatim>\<open>internal/auth/ports.go\<close>, \<^verbatim>\<open>random.go\<close> and \<^verbatim>\<open>hasher.go\<close>: the interfaces of the account store and of the
  password hasher as records of operations, the contracts their clients rely on as locales, and the
  interpretations of the contracts on the Postgres store and the Argon2id hasher.
\<close>

section \<open>Interfaces\<close>

record 's UserStore =
  up_Create :: "User \<Rightarrow> ('s, unit) op"
  up_GetByID :: "uuid \<Rightarrow> ('s, User) op"
  up_GetByUsername :: "string \<Rightarrow> ('s, User) op"
  up_GetByOIDC :: "string \<Rightarrow> string \<Rightarrow> ('s, User) op"
  up_UpsertOIDC :: "User \<Rightarrow> ('s, User) op"
  up_SetPasswordHash :: "uuid \<Rightarrow> string \<Rightarrow> ('s, unit) op"
  up_SetDisabled :: "uuid \<Rightarrow> bool \<Rightarrow> ('s, unit) op"
  up_TouchLogin :: "uuid \<Rightarrow> gtime \<Rightarrow> ('s, unit) op"
  up_List :: "('s, User list) op"

record 's PasswordHasher =
  ph_Hash :: "string \<Rightarrow> ('s, string) op"
  ph_Verify :: "string \<Rightarrow> string \<Rightarrow> ('s, bool) op"

definition user_Principal :: "User \<Rightarrow> Principal" where
  "user_Principal u = \<lparr>pr_UserID = us_ID u, pr_Username = us_Username u, pr_IsAdmin = us_IsAdmin u\<rparr>"

text \<open>\<^verbatim>\<open>RandomToken\<close> panics when the random source fails.\<close>

definition RandomToken :: "'r env \<Rightarrow> nat \<Rightarrow> ('r world, string) op" where
  "RandomToken E nBytes w =
     (case e_rand E (w_tick w) nBytes of
        None \<Rightarrow> (Inl (EPanic ''crypto/rand failed''), tick w)
      | Some b \<Rightarrow> (Inr (RawURL_Encode b), tick w))"

section \<open>The hasher\<close>

definition mapBusy :: "goerr \<Rightarrow> goerr" where
  "mapBusy err = (if errors_Is err ErrBusy then ErrKDFBusy else err)"

definition Argon2Hasher_Hash :: "'r env \<Rightarrow> Argon2Params \<Rightarrow> string \<Rightarrow> ('r world, string) op" where
  "Argon2Hasher_Hash E params password = mapE mapBusy (HashPassword E password params)"

definition Argon2Hasher_Verify :: "'r env \<Rightarrow> string \<Rightarrow> string \<Rightarrow> ('r world, bool) op" where
  "Argon2Hasher_Verify E phc password = mapE mapBusy (VerifyPassword E phc password)"

definition NewArgon2Hasher :: "'r env \<Rightarrow> Argon2Params \<Rightarrow> 'r world PasswordHasher" where
  "NewArgon2Hasher E params = \<lparr>ph_Hash = Argon2Hasher_Hash E params, ph_Verify = Argon2Hasher_Verify E\<rparr>"

definition NewUserStore :: "'r env \<Rightarrow> string comparator \<Rightarrow> 'r world UserStore" where
  "NewUserStore E collation =
     \<lparr>up_Create = UserStore_Create E, up_GetByID = UserStore_GetByID E,
      up_GetByUsername = UserStore_GetByUsername E, up_GetByOIDC = UserStore_GetByOIDC E,
      up_UpsertOIDC = UserStore_UpsertOIDC E, up_SetPasswordHash = UserStore_SetPasswordHash E,
      up_SetDisabled = UserStore_SetDisabled E, up_TouchLogin = UserStore_TouchLogin E,
      up_List = UserStore_List E collation\<rparr>"

section \<open>Contracts\<close>

text \<open>
  Accounts: what a lookup returns is an account of the store and lookups change none; the three
  updates change the named field of the named account only.
\<close>

locale user_directory =
  fixes U :: "'s UserStore" and accounts :: "'s \<Rightarrow> User list"
  assumes by_username: "up_GetByUsername U n s = (Inr u, s') \<Longrightarrow> u \<in> set (accounts s) \<and> us_Username u = n"
    and no_username: "up_GetByUsername U n s = (Inl ErrUserNotFound, s') \<Longrightarrow> n \<notin> us_Username ` set (accounts s)"
    and by_id: "up_GetByID U i s = (Inr u, s') \<Longrightarrow> u \<in> set (accounts s) \<and> us_ID u = i"
    and lookups_keep: "accounts (snd (up_GetByUsername U n s)) = accounts s"
      "accounts (snd (up_GetByID U i s)) = accounts s"
    and set_password: "up_SetPasswordHash U i phc s = (Inr x, s') \<Longrightarrow>
      accounts s' = map (\<lambda>u. if us_ID u = i then u\<lparr>us_PasswordHash := phc\<rparr> else u) (accounts s)"
    and set_disabled: "up_SetDisabled U i d s = (Inr x, s') \<Longrightarrow>
      accounts s' = map (\<lambda>u. if us_ID u = i then u\<lparr>us_Disabled := d\<rparr> else u) (accounts s)"

text \<open>Passwords: \<open>accepts\<close> says which passwords a stored hash stands for.\<close>

locale password_hasher =
  fixes H :: "'s PasswordHasher" and accepts :: "string \<Rightarrow> string \<Rightarrow> bool"
  assumes verify_result: "ph_Verify H phc pw s = (Inr b, s') \<Longrightarrow> b = accepts phc pw"
    and hash_accepted: "ph_Hash H pw s = (Inr phc, s') \<Longrightarrow> accepts phc pw"

section \<open>The contracts hold of the repository's implementations\<close>

definition user_accounts :: "'r world \<Rightarrow> User list" where
  "user_accounts w = map scanUser (w_users w)"

lemma accounts_tick [simp]: "user_accounts (tick w) = user_accounts w"
  by (simp add: user_accounts_def)

lemma accounts_update:
  assumes "\<And>r. P r = Q (scanUser r)" and "\<And>r. P r \<Longrightarrow> scanUser (f r) = g (scanUser r)"
  shows "user_accounts (update_users P f w) = map (\<lambda>u. if Q u then g u else u) (user_accounts w)"
  using assms by (auto simp: user_accounts_def update_users_def)

lemma select_user_Inr:
  "select_user a P w = (Inr u, w') \<Longrightarrow> \<exists>r. r \<in> set (w_users w) \<and> P r \<and> u = scanUser r"
  by (auto simp: select_user_def split: if_splits option.splits dest: find_row)

lemma scanUser_simps [simp]:
  "us_ID (scanUser r) = ur_ID r" "us_Username (scanUser r) = ur_Username r"
  "us_Disabled (scanUser r) = ur_Disabled r" "us_IsAdmin (scanUser r) = ur_IsAdmin r"
  "us_Provider (scanUser r) = ur_Provider r"
  "us_PasswordHash (scanUser r) = userColumn_or_empty (ur_PasswordHash r)"
  by (simp_all add: scanUser_def)

interpretation pg_users: user_directory "NewUserStore E collation" user_accounts for E collation
proof (unfold_locales, goal_cases)
  case (1 n s u s')
  then show ?case
    by (auto simp: NewUserStore_def UserStore_GetByUsername_def db_call_Inr user_accounts_def dest!: select_user_Inr)
next
  case (2 n s s')
  then show ?case
    by (auto simp: NewUserStore_def UserStore_GetByUsername_def db_call_def user_accounts_def select_user_def
      bad_encoding_def find_None_iff split: fate.splits prod.splits if_splits option.splits)
next
  case (3 i s u s')
  then show ?case
    by (auto simp: NewUserStore_def UserStore_GetByID_def db_call_Inr user_accounts_def dest!: select_user_Inr)
next
  case (4 n s)
  show ?case
    by (simp add: NewUserStore_def UserStore_GetByUsername_def) (rule db_call_keeps, simp_all)
next
  case (5 i s)
  show ?case
    by (simp add: NewUserStore_def UserStore_GetByID_def) (rule db_call_keeps, simp_all)
next
  case (6 i phc s x s')
  then show ?case
    by (auto simp: NewUserStore_def UserStore_SetPasswordHash_def db_call_Inr scanUser_def userColumn_or_empty_def
      intro!: accounts_update [where w = "tick s", simplified] split: if_splits)
next
  case (7 i d s x s')
  then show ?case
    by (auto simp: NewUserStore_def UserStore_SetDisabled_def db_call_Inr scanUser_def
      intro!: accounts_update [where w = "tick s", simplified])
qed

definition phc_accepts :: "'r env \<Rightarrow> string \<Rightarrow> string \<Rightarrow> bool" where
  "phc_accepts E phc pw =
     (case parse_phc phc of
        Inl _ \<Rightarrow> False
      | Inr (p, salt, want) \<Rightarrow>
          ap_Time p \<noteq> 0 \<and> ap_Threads p \<noteq> 0 \<and>
          e_argon2 E (bytes_of pw) salt (ap_Time p) (ap_MemoryKiB p) (ap_Threads p) keyLen = want)"

interpretation argon2: password_hasher "NewArgon2Hasher E params" "phc_accepts E" for E params
proof (unfold_locales, goal_cases)
  case (1 phc pw s b s')
  then show ?case
    by (auto simp: NewArgon2Hasher_def Argon2Hasher_Verify_def VerifyPassword_def bindR_Inr phc_accepts_def
      dest!: DeriveKey_Inr)
next
  case (2 pw s phc s')
  then have "HashPassword E pw params s = (Inr phc, s')"
    by (simp add: NewArgon2Hasher_def Argon2Hasher_Hash_def)
  from HashPassword_Inr [OF this] show ?case
    by (auto simp: phc_accepts_def parse_phc_string)
qed

end
