(* ===== verification/Sessions.thy ===== *)
theory Sessions
  imports AuthPorts Tables
begin

text \<open>
  \<^verbatim>\<open>internal/store/redis/sessions.go\<close>: login sessions in Redis hashes. The two Lua scripts run
  atomically on the server, at one reading of its clock; a run of a script is one round trip.
\<close>

section \<open>The operations\<close>

record Session =
  se_ID :: string
  se_UserID :: uuid
  se_CreatedAt :: gtime
  se_AbsoluteExpiry :: gtime
  se_CSRFToken :: string

definition sessionTokenBytes :: nat where "sessionTokenBytes = 32"

definition createSessionScript ::
  "'r redis_srv \<Rightarrow> string \<Rightarrow> (string \<times> string) list \<Rightarrow> int \<Rightarrow> int \<Rightarrow> 'r \<Rightarrow> int res \<times> 'r" where
  "createSessionScript R k fvs deadline t s =
     (if rs_exists R t k s then (Inr 0, s)
      else
        (let s1 = rs_hset R t k fvs s;
             (n, s2) = rs_pexpireat R t k deadline s1
         in if n \<noteq> 1 then (Inl (EText ''failed to expire session''), rs_del R t k s2)
            else if \<not> rs_exists R t k s2 then (Inr (- 1), s2)
            else (Inr 1, s2)))"

definition touchSessionScript :: "'r redis_srv \<Rightarrow> string \<Rightarrow> string \<Rightarrow> int \<Rightarrow> int \<Rightarrow> 'r \<Rightarrow> int res \<times> 'r" where
  "touchSessionScript R k abs_exp deadline t s =
     (if \<not> rs_exists R t k s then (Inr 0, s)
      else if rs_hget R t k ''abs_exp'' s \<noteq> Some abs_exp then (Inr (- 1), s)
      else (let (n, s') = rs_pexpireat R t k deadline s in (Inr n, s')))"

definition sessKey :: "string \<Rightarrow> string" where
  "sessKey i = ''sess:'' @ i"

definition sessionDeadline :: "duration \<Rightarrow> gtime \<Rightarrow> gtime \<Rightarrow> gtime res" where
  "sessionDeadline idleTTL absoluteExpiry now =
     (if idleTTL \<le> 0 then Inl (EText ''redis: session idle ttl must be positive'')
      else if \<not> now < absoluteExpiry then Inl (EText ''redis: session absolute ttl must be positive'')
      else
        (let deadline = now + idleTTL;
             deadline = (if absoluteExpiry < deadline then absoluteExpiry else deadline);
             deadline = Truncate_ms deadline
         in if \<not> now < deadline then Inl (EText ''redis: session ttl is below redis precision'')
            else Inr deadline))"

definition encodeSessionTime :: "gtime \<Rightarrow> string" where
  "encodeSessionTime t = FormatInt (UnixNano t)"

definition decodeSessionTime :: "string \<Rightarrow> gtime option" where
  "decodeSessionTime v =
     (case ParseInt v of
        None \<Rightarrow> None
      | Some n \<Rightarrow> if - 1000000000000 < n \<and> n < 1000000000000 then Some (n * Second) else Some n)"

definition validSessionToken :: "string \<Rightarrow> bool" where
  "validSessionToken v =
     (case RawURL_Decode v of None \<Rightarrow> False | Some raw \<Rightarrow> length raw = sessionTokenBytes)"

definition session_now :: "'r env \<Rightarrow> ('r world, gtime) op" where
  "session_now E w = (let (t, w') = clock_Now E w in (Inr t, w'))"

definition run_script :: "'r env \<Rightarrow> string \<Rightarrow> (int \<Rightarrow> 'r \<Rightarrow> int res \<times> 'r) \<Rightarrow> ('r world, int) op" where
  "run_script E what script = mapE (EWrap what) (bindR (redis_call E script) liftR)"

definition session_del :: "'r env \<Rightarrow> string \<Rightarrow> ('r world, unit) op" where
  "session_del E i = redis_call E (\<lambda>t s. ((), rs_del (e_redis E) t (sessKey i) s))"

text \<open>An error return that first deletes the key and ignores the outcome of that.\<close>

definition drop_session :: "'r env \<Rightarrow> string \<Rightarrow> goerr \<Rightarrow> ('r world, 'a) op" where
  "drop_session E i e w = (Inl e, snd (session_del E i w))"

text \<open>The body of the loop of \<^verbatim>\<open>Create\<close> and its four rounds.\<close>

definition session_fields :: "'r env \<Rightarrow> Session \<Rightarrow> (string \<times> string) list" where
  "session_fields E sess =
     [(''user_id'', e_uuid_String E (se_UserID sess)),
      (''created_at'', encodeSessionTime (se_CreatedAt sess)),
      (''abs_exp'', encodeSessionTime (se_AbsoluteExpiry sess)),
      (''csrf'', se_CSRFToken sess)]"

definition expired_during_write :: goerr where
  "expired_during_write = EText ''redis: create session: expired during write''"

fun create_rounds :: "'r env \<Rightarrow> uuid \<Rightarrow> gtime \<Rightarrow> gtime \<Rightarrow> gtime \<Rightarrow> nat \<Rightarrow> ('r world, Session) op" where
  "create_rounds E userID now absoluteExpiry deadline 0 =
     failR (EText ''redis: create session: could not allocate unique id'')"
| "create_rounds E userID now absoluteExpiry deadline (Suc n) =
     bindR (RandomToken E sessionTokenBytes) (\<lambda>i.
     bindR (RandomToken E sessionTokenBytes) (\<lambda>csrf.
     let sess = \<lparr>se_ID = i, se_UserID = userID, se_CreatedAt = now, se_AbsoluteExpiry = absoluteExpiry,
                 se_CSRFToken = csrf\<rparr>
     in bindR (run_script E ''redis: create session''
                 (createSessionScript (e_redis E) (sessKey i) (session_fields E sess) (UnixMilli deadline)))
          (\<lambda>created.
             if created = 0 then create_rounds E userID now absoluteExpiry deadline n
             else if created = - 1 then drop_session E i expired_during_write
             else bindR (session_now E) (\<lambda>later.
                    if \<not> later < deadline then drop_session E i expired_during_write
                    else if created = 1 then retR sess
                    else create_rounds E userID now absoluteExpiry deadline n))))"

definition SessionStore_Create :: "'r env \<Rightarrow> uuid \<Rightarrow> duration \<Rightarrow> duration \<Rightarrow> ('r world, Session) op" where
  "SessionStore_Create E userID idleTTL absoluteTTL =
     bindR (session_now E) (\<lambda>now.
       if absoluteTTL \<le> 0 then failR (EText ''redis: session absolute ttl must be positive'')
       else
         (let absoluteExpiry = now + absoluteTTL
          in bindR (liftR (sessionDeadline idleTTL absoluteExpiry now)) (\<lambda>deadline.
             create_rounds E userID now absoluteExpiry deadline 4)))"

definition field :: "(string \<times> string) list \<Rightarrow> string \<Rightarrow> string" where
  "field record f = (case map_of record f of None \<Rightarrow> [] | Some v \<Rightarrow> v)"

definition malformed :: "string \<Rightarrow> goerr" where
  "malformed what = EText (''redis: malformed session: '' @ what)"

text \<open>The decoding of a stored hash in \<^verbatim>\<open>get\<close>.\<close>

definition decode_session :: "'r env \<Rightarrow> string \<Rightarrow> (string \<times> string) list \<Rightarrow> Session res" where
  "decode_session E i record =
     (case e_uuid_Parse E (field record ''user_id'') of
        None \<Rightarrow> Inl (malformed ''invalid user id'')
      | Some userID \<Rightarrow>
     (case decodeSessionTime (field record ''created_at'') of
        None \<Rightarrow> Inl (malformed ''invalid creation time'')
      | Some createdAt \<Rightarrow>
     (case decodeSessionTime (field record ''abs_exp'') of
        None \<Rightarrow> Inl (malformed ''invalid absolute expiry'')
      | Some absoluteExpiry \<Rightarrow>
          if \<not> createdAt < absoluteExpiry then Inl (malformed ''invalid expiry ordering'')
          else if \<not> validSessionToken (field record ''csrf'') then Inl (malformed ''invalid csrf token'')
          else Inr \<lparr>se_ID = i, se_UserID = userID, se_CreatedAt = createdAt,
                    se_AbsoluteExpiry = absoluteExpiry, se_CSRFToken = field record ''csrf''\<rparr>)))"

definition session_get :: "'r env \<Rightarrow> string \<Rightarrow> ('r world, Session \<times> string) op" where
  "session_get E i =
     (if i = [] then failR ErrSessionNotFound
      else
        bindR (mapE (EWrap ''redis: get session'')
                 (redis_call E (\<lambda>t s. (rs_hgetall (e_redis E) t (sessKey i) s, s)))) (\<lambda>record.
        if record = [] then failR ErrSessionNotFound
        else bindR (liftR (decode_session E i record)) (\<lambda>sess.
             bindR (session_now E) (\<lambda>now.
               if \<not> now < se_AbsoluteExpiry sess then drop_session E i ErrSessionNotFound
               else retR (sess, field record ''abs_exp'')))))"

definition SessionStore_Get :: "'r env \<Rightarrow> string \<Rightarrow> ('r world, Session) op" where
  "SessionStore_Get E i = bindR (session_get E i) (\<lambda>(sess, _). retR sess)"

definition SessionStore_Touch :: "'r env \<Rightarrow> string \<Rightarrow> duration \<Rightarrow> ('r world, unit) op" where
  "SessionStore_Touch E i idleTTL =
     (if idleTTL \<le> 0 then failR (EText ''redis: session idle ttl must be positive'')
      else
        bindR (session_get E i) (\<lambda>(sess, absoluteRaw).
        bindR (session_now E) (\<lambda>now.
          case sessionDeadline idleTTL (se_AbsoluteExpiry sess) now of
            Inl err \<Rightarrow>
              if \<not> now < se_AbsoluteExpiry sess then drop_session E i ErrSessionNotFound else failR err
          | Inr deadline \<Rightarrow>
              bindR (run_script E ''redis: touch session''
                       (touchSessionScript (e_redis E) (sessKey i) absoluteRaw (UnixMilli deadline))) (\<lambda>touched.
              if touched \<noteq> 1 then failR ErrSessionNotFound
              else bindR (session_now E) (\<lambda>later.
                     if \<not> later < deadline then drop_session E i ErrSessionNotFound else retR ())))))"

definition SessionStore_Delete :: "'r env \<Rightarrow> string \<Rightarrow> ('r world, unit) op" where
  "SessionStore_Delete E i = mapE (EWrap ''redis: delete session'') (session_del E i)"


section \<open>The scripts on the observable content\<close>

lemma createSessionScript_view:
  assumes "redis_laws R"
  shows "rs_view R s t k \<noteq> None \<Longrightarrow> createSessionScript R k fs d t s = (Inr 0, s)"
    "rs_view R s t k = None \<Longrightarrow> fst (createSessionScript R k fs d t s) = Inr (if d \<le> t then - 1 else 1)"
    "rs_view R s t k = None \<Longrightarrow> rs_view R (snd (createSessionScript R k fs d t s)) t =
       (if d \<le> t then rs_view R s t else (rs_view R s t)(k \<mapsto> (RHash fs, Some d)))"
proof -
  note laws = redis_string_lawsD [OF assms] redis_hash_lawsD [OF assms] redis_expire_lawsD [OF assms]
  obtain n s2 where p: "rs_pexpireat R t k d (rs_hset R t k fs s) = (n, s2)" by (metis surj_pair)
  show "createSessionScript R k fs d t s = (Inr 0, s)" if "rs_view R s t k \<noteq> None"
    using that by (simp add: createSessionScript_def laws)
  assume new: "rs_view R s t k = None"
  have n: "n = 1" and view: "rs_view R s2 t = (rs_view R s t)(k := expire_entry t d (Some (RHash fs, None)))"
    using redis_expire_lawsD [OF assms, of t k d "rs_hset R t k fs s"] new by (simp_all add: p laws)
  show "fst (createSessionScript R k fs d t s) = Inr (if d \<le> t then - 1 else 1)"
    using new by (simp add: createSessionScript_def laws p n view expire_entry_def Let_def)
  show "rs_view R (snd (createSessionScript R k fs d t s)) t =
       (if d \<le> t then rs_view R s t else (rs_view R s t)(k \<mapsto> (RHash fs, Some d)))"
    using new by (auto simp: createSessionScript_def laws p n view expire_entry_def Let_def fun_eq_iff)
qed

lemma touchSessionScript_view:
  assumes "redis_laws R"
  shows "rs_view R s t k = None \<Longrightarrow> touchSessionScript R k x d t s = (Inr 0, s)"
    "rs_view R s t k = Some (RHash fs, y) \<Longrightarrow> map_of fs ''abs_exp'' \<noteq> Some x \<Longrightarrow>
       touchSessionScript R k x d t s = (Inr (- 1), s)"
    "rs_view R s t k = Some (RHash fs, y) \<Longrightarrow> map_of fs ''abs_exp'' = Some x \<Longrightarrow>
       fst (touchSessionScript R k x d t s) = Inr 1 \<and>
       rs_view R (snd (touchSessionScript R k x d t s)) t =
         (rs_view R s t)(k := (if d \<le> t then None else Some (RHash fs, Some d)))"
  using redis_expire_lawsD [OF assms, of t k d s]
  by (auto simp: touchSessionScript_def redis_string_lawsD [OF assms] redis_hash_lawsD [OF assms] expire_entry_def
    split: prod.splits)


section \<open>Times and tokens\<close>

lemma decode_encode_time:
  assumes "1000000000000 \<le> t" and "t < 2 ^ 63"
  shows "decodeSessionTime (encodeSessionTime t) = Some t"
proof -
  have "in64 t" using assms by (simp add: in64_def)
  then show ?thesis
    using assms by (simp add: decodeSessionTime_def encodeSessionTime_def UnixNano_def wrap64_id ParseInt_FormatInt)
qed

lemma sessionDeadline_Inr:
  assumes "sessionDeadline idle x now = Inr d"
  shows "now < d" "d \<le> now + idle" "d \<le> x" "UnixMilli d * 1000000 = d" "now < x"
proof -
  define e where "e = (if x < now + idle then x else now + idle)"
  have e: "d = Truncate_ms e" "now < d" "now < x"
    using assms by (auto simp: sessionDeadline_def e_def Let_def split: if_splits)
  then show "now < d" "now < x" by simp_all
  have "d \<le> e" using e(1) Truncate_ms_le by simp
  then show "d \<le> now + idle" "d \<le> x" by (auto simp: e_def split: if_splits)
  show "UnixMilli d * 1000000 = d" using e(1) UnixMilli_Truncate by simp
qed

lemma RandomToken_Inr:
  assumes "crypto_laws E" and "RandomToken E n w = (Inr v, w')"
  shows "RawURL_Decode v \<noteq> None" "length (the (RawURL_Decode v)) = n" "w' = tick w"
  using assms by (auto simp: RandomToken_def url64.DecodeString_EncodeToString split: option.splits dest: crypto_lawsD(5))

lemma RandomToken_valid:
  "crypto_laws E \<Longrightarrow> RandomToken E sessionTokenBytes w = (Inr v, w') \<Longrightarrow> validSessionToken v \<and> v \<noteq> []"
  using RandomToken_Inr [of E sessionTokenBytes w v w']
  by (cases v) (auto simp: validSessionToken_def sessionTokenBytes_def DecodeString_def no_newlines_def)

section \<open>No session outlives its absolute expiry\<close>

text \<open>What is stored under a session key: a hash with a deadline not after the absolute expiry in it.\<close>

definition session_entry_ok :: "string \<Rightarrow> (rval \<times> int option) option \<Rightarrow> bool" where
  "session_entry_ok k x =
     (HasPrefix k ''sess:'' \<longrightarrow>
      (case x of
         None \<Rightarrow> True
       | Some (RHash fs, Some d) \<Rightarrow>
           (case map_of fs ''abs_exp'' of
              None \<Rightarrow> False
            | Some raw \<Rightarrow> (case decodeSessionTime raw of None \<Rightarrow> False | Some n \<Rightarrow> d * 1000000 \<le> n))
       | _ \<Rightarrow> False))"

lemma session_entry_None [simp]: "session_entry_ok k None"
  by (simp add: session_entry_ok_def)

lemma sessKey_prefix [simp]: "HasPrefix (sessKey i) ''sess:''"
  unfolding sessKey_def by (rule HasPrefix_append)

abbreviation "sessions_ok E \<equiv> entries_ok E session_entry_ok"

lemma sessions_ok_tick: "env_laws E \<Longrightarrow> sessions_ok E w \<Longrightarrow> sessions_ok E (tick w)"
  by (rule entries_ok_later [where w = w]) simp_all

lemma session_now_ok: "env_laws E \<Longrightarrow> sessions_ok E w \<Longrightarrow> sessions_ok E (snd (session_now E w))"
  by (simp add: session_now_def clock_Now_def sessions_ok_tick)

lemma RandomToken_ok: "env_laws E \<Longrightarrow> sessions_ok E w \<Longrightarrow> sessions_ok E (snd (RandomToken E n w))"
  by (simp add: RandomToken_def sessions_ok_tick split: option.splits)

lemma session_del_ok: "env_laws E \<Longrightarrow> sessions_ok E w \<Longrightarrow> sessions_ok E (snd (session_del E i w))"
  unfolding session_del_def
  by (rule redis_call_entries_ok) (simp_all add: redis_string_lawsD env_lawsD(1))

lemma drop_session_ok: "env_laws E \<Longrightarrow> sessions_ok E w \<Longrightarrow> sessions_ok E (snd (drop_session E i e w))"
  by (simp add: drop_session_def session_del_ok)

lemma run_script_ok:
  assumes "env_laws E" and "sessions_ok E w"
    and "\<And>t s. (\<And>k. session_entry_ok k (rs_view (e_redis E) s t k)) \<Longrightarrow>
           (\<And>k. session_entry_ok k (rs_view (e_redis E) (snd (script t s)) t k))"
  shows "sessions_ok E (snd (run_script E what script w))"
proof -
  have "sessions_ok E (snd (redis_call E script w))"
    by (rule redis_call_entries_ok [OF assms(1) session_entry_None assms(2,3)])
  then show ?thesis
    by (auto simp: run_script_def bindR_def split: prod.splits sum.splits)
qed


lemma createSessionScript_ok:
  assumes "redis_laws R" and "\<And>k. session_entry_ok k (rs_view R s t k)"
    and "session_entry_ok k0 (Some (RHash fs, Some d))"
  shows "session_entry_ok k (rs_view R (snd (createSessionScript R k0 fs d t s)) t k)"
  using assms createSessionScript_view [OF assms(1), of s t k0 fs d]
  by (cases "rs_view R s t k0 = None") (auto simp: fun_upd_def)

lemma touchSessionScript_ok:
  assumes "redis_laws R" and ok: "\<And>k. session_entry_ok k (rs_view R s t k)"
    and "decodeSessionTime x = Some n" and "d * 1000000 \<le> n"
  shows "session_entry_ok k (rs_view R (snd (touchSessionScript R (sessKey i) x d t s)) t k)"
proof (cases "rs_view R s t (sessKey i)")
  case None
  then show ?thesis using ok touchSessionScript_view(1) [OF assms(1)] by simp
next
  case (Some e)
  then obtain fs y where e: "e = (RHash fs, y)"
    using ok [of "sessKey i"] by (cases e; cases "fst e") (auto simp: session_entry_ok_def)
  show ?thesis
  proof (cases "map_of fs ''abs_exp'' = Some x")
    case True
    then show ?thesis
      using ok [of k] assms(3,4) touchSessionScript_view(3) [OF assms(1) Some [unfolded e] True]
      by (auto simp: session_entry_ok_def)
  next
    case False
    then show ?thesis using ok touchSessionScript_view(2) [OF assms(1) Some [unfolded e] False] by simp
  qed
qed

lemma create_rounds_ok:
  assumes "env_laws E" and "1000000000000 \<le> x" and "x < 2 ^ 63" and "UnixMilli d * 1000000 \<le> x"
  shows "sessions_ok E w \<Longrightarrow> sessions_ok E (snd (create_rounds E u now x d n w))"
proof (induction n arbitrary: w)
  case 0
  then show ?case by simp
next
  case (Suc n)
  note laws = assms(1) env_lawsD(1) [OF assms(1)]
  have entry: "session_entry_ok k (Some (RHash (session_fields E \<lparr>se_ID = i, se_UserID = u, se_CreatedAt = now,
      se_AbsoluteExpiry = x, se_CSRFToken = c\<rparr>), Some (UnixMilli d)))" for k i c
    using assms(2-4) decode_encode_time [of x] by (simp add: session_entry_ok_def session_fields_def)
  show ?case
    unfolding create_rounds.simps Let_def
    by (intro bindR_preserves [where P = "sessions_ok E"] run_script_ok createSessionScript_ok [OF laws(2)] Suc)
      (auto simp: RandomToken_ok laws drop_session_ok entry Suc.IH
        intro!: bindR_preserves [where P = "sessions_ok E"] session_now_ok)
qed

lemma session_get_ok: "env_laws E \<Longrightarrow> sessions_ok E w \<Longrightarrow> sessions_ok E (snd (session_get E i w))"
  unfolding session_get_def
  by (auto simp: drop_session_ok session_now_ok
      intro!: bindR_preserves [where P = "sessions_ok E"] redis_call_entries_ok)

lemma session_get_Inr:
  assumes "session_get E i w = (Inr (sess, raw), w')"
  shows "decodeSessionTime raw = Some (se_AbsoluteExpiry sess)" "i \<noteq> []" "se_ID sess = i"
    "se_CreatedAt sess < se_AbsoluteExpiry sess" "validSessionToken (se_CSRFToken sess)"
  using assms
  by (auto simp: session_get_def bindR_Inr decode_session_def drop_session_def
      split: if_splits option.splits)


text \<open>Clock readings after 1970-01-01 00:16:40 and before the year 2116.\<close>

definition clock_sane :: "'r env \<Rightarrow> bool" where
  "clock_sane E \<longleftrightarrow> (\<forall>n. 1000000000000 \<le> e_clock E n \<and> e_clock E n < 2 ^ 62)"

lemma SessionStore_Create_ok:
  assumes "env_laws E" and "sessions_ok E w" and "clock_sane E" and "absTTL < 2 ^ 62"
  shows "sessions_ok E (snd (SessionStore_Create E u idle absTTL w))"
proof -
  have sane: "1000000000000 \<le> e_clock E (w_tick w)" "e_clock E (w_tick w) < 2 ^ 62"
    using assms(3) by (simp_all add: clock_sane_def)
  have "sessions_ok E (snd (create_rounds E u (e_clock E (w_tick w)) (e_clock E (w_tick w) + absTTL) d 4 (tick w)))"
    if "0 < absTTL" "sessionDeadline idle (e_clock E (w_tick w) + absTTL) (e_clock E (w_tick w)) = Inr d" for d
    using that sane assms(4) sessionDeadline_Inr [OF that(2)]
    by (intro create_rounds_ok [OF assms(1)] sessions_ok_tick [OF assms(1,2)]) simp_all
  then show ?thesis
    using sessions_ok_tick [OF assms(1,2)]
    by (auto simp: SessionStore_Create_def bindR_def session_now_def clock_Now_def Let_def
      split: prod.splits sum.splits)
qed

lemma SessionStore_Touch_ok:
  assumes "env_laws E" and "sessions_ok E w"
  shows "sessions_ok E (snd (SessionStore_Touch E i idle w))"
proof -
  have "sessions_ok E (snd (run_script E what (touchSessionScript (e_redis E) (sessKey i) raw (UnixMilli d)) v))"
    if "sessions_ok E v" "decodeSessionTime raw = Some x" "sessionDeadline idle x now = Inr d" for v what raw x now d
    using that sessionDeadline_Inr [OF that(3)] env_lawsD(1) [OF assms(1)]
    by (intro run_script_ok [OF assms(1)] touchSessionScript_ok [where n = x]) simp_all
  then show ?thesis
    unfolding SessionStore_Touch_def
    using assms
    by (auto simp: drop_session_ok session_now_ok session_get_ok split: sum.splits
        intro!: bindR_preserves [where P = "sessions_ok E"]) (blast dest: session_get_Inr(1))
qed


section \<open>What a created session is\<close>

lemma run_script_Inr:
  "run_script E what script w = (Inr n, w') \<longleftrightarrow>
     e_fate E (w_tick w) = Served \<and>
     (\<exists>r. script (rnow E w) (w_redis w) = (Inr n, r) \<and> w' = (tick w)\<lparr>w_redis := r\<rparr>)"
  by (auto simp: run_script_def bindR_Inr redis_call_Inr)

lemma create_rounds_Inr:
  assumes "env_laws E" and "create_rounds E u now x d n w = (Inr s, w1)"
  shows "se_UserID s = u \<and> se_CreatedAt s = now \<and> se_AbsoluteExpiry s = x \<and>
    validSessionToken (se_ID s) \<and> validSessionToken (se_CSRFToken s) \<and> se_ID s \<noteq> [] \<and>
    (\<exists>t \<le> rnow E w1. rs_view (e_redis E) (w_redis w1) t (sessKey (se_ID s)) =
       Some (RHash (session_fields E s), Some (UnixMilli d)))"
  using assms(2)
proof (induction n arbitrary: w)
  case 0
  then show ?case by simp
next
  case (Suc n)
  note crypto = env_lawsD(2) [OF assms(1)]
  from Suc.prems obtain i wa c wb created wc where
    i: "RandomToken E sessionTokenBytes w = (Inr i, wa)" and c: "RandomToken E sessionTokenBytes wa = (Inr c, wb)"
    and script: "run_script E ''redis: create session'' (createSessionScript (e_redis E) (sessKey i)
      (session_fields E \<lparr>se_ID = i, se_UserID = u, se_CreatedAt = now, se_AbsoluteExpiry = x, se_CSRFToken = c\<rparr>)
      (UnixMilli d)) wb = (Inr created, wc)"
    and rest: "(if created = 0 then create_rounds E u now x d n
             else if created = - 1 then drop_session E i expired_during_write
             else bindR (session_now E) (\<lambda>later.
                    if \<not> later < d then drop_session E i expired_during_write
                    else if created = 1 then retR \<lparr>se_ID = i, se_UserID = u, se_CreatedAt = now,
                      se_AbsoluteExpiry = x, se_CSRFToken = c\<rparr>
                    else create_rounds E u now x d n)) wc = (Inr s, w1)"
    by (auto simp: bindR_Inr Let_def)
  show ?case
  proof (cases "created = 1")
    case False
    with rest have "\<exists>w. create_rounds E u now x d n w = (Inr s, w1)"
      by (auto simp: drop_session_def bindR_Inr split: if_splits)
    with Suc.IH show ?thesis by blast
  next
    case True
    then have s: "s = \<lparr>se_ID = i, se_UserID = u, se_CreatedAt = now, se_AbsoluteExpiry = x, se_CSRFToken = c\<rparr>"
      and w1: "w_redis w1 = w_redis wc" "w_tick wc \<le> w_tick w1"
      using rest by (auto simp: bindR_Inr drop_session_def session_now_def clock_Now_def split: if_splits)
    have view: "rs_view (e_redis E) (w_redis wc) (rnow E wb) (sessKey i) =
        Some (RHash (session_fields E s), Some (UnixMilli d))"
    proof -
      obtain r where r: "createSessionScript (e_redis E) (sessKey i) (session_fields E s) (UnixMilli d)
          (rnow E wb) (w_redis wb) = (Inr 1, r)" "wc = (tick wb)\<lparr>w_redis := r\<rparr>"
        using script True s by (auto simp: run_script_Inr)
      show ?thesis
        using createSessionScript_view [OF env_lawsD(1) [OF assms(1)], of "w_redis wb" "rnow E wb" "sessKey i"
            "session_fields E s" "UnixMilli d"] r
        by (cases "rs_view (e_redis E) (w_redis wb) (rnow E wb) (sessKey i) = None") (auto split: if_splits)
    qed
    have "w_tick wb \<le> w_tick w1"
      using script w1(2) by (auto simp: run_script_Inr)
    with view w1(1) RandomToken_valid [OF crypto i] RandomToken_valid [OF crypto c] rnow_mono [OF assms(1)]
    show ?thesis by (auto simp: s)
  qed
qed


lemma decode_session_fields:
  assumes "uuid_laws E" and "1000000000000 \<le> se_CreatedAt s" and "se_CreatedAt s < se_AbsoluteExpiry s"
    and "se_AbsoluteExpiry s < 2 ^ 63" and "validSessionToken (se_CSRFToken s)"
  shows "decode_session E (se_ID s) (session_fields E s) = Inr (s :: Session)"
  using assms by (simp add: decode_session_def session_fields_def field_def uuid_lawsD decode_encode_time)

lemma read_call:
  "e_fate E (w_tick w) = Served \<Longrightarrow> redis_call E (\<lambda>t s. (f t s, s)) w = (Inr (f (rnow E w) (w_redis w)), tick w)"
  by (simp add: redis_call_def rnow_def tick_def)

lemma session_get_absent:
  assumes "redis_laws (e_redis E)" and "e_fate E (w_tick w) = Served"
    and "rs_view (e_redis E) (w_redis w) (rnow E w) (sessKey i) = None"
  shows "fst (session_get E i w) = Inl ErrSessionNotFound"
  using assms by (simp add: session_get_def bindR_def mapE_def read_call redis_hash_lawsD)

lemma session_get_stored:
  assumes "redis_laws (e_redis E)" and "e_fate E (w_tick w) = Served"
    and "rs_view (e_redis E) (w_redis w) (rnow E w) (sessKey (se_ID s)) = Some (RHash (session_fields E s), dl)"
    and "decode_session E (se_ID s) (session_fields E s) = Inr s" and "se_ID s \<noteq> []"
    and "e_clock E (Suc (w_tick w)) < se_AbsoluteExpiry s"
  shows "session_get E (se_ID s) w = (Inr (s, encodeSessionTime (se_AbsoluteExpiry s)), tick (tick w))"
  using assms
  by (simp add: session_get_def bindR_def mapE_def read_call redis_hash_lawsD session_now_def clock_Now_def)
     (simp add: session_fields_def field_def)

lemma SessionStore_Create_Inr:
  assumes "env_laws E" and "SessionStore_Create E u idle absTTL w = (Inr s, w1)"
  obtains d where "sessionDeadline idle (se_AbsoluteExpiry s) (se_CreatedAt s) = Inr d"
    "se_UserID s = u" "se_CreatedAt s = e_clock E (w_tick w)" "se_AbsoluteExpiry s = se_CreatedAt s + absTTL" "0 < absTTL"
    "validSessionToken (se_ID s)" "validSessionToken (se_CSRFToken s)" "se_ID s \<noteq> []"
    "\<exists>t \<le> rnow E w1. rs_view (e_redis E) (w_redis w1) t (sessKey (se_ID s)) =
       Some (RHash (session_fields E s), Some (UnixMilli d))"
proof -
  from assms(2) obtain d where d: "sessionDeadline idle (e_clock E (w_tick w) + absTTL) (e_clock E (w_tick w)) = Inr d"
    "0 < absTTL" "create_rounds E u (e_clock E (w_tick w)) (e_clock E (w_tick w) + absTTL) d 4 (tick w) = (Inr s, w1)"
    by (auto simp: SessionStore_Create_def bindR_Inr session_now_def clock_Now_def Let_def split: if_splits)
  from create_rounds_Inr [OF assms(1) d(3)] d(1,2) show ?thesis
    by (intro that [of d]) simp_all
qed

section \<open>A sample session\<close>

definition session_env :: "mem env" where
  "session_env = sample_env\<lparr>e_clock := (\<lambda>_. 1700000000000000000), e_rclock := (\<lambda>_. 1700000000000)\<rparr>"

lemma session_env_laws: "env_laws session_env" "clock_sane session_env" "e_fate session_env n = Served"
  using sample_env_laws
  by (auto simp: env_laws_def session_env_def crypto_laws_def uuid_laws_def pg_time_laws_def mono_def
    clock_sane_def) (simp add: sample_env_def)

lemma session_env_empty: "sessions_ok session_env sample_world"
  by (simp add: entries_ok_def sample_world_def session_env_def sample_env_def mem_redis_def)

text \<open>Enough for the first round to succeed: a fresh id, served calls and time left.\<close>

lemma create_round_succeeds:
  assumes "redis_laws (e_redis E)" and "e_rand E (w_tick w) sessionTokenBytes = Some a"
    and "e_rand E (Suc (w_tick w)) sessionTokenBytes = Some b" and "e_fate E (Suc (Suc (w_tick w))) = Served"
    and "rs_view (e_redis E) (w_redis w) (e_rclock E (Suc (Suc (w_tick w)))) (sessKey (RawURL_Encode a)) = None"
    and "e_rclock E (Suc (Suc (w_tick w))) < UnixMilli d" and "e_clock E (Suc (Suc (Suc (w_tick w)))) < d"
  shows "\<exists>s w1. create_rounds E u now x d (Suc n) w = (Inr s, w1)"
proof -
  let ?s = "\<lparr>se_ID = RawURL_Encode a, se_UserID = u, se_CreatedAt = now, se_AbsoluteExpiry = x, se_CSRFToken = RawURL_Encode b\<rparr>"
  have "fst (createSessionScript (e_redis E) (sessKey (RawURL_Encode a)) (session_fields E ?s) (UnixMilli d)
      (rnow E (tick (tick w))) (w_redis (tick (tick w)))) = Inr 1"
    using createSessionScript_view(2) [OF assms(1)] assms(5,6) by (simp add: rnow_def)
  then obtain r where "createSessionScript (e_redis E) (sessKey (RawURL_Encode a)) (session_fields E ?s) (UnixMilli d)
      (rnow E (tick (tick w))) (w_redis (tick (tick w))) = (Inr 1, r)"
    by (metis prod.collapse)
  then have "run_script E ''redis: create session'' (createSessionScript (e_redis E) (sessKey (RawURL_Encode a))
      (session_fields E ?s) (UnixMilli d)) (tick (tick w)) = (Inr 1, (tick (tick (tick w)))\<lparr>w_redis := r\<rparr>)"
    using assms(4) by (simp add: run_script_Inr)
  then show ?thesis
    using assms(2,3,7) by (simp add: bindR_def RandomToken_def session_now_def clock_Now_def Let_def)
qed

lemma sample_session:
  "\<exists>s w1. SessionStore_Create session_env 7 (30 * Minute) (12 * Hour) sample_world = (Inr s, w1)"
proof -
  have d: "sessionDeadline 1800000000000 1700043200000000000 1700000000000000000 = Inr 1700001800000000000"
    by (simp add: sessionDeadline_def Truncate_ms_def)
  have four: "(4 :: nat) = Suc 3" by simp
  have "\<exists>s w1. create_rounds session_env 7 1700000000000000000 1700043200000000000 1700001800000000000 4
      (tick sample_world) = (Inr s, w1)"
    unfolding four
    by (rule create_round_succeeds [OF env_lawsD(1) [OF session_env_laws(1)]])
      (simp_all add: session_env_def sample_env_def sample_world_def mem_redis_def UnixMilli_def)
  then show ?thesis
    by (simp add: SessionStore_Create_def bindR_def session_now_def clock_Now_def d time_units)
       (simp add: session_env_def d bindR_def)
qed

section \<open>Properties\<close>

text \<open>
  C29. No session outlives its absolute expiry. Every stored session carries a Redis deadline not after
  the absolute expiry in its record, at millisecond precision; creating, reading, touching and deleting
  sessions keep this, whatever becomes of the calls, so a session key that is still visible to Redis is
  not past its absolute expiry by the clock of Redis.
\<close>

theorem session_lifetime_bounded:
  assumes "env_laws E" and "clock_sane E" and "absTTL < 2 ^ 62" and "sessions_ok E w"
  shows "sessions_ok E (snd (SessionStore_Create E u idle absTTL w)) \<and> sessions_ok E (snd (SessionStore_Get E i w)) \<and>
    sessions_ok E (snd (SessionStore_Touch E i idle w)) \<and> sessions_ok E (snd (SessionStore_Delete E i w)) \<and>
    (\<forall>fs dl. rs_view (e_redis E) (w_redis w) (rnow E w) (sessKey i) = Some (RHash fs, dl) \<longrightarrow>
       (\<exists>x. decodeSessionTime (field fs ''abs_exp'') = Some x \<and> rnow E w * 1000000 \<le> x))"
proof (intro conjI allI impI)
  show "sessions_ok E (snd (SessionStore_Get E i w))"
    unfolding SessionStore_Get_def
    by (rule bindR_preserves [where P = "sessions_ok E"]) (auto simp: session_get_ok assms)
  show "sessions_ok E (snd (SessionStore_Delete E i w))"
    by (simp add: SessionStore_Delete_def session_del_ok assms)
  fix fs dl
  assume v: "rs_view (e_redis E) (w_redis w) (rnow E w) (sessKey i) = Some (RHash fs, dl)"
  then have "session_entry_ok (sessKey i) (Some (RHash fs, dl))"
    using assms(4) unfolding entries_ok_def by metis
  then obtain d raw x where d: "dl = Some d" "map_of fs ''abs_exp'' = Some raw" "decodeSessionTime raw = Some x" "d * 1000000 \<le> x"
    by (auto simp: session_entry_ok_def split: option.splits)
  have "live_at (rnow E w) (Some (RHash fs, dl)) = Some (RHash fs, dl)"
    using v redis_view_later [OF env_lawsD(1) [OF assms(1)] order.refl, of "w_redis w" "rnow E w" "sessKey i"] by simp
  with d show "\<exists>x. decodeSessionTime (field fs ''abs_exp'') = Some x \<and> rnow E w * 1000000 \<le> x"
    by (auto simp: field_def split: if_splits)
qed (rule SessionStore_Create_ok [OF assms(1,4,2,3)] SessionStore_Touch_ok [OF assms(1,4)])+

theorem session_lifetime_bounded_witness:
  "sessions_ok session_env (snd (SessionStore_Create session_env 7 (30 * Minute) (12 * Hour) sample_world))"
  using session_lifetime_bounded [OF session_env_laws(1,2) _ session_env_empty, of "12 * Hour"]
  by (simp add: time_units)



text \<open>
  C31. A deleted session is gone: as long as nobody creates it anew, reading it and touching it answer
  \<^verbatim>\<open>ErrSessionNotFound\<close>, at every later time.
\<close>

theorem session_deleted:
  assumes "env_laws E" and "SessionStore_Delete E i w = (Inr x, w1)"
    and "w_redis w2 = w_redis w1" and "w_tick w1 \<le> w_tick w2" and "e_fate E (w_tick w2) = Served" and "0 < idle"
  shows "fst (SessionStore_Get E i w2) = Inl ErrSessionNotFound \<and>
    fst (SessionStore_Touch E i idle w2) = Inl ErrSessionNotFound"
proof -
  note laws = env_lawsD(1) [OF assms(1)]
  from assms(2) have r: "w_redis w1 = rs_del (e_redis E) (rnow E w) (sessKey i) (w_redis w)" "w_tick w1 = Suc (w_tick w)"
    by (auto simp: SessionStore_Delete_def session_del_def redis_call_Inr)
  have "rs_view (e_redis E) (w_redis w2) (rnow E w2) (sessKey i) = None"
    using redis_view_later [OF laws rnow_mono [OF assms(1), of w w2], of "w_redis w2" "sessKey i"] r assms(3,4)
    by (simp add: redis_string_lawsD [OF laws])
  from session_get_absent [OF laws assms(5) this] assms(6) show ?thesis
    by (simp add: SessionStore_Get_def SessionStore_Touch_def fst_bindR)
qed

theorem session_deleted_witness:
  "\<exists>w1. SessionStore_Delete session_env ''gone'' sample_world = (Inr (), w1) \<and>
     fst (SessionStore_Touch session_env ''gone'' Minute w1) = Inl ErrSessionNotFound"
proof -
  obtain w1 where d: "SessionStore_Delete session_env ''gone'' sample_world = (Inr (), w1)"
    using session_env_laws(3) by (auto simp: SessionStore_Delete_def session_del_def mapE_def redis_call_def)
  from session_deleted [OF session_env_laws(1) d refl order.refl session_env_laws(3), of Minute] d show ?thesis
    by (simp add: time_units)
qed

end
