(* ===== verification/Float64.thy ===== *)
theory Float64
  imports Strconv
begin

text \<open>
  Non-negative numbers of Go's \<^verbatim>\<open>float64\<close>, for the few places where the program computes with them: a
  number is a pair of a mantissa and a binary exponent, and every operation rounds the exact
  result to 53 bits, to nearest and ties to even. The magnitudes that occur are far from the limits
  of the exponent, which is unbounded here.
\<close>

fun bit_size :: "nat \<Rightarrow> nat" where
  "bit_size n = (if n = 0 then 0 else Suc (bit_size (n div 2)))"

declare bit_size.simps [simp del]

definition round_half_even :: "int \<Rightarrow> int \<Rightarrow> int" where
  "round_half_even a b =
     (let q = a div b; r = a mod b
      in if 2 * r < b then q else if b < 2 * r then q + 1 else if even q then q else q + 1)"

type_synonym float64 = "int \<times> int"

text \<open>The float nearest to the fraction \<open>n / d\<close>.\<close>

definition f64_quot :: "int \<Rightarrow> int \<Rightarrow> float64" where
  "f64_quot n d =
     (if n \<le> 0 then (0, 0)
      else
        (let e = int (bit_size (nat n)) - int (bit_size (nat d)) - 53;
             (a, b) = (if 0 \<le> e then (n, d * 2 ^ nat e) else (n * 2 ^ nat (- e), d));
             (b, e) = (if 2 ^ 53 \<le> a div b then (2 * b, e + 1) else (b, e))
         in (round_half_even a b, e)))"

definition f64_of_int :: "int \<Rightarrow> float64" where
  "f64_of_int n = f64_quot n 1"

definition f64_frac :: "float64 \<Rightarrow> int \<times> int" where
  "f64_frac x = (let (m, e) = x in if 0 \<le> e then (m * 2 ^ nat e, 1) else (m, 2 ^ nat (- e)))"

definition f64_mult :: "float64 \<Rightarrow> float64 \<Rightarrow> float64" where
  "f64_mult x y = (let (a, b) = f64_frac x; (c, d) = f64_frac y in f64_quot (a * c) (b * d))"

definition f64_divide :: "float64 \<Rightarrow> float64 \<Rightarrow> float64" where
  "f64_divide x y = (let (a, b) = f64_frac x; (c, d) = f64_frac y in f64_quot (a * d) (b * c))"

definition f64_add :: "float64 \<Rightarrow> float64 \<Rightarrow> float64" where
  "f64_add x y = (let (a, b) = f64_frac x; (c, d) = f64_frac y in f64_quot (a * d + c * b) (b * d))"

definition f64_trunc :: "float64 \<Rightarrow> int" where
  "f64_trunc x = (let (a, b) = f64_frac x in a div b)"

text \<open>\<^verbatim>\<open>strconv.FormatFloat(f, 'f', 1, 64)\<close>.\<close>

definition FormatFloat1 :: "float64 \<Rightarrow> string" where
  "FormatFloat1 x =
     (let (a, b) = f64_frac x; t = round_half_even (10 * a) b
      in show_nat (nat (t div 10)) @ ''.'' @ show_nat (nat (t mod 10)))"

section \<open>Rounding is exact on integers below the 53 bits\<close>

lemma bit_size_bounds: "0 < n \<Longrightarrow> 2 ^ (bit_size n - 1) \<le> n \<and> n < 2 ^ bit_size n \<and> 0 < bit_size n"
proof (induction n rule: bit_size.induct)
  case (1 n)
  have s: "bit_size n = Suc (bit_size (n div 2))" using 1(2) by (subst bit_size.simps) simp
  show ?case
  proof (cases "n div 2 = 0")
    case True
    then have "n = 1" using 1(2) by simp
    then show ?thesis by (simp add: s bit_size.simps)
  next
    case False
    with 1 have ih: "2 ^ (bit_size (n div 2) - 1) \<le> n div 2" "n div 2 < 2 ^ bit_size (n div 2)" "0 < bit_size (n div 2)"
      by auto
    then obtain k where "bit_size (n div 2) = Suc k" by (cases "bit_size (n div 2)") auto
    with ih show ?thesis by (auto simp: s)
  qed
qed

lemma bit_size_1 [simp]: "bit_size (Suc 0) = 1" "bit_size 1 = 1"
  by (simp_all add: bit_size.simps)

lemma round_half_even_exact: "0 < b \<Longrightarrow> b dvd a \<Longrightarrow> round_half_even a b = a div b"
  by (simp add: round_half_even_def)

lemma f64_trunc_of_int:
  assumes "0 \<le> n" and "n < 2 ^ 53"
  shows "f64_trunc (f64_of_int n) = n"
proof (cases "n = 0")
  case True
  then show ?thesis by (simp add: f64_of_int_def f64_quot_def f64_trunc_def f64_frac_def)
next
  case False
  define k where "k = bit_size (nat n)"
  have k: "nat n < 2 ^ k" "2 ^ (k - 1) \<le> nat n" "0 < k"
    using bit_size_bounds [of "nat n"] assms False by (auto simp: k_def)
  have k53: "k \<le> 53"
  proof (rule ccontr)
    assume "\<not> k \<le> 53"
    then have "(2 :: nat) ^ 53 \<le> 2 ^ (k - 1)" by (intro power_increasing) auto
    from order.trans [OF this k(2)] have "2 ^ 53 \<le> nat n" .
    with assms show False by simp
  qed
  define j where "j = 54 - k"
  have e: "int k - 1 - 53 = - int j" "0 < j" using k53 k(3) by (simp_all add: j_def)
  have big: "2 ^ 53 \<le> n * 2 ^ j"
  proof -
    have "(2 :: int) ^ (k - 1) \<le> n" using k(2) assms by (metis int_nat_eq nat_le_iff of_nat_le_iff of_nat_numeral of_nat_power)
    then have "(2 :: int) ^ (k - 1) * 2 ^ j \<le> n * 2 ^ j" by (intro mult_right_mono) simp_all
    moreover have "(2 :: int) ^ (k - 1) * 2 ^ j = 2 ^ 53"
      using k53 k(3) by (simp add: j_def power_add [symmetric] del: power_Suc)
    ultimately show ?thesis by (simp only:)
  qed
  have dv: "2 dvd n * 2 ^ j" using e(2) by (cases j) auto
  obtain i where i: "j = Suc i" using e(2) by (cases j) auto
  have "nat (int i + 1) = Suc i" by simp
  then have "f64_of_int n = (n * 2 ^ i, - int i)"
    using False assms(1) big
    by (simp add: f64_of_int_def f64_quot_def k_def [symmetric] e i Let_def round_half_even_exact)
  then show ?thesis
    by (cases "i = 0") (simp_all add: f64_trunc_def f64_frac_def)
qed

end
