(* ===== verification/Config.thy ===== *)
theory Config
  imports Float64 Netip Base64 Phc
begin

text \<open>
  \<^verbatim>\<open>internal/config\<close>: sizes, the master keys, and the configuration read from environment variables.
  The environment is a function from names to values and the secret files a function from paths to
  contents. The loader collects every problem; a problem is a value of \<open>cfg_error\<close> here and a line of
  text in the source.
\<close>

section \<open>Strings\<close>

text \<open>
  \<^verbatim>\<open>strings.ToLower\<close> and \<^verbatim>\<open>strings.ToUpper\<close>, as far as a comparison with ASCII text can tell. The
  only runes outside ASCII with a lower case in ASCII are U+0130 and U+212A, and the only ones with
  an upper case in ASCII are U+0131 and U+017F.
\<close>

fun lower_view :: "string \<Rightarrow> string" where
  "lower_view (a # b # c # r) =
     (if [a, b] = [CHR 0xC4, CHR 0xB0] then CHR ''i'' # lower_view (c # r)
      else if [a, b, c] = [CHR 0xE2, CHR 0x84, CHR 0xAA] then CHR ''k'' # lower_view r
      else lower_char a # lower_view (b # c # r))"
| "lower_view [a, b] = (if [a, b] = [CHR 0xC4, CHR 0xB0] then ''i'' else [lower_char a, lower_char b])"
| "lower_view [a] = [lower_char a]"
| "lower_view [] = []"

definition upper_char :: "char \<Rightarrow> char" where
  "upper_char c = (let n = of_char c :: nat in if 97 \<le> n \<and> n \<le> 122 then char_of (n - 32) else c)"

fun upper_view :: "string \<Rightarrow> string" where
  "upper_view (a # b # r) =
     (if [a, b] = [CHR 0xC4, CHR 0xB1] then CHR ''I'' # upper_view r
      else if [a, b] = [CHR 0xC5, CHR 0xBF] then CHR ''S'' # upper_view r
      else upper_char a # upper_view (b # r))"
| "upper_view [a] = [upper_char a]"
| "upper_view [] = []"

text \<open>\<^verbatim>\<open>strings.Cut(s, ":")\<close> and \<^verbatim>\<open>strings.Fields\<close>.\<close>

definition Cut :: "char \<Rightarrow> string \<Rightarrow> (string \<times> string) option" where
  "Cut c s = (if c \<in> set s then Some (takeWhile (\<lambda>x. x \<noteq> c) s, tl (dropWhile (\<lambda>x. x \<noteq> c) s)) else None)"

fun fields_from :: "string \<Rightarrow> string \<Rightarrow> nat \<Rightarrow> string list" where
  "fields_from word [] skip = (if word = [] then [] else [word])"
| "fields_from word (c # s) (Suc skip) = fields_from word s skip"
| "fields_from word (c # s) 0 =
     (case strip_one space_runes (c # s) of
        None \<Rightarrow> fields_from (word @ [c]) s 0
      | Some t \<Rightarrow>
          (if word = [] then fields_from [] s (length s - length t)
           else word # fields_from [] s (length s - length t)))"

definition Fields :: "string \<Rightarrow> string list" where
  "Fields s = fields_from [] s 0"

section \<open>Sizes\<close>

definition MaxPasteSizeHardCap :: int where "MaxPasteSizeHardCap = 16 * 2 ^ 20"

definition re_space :: "char \<Rightarrow> bool" where
  "re_space c \<longleftrightarrow> c \<in> {CHR 0x09, CHR 0x0A, CHR 0x0C, CHR 0x0D, CHR 0x20}"

text \<open>The expression \<^verbatim>\<open>^(\d+)\s*(B|KB|MB)$\<close>: digits and unit.\<close>

definition match_size :: "string \<Rightarrow> (string \<times> string) option" where
  "match_size s =
     (let ds = takeWhile is_digit s; u = dropWhile re_space (dropWhile is_digit s)
      in if ds \<noteq> [] \<and> u \<in> {''B'', ''KB'', ''MB''} then Some (ds, u) else None)"

text \<open>The shifts are shifts of a 64-bit integer.\<close>

definition ParseSize :: "string \<Rightarrow> int option" where
  "ParseSize s =
     (case match_size (upper_view (TrimSpace s)) of
        None \<Rightarrow> None
      | Some (ds, u) \<Rightarrow>
          (case ParseInt ds of
             None \<Rightarrow> None
           | Some n \<Rightarrow>
               (let n = (if u = ''KB'' then wrap64 (n * 2 ^ 10) else if u = ''MB'' then wrap64 (n * 2 ^ 20) else n)
                in if n \<le> 0 \<or> n > MaxPasteSizeHardCap then None else Some n)))"

definition trimFloat :: "float64 \<Rightarrow> string" where
  "trimFloat f =
     (let s = FormatFloat1 f
      in if drop (length s - 2) s = ''.0'' then take (length s - 2) s else s)"

definition FormatSize :: "int \<Rightarrow> string" where
  "FormatSize n =
     (if 2 ^ 20 \<le> n then trimFloat (f64_divide (f64_of_int n) (f64_of_int (2 ^ 20))) @ '' MB''
      else if 2 ^ 10 \<le> n then trimFloat (f64_divide (f64_of_int n) (f64_of_int (2 ^ 10))) @ '' KB''
      else FormatInt n @ '' B'')"

section \<open>Durations\<close>

text \<open>
  \<^verbatim>\<open>time.ParseDuration\<close>: a sign, then numbers with an optional fraction and a unit. The whole part is
  exact and must stay within 2^63; a fraction goes through \<^verbatim>\<open>float64\<close>, and its digits stop counting
  when they overflow.
\<close>

definition unitMap :: "string \<Rightarrow> int option" where
  "unitMap u =
     map_of [(''ns'', 1), (''us'', 1000), ([CHR 0xC2, CHR 0xB5, CHR ''s''], 1000),
             ([CHR 0xCE, CHR 0xBC, CHR ''s''], 1000), (''ms'', 1000000), (''s'', 1000000000),
             (''m'', 60000000000), (''h'', 3600000000000)] u"

fun leadingFraction :: "nat \<Rightarrow> nat \<Rightarrow> bool \<Rightarrow> string \<Rightarrow> nat \<times> nat" where
  "leadingFraction x scale over [] = (x, scale)"
| "leadingFraction x scale over (c # cs) =
     (let y = x * 10 + (of_char c - 48)
      in if over \<or> (2 ^ 63 - 1) div 10 < x \<or> 2 ^ 63 < y then leadingFraction x scale True cs
         else leadingFraction y (scale * 10) False cs)"

definition duration_char :: "char \<Rightarrow> bool" where
  "duration_char c \<longleftrightarrow> c = CHR ''.'' \<or> is_digit c"

text \<open>One number with its unit, and what follows it.\<close>

definition duration_part :: "string \<Rightarrow> (int \<times> string) option" where
  "duration_part s =
     (let ds = takeWhile is_digit s; s1 = dropWhile is_digit s;
          dot = (s1 \<noteq> [] \<and> hd s1 = CHR ''.'');
          fs = (if dot then takeWhile is_digit (tl s1) else []);
          s2 = (if dot then dropWhile is_digit (tl s1) else s1);
          u = takeWhile (\<lambda>c. \<not> duration_char c) s2; s3 = dropWhile (\<lambda>c. \<not> duration_char c) s2;
          v = int (dec_number ds);
          (f, scale) = leadingFraction 0 1 False fs
      in if v > 2 ^ 63 \<or> (ds = [] \<and> fs = []) \<or> u = [] then None
         else case unitMap u of
                None \<Rightarrow> None
              | Some unit \<Rightarrow>
                  if v > 2 ^ 63 div unit then None
                  else
                    (let v = v * unit;
                         v = (if 0 < f
                              then v + f64_trunc (f64_mult (f64_of_int (int f))
                                         (f64_divide (f64_of_int unit) (f64_of_int (int scale))))
                              else v)
                     in if v > 2 ^ 63 then None else Some (v, s3)))"

fun duration_parts :: "nat \<Rightarrow> int \<Rightarrow> string \<Rightarrow> int option" where
  "duration_parts n d [] = Some d"
| "duration_parts 0 d (c # s) = None"
| "duration_parts (Suc n) d (c # s) =
     (case duration_part (c # s) of
        None \<Rightarrow> None
      | Some (v, r) \<Rightarrow> if d + v > 2 ^ 63 then None else duration_parts n (d + v) r)"

definition ParseDuration :: "string \<Rightarrow> duration option" where
  "ParseDuration s =
     (let neg = (s \<noteq> [] \<and> hd s = CHR ''-'');
          s = (if s \<noteq> [] \<and> (hd s = CHR ''-'' \<or> hd s = CHR ''+'') then tl s else s)
      in if s = ''0'' then Some 0
         else if s = [] then None
         else case duration_parts (length s) 0 s of
                None \<Rightarrow> None
              | Some d \<Rightarrow> if neg then Some (- d) else if d > 2 ^ 63 - 1 then None else Some d)"


section \<open>Configuration values\<close>

datatype AuthMode = AuthLocal | AuthOIDC | AuthBoth | AuthOther string

definition auth_mode_of :: "string \<Rightarrow> AuthMode" where
  "auth_mode_of s =
     (if s = ''local'' then AuthLocal else if s = ''oidc'' then AuthOIDC else if s = ''both'' then AuthBoth
      else AuthOther s)"

record OIDCConfig =
  oc_Issuer :: string
  oc_ClientID :: string
  oc_ClientSecret :: string
  oc_RedirectURL :: string
  oc_Scopes :: "string list"
  oc_RequiredGroup :: string
  oc_GroupClaim :: string
  oc_AdminGroup :: string

record ChallengeConfig =
  cc_Enabled :: bool
  cc_TolerancePx :: int
  cc_TTL :: duration
  cc_MinSolve :: duration

record Argon2Config =
  ac_MaxConcurrent :: int
  ac_QueueTimeout :: duration
  ac_MemoryKiB :: "32 word"
  ac_Time :: "32 word"
  ac_Threads :: "8 word"

record RateConfig =
  rc_PastePerMin :: int
  rc_LoginPerMin :: int
  rc_LoginIPPerMin :: int
  rc_UnlockPer15Min :: int
  rc_UnlockIPPer15Min :: int
  rc_VerifyPerMin :: int
  rc_VerifyGlobalPerMin :: int
  rc_ChallengePerMin :: int
  rc_DeletePerMin :: int

record Config =
  cf_AppBaseURL :: string
  cf_ListenAddr :: string
  cf_TrustedProxyCIDRs :: "Prefix list"
  cf_TLSCertFile :: string
  cf_TLSKeyFile :: string
  cf_DatabaseURL :: string
  cf_RedisURL :: string
  cf_RedisStateURL :: string
  cf_MasterKeys :: "(string \<times> bytes) list"
  cf_MasterKeyActive :: string
  cf_AuthMode :: AuthMode
  cf_OIDC :: OIDCConfig
  cf_SessionIdleTTL :: duration
  cf_SessionAbsoluteTTL :: duration
  cf_ViewRequiresAuth :: bool
  cf_Challenge :: ChallengeConfig
  cf_Argon2 :: Argon2Config
  cf_PasteMaxSize :: int
  cf_PasteTTLDefault :: int
  cf_PasteTTLMin :: int
  cf_PasteTTLMax :: int
  cf_PasteTTLHardMax :: int
  cf_MetadataRetentionDays :: int
  cf_AuditRetentionDays :: int
  cf_Rate :: RateConfig
  cf_RedisExpectedUsers :: int
  cf_AuditDBEnabled :: bool
  cf_LogLevel :: string
  cf_MetricsListenAddr :: string
  cf_NoticeText :: string

definition ParamsFromConfig :: "Argon2Config \<Rightarrow> Argon2Params" where
  "ParamsFromConfig c = \<lparr>ap_Time = ac_Time c, ap_MemoryKiB = ac_MemoryKiB c, ap_Threads = ac_Threads c\<rparr>"

definition mode_OIDCEnabled :: "AuthMode \<Rightarrow> bool" where
  "mode_OIDCEnabled m \<longleftrightarrow> m = AuthOIDC \<or> m = AuthBoth"

definition OIDCEnabled :: "Config \<Rightarrow> bool" where
  "OIDCEnabled c \<longleftrightarrow> mode_OIDCEnabled (cf_AuthMode c)"

definition LocalEnabled :: "Config \<Rightarrow> bool" where
  "LocalEnabled c \<longleftrightarrow> cf_AuthMode c = AuthLocal \<or> cf_AuthMode c = AuthBoth"

text \<open>
  The sizing formula, in floating point, which rounds a negative number as its magnitude; the factor
  1.2 is the float nearest to it. A product beyond the range of \<^verbatim>\<open>int64\<close> has no defined conversion.
\<close>

definition RecommendedRedisMaxMemory :: "Config \<Rightarrow> int" where
  "RecommendedRedisMaxMemory c =
     (let size = cf_PasteMaxSize c; rate = rc_PastePerMin (cf_Rate c); users = cf_RedisExpectedUsers c;
          bodies =
            f64_mult
              (f64_mult
                (f64_mult (f64_mult (f64_of_int \<bar>size\<bar>) (f64_of_int \<bar>rate\<bar>)) (f64_of_int 15))
                (f64_of_int \<bar>users\<bar>))
              (f64_quot 12 10)
      in sgn (size * rate * users) * f64_trunc bodies + 64 * 2 ^ 20)"

section \<open>Master keys\<close>

datatype key_error = KeyEntryFormat | KeyBase64 string | KeyLength string nat | KeyDuplicate string | NoMasterKeys

definition parse_key :: "(string \<times> bytes) list \<Rightarrow> string \<Rightarrow> key_error + (string \<times> bytes)" where
  "parse_key keys part =
     (case Cut CHR '':'' part of
        None \<Rightarrow> Inl KeyEntryFormat
      | Some (i, b64) \<Rightarrow>
          if i = [] then Inl KeyEntryFormat
          else (case Std_Decode b64 of
                  None \<Rightarrow> Inl (KeyBase64 i)
                | Some raw \<Rightarrow>
                    if length raw \<noteq> 32 then Inl (KeyLength i (length raw))
                    else if i \<in> fst ` set keys then Inl (KeyDuplicate i)
                    else Inr (i, raw)))"

fun parse_keys :: "string list \<Rightarrow> (string \<times> bytes) list \<Rightarrow> key_error + (string \<times> bytes) list" where
  "parse_keys [] keys = Inr keys"
| "parse_keys (part # parts) keys =
     (let part = TrimSpace part
      in if part = [] then parse_keys parts keys
         else case parse_key keys part of
                Inl e \<Rightarrow> Inl e
              | Inr k \<Rightarrow> parse_keys parts (keys @ [k]))"

text \<open>The keys in the order of the text, and the id of the first one.\<close>

definition ParseMasterKeys :: "string \<Rightarrow> key_error + (string \<times> bytes) list \<times> string" where
  "ParseMasterKeys s =
     (case parse_keys (Split CHR '','' s) [] of
        Inl e \<Rightarrow> Inl e
      | Inr keys \<Rightarrow> if keys = [] then Inl NoMasterKeys else Inr (keys, fst (hd keys)))"

section \<open>The loader\<close>

datatype cfg_error =
    Missing string | NotInteger string | NotBoolean string | NotDuration string
  | BothSources string | SecretFile string | BadCIDR string | TLSPair | MissingMasterKeys
  | MasterKeysError key_error | UnknownActiveKey string | BadAuthMode | OIDCRequires string
  | SessionTTLOrder | Argon2Bounds | BadPasteSize | TTLMinTooSmall | TTLMaxTooLarge int int
  | TTLMinAboveMax | TTLDefaultOutside

record loader =
  ld_getenv :: "string \<Rightarrow> string"
  ld_file :: "string \<Rightarrow> string option"

definition ld_str :: "loader \<Rightarrow> string \<Rightarrow> string \<Rightarrow> string" where
  "ld_str l k d = (let v = TrimSpace (ld_getenv l k) in if v \<noteq> [] then v else d)"

definition ld_required :: "loader \<Rightarrow> string \<Rightarrow> string \<times> cfg_error list" where
  "ld_required l k = (let v = TrimSpace (ld_getenv l k) in (v, if v = [] then [Missing k] else []))"

text \<open>\<^verbatim>\<open>strconv.Atoi\<close> is \<^verbatim>\<open>ParseInt\<close> with 64 bits.\<close>

definition ld_intv :: "loader \<Rightarrow> string \<Rightarrow> int \<Rightarrow> int \<times> cfg_error list" where
  "ld_intv l k d =
     (let v = TrimSpace (ld_getenv l k)
      in if v = [] then (d, [])
         else case ParseInt v of None \<Rightarrow> (d, [NotInteger k]) | Some n \<Rightarrow> (n, []))"

definition ld_boolv :: "loader \<Rightarrow> string \<Rightarrow> bool \<Rightarrow> bool \<times> cfg_error list" where
  "ld_boolv l k d =
     (let v = lower_view (TrimSpace (ld_getenv l k))
      in if v = [] then (d, [])
         else if v \<in> {''1'', ''true'', ''yes'', ''on''} then (True, [])
         else if v \<in> {''0'', ''false'', ''no'', ''off''} then (False, [])
         else (d, [NotBoolean k]))"

definition ld_dur :: "loader \<Rightarrow> string \<Rightarrow> duration \<Rightarrow> duration \<times> cfg_error list" where
  "ld_dur l k d =
     (let v = TrimSpace (ld_getenv l k)
      in if v = [] then (d, [])
         else case ParseDuration v of None \<Rightarrow> (d, [NotDuration k]) | Some n \<Rightarrow> (n, []))"

definition ld_secret :: "loader \<Rightarrow> string \<Rightarrow> string \<times> cfg_error list" where
  "ld_secret l k =
     (let inline = TrimSpace (ld_getenv l k); file = TrimSpace (ld_getenv l (k @ ''_FILE''))
      in if inline \<noteq> [] \<and> file \<noteq> [] then ([], [BothSources k])
         else if file \<noteq> [] then
           (case ld_file l file of
              None \<Rightarrow> ([], [SecretFile k])
            | Some b \<Rightarrow> (TrimSpace b, []))
         else (inline, []))"


section \<open>Load\<close>

fun load_cidrs :: "string list \<Rightarrow> Prefix list \<times> cfg_error list" where
  "load_cidrs [] = ([], [])"
| "load_cidrs (cidr # cidrs) =
     (let cidr = TrimSpace cidr; (ps, errs) = load_cidrs cidrs
      in if cidr = [] then (ps, errs)
         else case ParsePrefix cidr of None \<Rightarrow> (ps, BadCIDR cidr # errs) | Some p \<Rightarrow> (p # ps, errs))"

definition load_keys :: "loader \<Rightarrow> ((string \<times> bytes) list \<times> string) \<times> cfg_error list" where
  "load_keys l =
     (let (mk, errs) = ld_secret l ''MASTER_KEYS''
      in if errs \<noteq> [] then (([], []), errs)
         else if mk = [] then (([], []), [MissingMasterKeys])
         else case ParseMasterKeys mk of
                Inl e \<Rightarrow> (([], []), [MasterKeysError e])
              | Inr (keys, first) \<Rightarrow>
                  (let active = ld_str l ''MASTER_KEY_ACTIVE'' first
                   in ((keys, active), if active \<in> fst ` set keys then [] else [UnknownActiveKey active])))"

text \<open>The source ranges over a map for the last four checks, so the order of their errors varies.\<close>

definition load_oidc :: "loader \<Rightarrow> string \<Rightarrow> AuthMode \<Rightarrow> OIDCConfig \<times> cfg_error list" where
  "load_oidc l baseURL mode =
     (let (secret, errs) = ld_secret l ''OIDC_CLIENT_SECRET'';
          c = \<lparr>oc_Issuer = ld_str l ''OIDC_ISSUER'' [], oc_ClientID = ld_str l ''OIDC_CLIENT_ID'' [],
               oc_ClientSecret = secret, oc_RedirectURL = baseURL @ ''/api/v1/auth/oidc/callback'',
               oc_Scopes = Fields (ld_str l ''OIDC_SCOPES'' ''openid profile email groups''),
               oc_RequiredGroup = ld_str l ''OIDC_REQUIRED_GROUP'' [],
               oc_GroupClaim = ld_str l ''OIDC_GROUP_CLAIM'' ''groups'',
               oc_AdminGroup = ld_str l ''OIDC_ADMIN_GROUP'' []\<rparr>;
          missing = [OIDCRequires k. (k, v) \<leftarrow>
            [(''OIDC_ISSUER'', oc_Issuer c), (''OIDC_CLIENT_ID'', oc_ClientID c),
             (''OIDC_CLIENT_SECRET'', oc_ClientSecret c), (''OIDC_REQUIRED_GROUP'', oc_RequiredGroup c)], v = []]
      in (c, errs @ (if mode_OIDCEnabled mode then missing else [])))"

definition load_challenge :: "loader \<Rightarrow> ChallengeConfig \<times> cfg_error list" where
  "load_challenge l =
     (let (enabled, e1) = ld_boolv l ''CHALLENGE_ENABLED'' True;
          (tol, e2) = ld_intv l ''CHALLENGE_TOLERANCE_PX'' 5;
          (ttl, e3) = ld_intv l ''CHALLENGE_TTL_SECONDS'' 120;
          (solve, e4) = ld_intv l ''CHALLENGE_MIN_SOLVE_MS'' 300
      in (\<lparr>cc_Enabled = enabled, cc_TolerancePx = tol, cc_TTL = wrap64 (ttl * Second),
           cc_MinSolve = wrap64 (solve * Millisecond)\<rparr>, e1 @ e2 @ e3 @ e4))"

text \<open>The conversion to \<^verbatim>\<open>uint32\<close> keeps the low 32 bits.\<close>

definition load_argon2 :: "loader \<Rightarrow> Argon2Config \<times> cfg_error list" where
  "load_argon2 l =
     (let (conc, e1) = ld_intv l ''ARGON2_MAX_CONCURRENT'' 4;
          (queue, e2) = ld_dur l ''ARGON2_QUEUE_TIMEOUT'' (2 * Second);
          (mem, e3) = ld_intv l ''ARGON2_MEMORY_KIB'' 32768;
          c = \<lparr>ac_MaxConcurrent = conc, ac_QueueTimeout = queue, ac_MemoryKiB = of_int mem, ac_Time = 3, ac_Threads = 2\<rparr>
      in (c, e1 @ e2 @ e3 @ (if ac_MaxConcurrent c < 1 \<or> ac_MemoryKiB c < 8192 then [Argon2Bounds] else [])))"

definition load_rate :: "loader \<Rightarrow> RateConfig \<times> cfg_error list" where
  "load_rate l =
     (let (a, ea) = ld_intv l ''RATE_PASTE_PER_MIN'' 10;
          (b, eb) = ld_intv l ''RATE_LOGIN_PER_MIN'' 5;
          (c, ec) = ld_intv l ''RATE_LOGIN_IP_PER_MIN'' 20;
          (d, ed) = ld_intv l ''RATE_UNLOCK_PER_15MIN'' 5;
          (e, ee) = ld_intv l ''RATE_UNLOCK_IP_PER_15MIN'' 20;
          (f, ef) = ld_intv l ''RATE_VERIFY_PER_MIN'' 30;
          (g, eg) = ld_intv l ''RATE_VERIFY_GLOBAL_PER_MIN'' 300;
          (h, eh) = ld_intv l ''RATE_CHALLENGE_PER_MIN'' 5;
          (i, ei) = ld_intv l ''RATE_DELETE_PER_MIN'' 30
      in (\<lparr>rc_PastePerMin = a, rc_LoginPerMin = b, rc_LoginIPPerMin = c, rc_UnlockPer15Min = d,
           rc_UnlockIPPer15Min = e, rc_VerifyPerMin = f, rc_VerifyGlobalPerMin = g, rc_ChallengePerMin = h,
           rc_DeletePerMin = i\<rparr>, ea @ eb @ ec @ ed @ ee @ ef @ eg @ eh @ ei))"

definition load_size :: "loader \<Rightarrow> int \<times> cfg_error list" where
  "load_size l =
     (case ParseSize (ld_str l ''PASTE_MAX_SIZE'' ''256KB'') of
        None \<Rightarrow> (0, [BadPasteSize])
      | Some n \<Rightarrow> (n, []))"

text \<open>Hard maximum, default, minimum and maximum, with the first violated condition.\<close>

definition load_ttl :: "loader \<Rightarrow> (int \<times> int \<times> int \<times> int) \<times> cfg_error list" where
  "load_ttl l =
     (let (hard, e1) = ld_intv l ''PASTE_TTL_HARD_MAX'' 900;
          (def, e2) = ld_intv l ''PASTE_TTL_DEFAULT'' 300;
          (lo, e3) = ld_intv l ''PASTE_TTL_MIN'' 30;
          (hi, e4) = ld_intv l ''PASTE_TTL_MAX'' 900
      in ((hard, def, lo, hi), e1 @ e2 @ e3 @ e4 @
          (if lo < 1 then [TTLMinTooSmall]
           else if hi > hard then [TTLMaxTooLarge hi hard]
           else if lo > hi then [TTLMinAboveMax]
           else if def < lo \<or> def > hi then [TTLDefaultOutside]
           else [])))"

definition notice_default :: string where
  "notice_default = ''Do not paste production credentials or customer personal data. Pastes are ephemeral, not a secure vault.''"

definition load_mode :: "loader \<Rightarrow> AuthMode" where
  "load_mode l = auth_mode_of (lower_view (ld_str l ''AUTH_MODE'' ''local''))"

definition load_base :: "loader \<Rightarrow> string" where
  "load_base l = TrimRight CHR ''/'' (fst (ld_required l ''APP_BASE_URL''))"

text \<open>The configuration that is assembled, and the problems found on the way, in their order.\<close>

definition load_config :: "loader \<Rightarrow> Config" where
  "load_config l =
     (let ((keys, active), _) = load_keys l; ((hard, def, lo, hi), _) = load_ttl l;
          redis = fst (ld_required l ''REDIS_URL'')
      in \<lparr>cf_AppBaseURL = load_base l, cf_ListenAddr = ld_str l ''LISTEN_ADDR'' '':8443'',
          cf_TrustedProxyCIDRs = fst (load_cidrs (Split CHR '','' (ld_str l ''TRUSTED_PROXY_CIDRS'' []))),
          cf_TLSCertFile = ld_str l ''TLS_CERT_FILE'' [], cf_TLSKeyFile = ld_str l ''TLS_KEY_FILE'' [],
          cf_DatabaseURL = fst (ld_required l ''DATABASE_URL''), cf_RedisURL = redis,
          cf_RedisStateURL = ld_str l ''REDIS_STATE_URL'' redis, cf_MasterKeys = keys, cf_MasterKeyActive = active,
          cf_AuthMode = load_mode l, cf_OIDC = fst (load_oidc l (load_base l) (load_mode l)),
          cf_SessionIdleTTL = fst (ld_dur l ''SESSION_IDLE_TTL'' (8 * Hour)),
          cf_SessionAbsoluteTTL = fst (ld_dur l ''SESSION_ABSOLUTE_TTL'' (12 * Hour)),
          cf_ViewRequiresAuth = fst (ld_boolv l ''VIEW_REQUIRES_AUTH'' False),
          cf_Challenge = fst (load_challenge l), cf_Argon2 = fst (load_argon2 l), cf_PasteMaxSize = fst (load_size l),
          cf_PasteTTLDefault = def, cf_PasteTTLMin = lo, cf_PasteTTLMax = hi, cf_PasteTTLHardMax = hard,
          cf_MetadataRetentionDays = fst (ld_intv l ''METADATA_RETENTION_DAYS'' 180),
          cf_AuditRetentionDays = fst (ld_intv l ''AUDIT_RETENTION_DAYS'' 365), cf_Rate = fst (load_rate l),
          cf_RedisExpectedUsers = fst (ld_intv l ''REDIS_EXPECTED_USERS'' 50),
          cf_AuditDBEnabled = fst (ld_boolv l ''AUDIT_DB_ENABLED'' True),
          cf_LogLevel = lower_view (ld_str l ''LOG_LEVEL'' ''info''),
          cf_MetricsListenAddr = ld_str l ''METRICS_LISTEN_ADDR'' ''127.0.0.1:9090'',
          cf_NoticeText = ld_str l ''NOTICE_TEXT'' notice_default\<rparr>)"

definition load_errors :: "loader \<Rightarrow> cfg_error list" where
  "load_errors l =
     snd (ld_required l ''APP_BASE_URL'') @
     snd (load_cidrs (Split CHR '','' (ld_str l ''TRUSTED_PROXY_CIDRS'' []))) @
     (if (ld_str l ''TLS_CERT_FILE'' [] = []) \<noteq> (ld_str l ''TLS_KEY_FILE'' [] = []) then [TLSPair] else []) @
     snd (ld_required l ''DATABASE_URL'') @
     snd (ld_required l ''REDIS_URL'') @
     snd (load_keys l) @
     (case load_mode l of AuthOther _ \<Rightarrow> [BadAuthMode] | _ \<Rightarrow> []) @
     snd (load_oidc l (load_base l) (load_mode l)) @
     snd (ld_dur l ''SESSION_IDLE_TTL'' (8 * Hour)) @
     snd (ld_dur l ''SESSION_ABSOLUTE_TTL'' (12 * Hour)) @
     (if fst (ld_dur l ''SESSION_ABSOLUTE_TTL'' (12 * Hour)) < fst (ld_dur l ''SESSION_IDLE_TTL'' (8 * Hour))
      then [SessionTTLOrder] else []) @
     snd (ld_boolv l ''VIEW_REQUIRES_AUTH'' False) @
     snd (load_challenge l) @
     snd (load_argon2 l) @
     snd (load_size l) @
     snd (load_ttl l) @
     snd (ld_intv l ''METADATA_RETENTION_DAYS'' 180) @
     snd (ld_intv l ''AUDIT_RETENTION_DAYS'' 365) @
     snd (load_rate l) @
     snd (ld_intv l ''REDIS_EXPECTED_USERS'' 50) @
     snd (ld_boolv l ''AUDIT_DB_ENABLED'' True)"

definition Load :: "loader \<Rightarrow> cfg_error list + Config" where
  "Load l = (if load_errors l \<noteq> [] then Inl (load_errors l) else Inr (load_config l))"

section \<open>The log-safe view\<close>

datatype cfg_value = CStr string | CBool bool | CMode AuthMode | CArgon2 Argon2Config | CRate RateConfig

text \<open>The source collects the key ids from a map, in no fixed order.\<close>

definition Redacted :: "Config \<Rightarrow> (string \<times> cfg_value) list" where
  "Redacted c =
     (let ids = map fst (cf_MasterKeys c)
      in [(''AppBaseURL'', CStr (cf_AppBaseURL c)), (''ListenAddr'', CStr (cf_ListenAddr c)),
          (''TLS'', CBool (cf_TLSCertFile c \<noteq> [])), (''DatabaseURL'', CStr ''[redacted]''),
          (''RedisURL'', CStr ''[redacted]''), (''RedisStateURL'', CStr ''[redacted]''),
          (''MasterKeys'', CStr (show_nat (length ids) @ '' key(s) ['' @ concat (case ids of [] \<Rightarrow> [] | i # r \<Rightarrow> i # map ((@) '' '') r) @
             ''] active='' @ cf_MasterKeyActive c)),
          (''AuthMode'', CMode (cf_AuthMode c)), (''OIDCIssuer'', CStr (oc_Issuer (cf_OIDC c))),
          (''OIDCClientSecret'', CStr ''[redacted]''), (''ViewRequiresAuth'', CBool (cf_ViewRequiresAuth c)),
          (''ChallengeEnabled'', CBool (cc_Enabled (cf_Challenge c))),
          (''PasteMaxSize'', CStr (FormatSize (cf_PasteMaxSize c))),
          (''PasteTTL'', CStr (''default='' @ FormatInt (cf_PasteTTLDefault c) @ '' min='' @ FormatInt (cf_PasteTTLMin c) @
             '' max='' @ FormatInt (cf_PasteTTLMax c))),
          (''Argon2'', CArgon2 (cf_Argon2 c)), (''Rate'', CRate (cf_Rate c))])"

section \<open>Lemmas\<close>

lemma load_size_ok: "load_size l = (n, []) \<Longrightarrow> 0 < n \<and> n \<le> MaxPasteSizeHardCap"
  by (auto simp: load_size_def ParseSize_def Let_def split: option.splits if_splits)

lemma load_ttl_ok:
  "load_ttl l = ((hard, d, lo, hi), []) \<Longrightarrow> 1 \<le> lo \<and> lo \<le> d \<and> d \<le> hi \<and> hi \<le> hard"
  by (auto simp: load_ttl_def Let_def split: prod.splits if_splits)

lemma load_argon2_ok:
  "load_argon2 l = (c, []) \<Longrightarrow> 1 \<le> ac_MaxConcurrent c \<and> 8192 \<le> ac_MemoryKiB c \<and> ac_Time c = 3 \<and> ac_Threads c = 2"
  by (auto simp: load_argon2_def Let_def not_less split: prod.splits if_splits)

lemma Cut_Some: "Cut c s = Some (a, b) \<Longrightarrow> s = a @ c # b \<and> c \<notin> set a"
proof -
  assume "Cut c s = Some (a, b)"
  then have "c \<in> set s" "a = takeWhile (\<lambda>x. x \<noteq> c) s" "b = tl (dropWhile (\<lambda>x. x \<noteq> c) s)"
    by (auto simp: Cut_def split: if_splits)
  moreover from this have "dropWhile (\<lambda>x. x \<noteq> c) s = c # b"
    by (metis (mono_tags, lifting) dropWhile_eq_Nil_conv hd_dropWhile list.collapse)
  ultimately show ?thesis
    by (metis (mono_tags, lifting) set_takeWhileD takeWhile_dropWhile_id)
qed

text \<open>A ring of keys as the envelope wants it.\<close>

definition ring_ok :: "(string \<times> bytes) list \<Rightarrow> bool" where
  "ring_ok keys \<longleftrightarrow> distinct (map fst keys) \<and> (\<forall>(i, k) \<in> set keys. i \<noteq> [] \<and> length k = 32)"

lemma parse_key_ok: "parse_key keys part = Inr k \<Longrightarrow> fst k \<noteq> [] \<and> length (snd k) = 32 \<and> fst k \<notin> fst ` set keys"
  by (clarsimp simp: parse_key_def split: option.splits prod.splits if_splits)

lemma parse_keys_ok: "parse_keys parts keys = Inr r \<Longrightarrow> ring_ok keys \<Longrightarrow> ring_ok r"
proof (induction parts keys rule: parse_keys.induct)
  case (2 part parts keys)
  show ?case
  proof (cases "TrimSpace part = []")
    case True
    with 2 show ?thesis by simp
  next
    case False
    with 2(3) obtain k where k: "parse_key keys (TrimSpace part) = Inr k" "parse_keys parts (keys @ [k]) = Inr r"
      by (auto simp: Let_def split: sum.splits)
    have "ring_ok (keys @ [k])"
      using 2(4) parse_key_ok [OF k(1)] by (auto simp: ring_ok_def)
    with 2(2) [OF refl False k(1) k(2)] show ?thesis .
  qed
qed simp

lemma load_keys_ok:
  "load_keys l = ((keys, active), []) \<Longrightarrow> ring_ok keys \<and> keys \<noteq> [] \<and> active \<in> fst ` set keys"
  by (auto simp: load_keys_def ParseMasterKeys_def Let_def ring_ok_def
      split: prod.splits if_splits sum.splits dest!: parse_keys_ok)

lemma copy_keys_ring: "ring_ok keys \<Longrightarrow> copy_keys keys = Inr keys"
  by (induction keys) (auto simp: ring_ok_def envelopeKeyLen_def)

lemma NewEnvelope_succeeds:
  assumes "ring_ok keys" and "active \<in> fst ` set keys" and "validateArgon2Params p = Inr ()"
  shows "NewEnvelope keys active (Some g) p = Inr \<lparr>en_keys = keys, en_active = active, en_params = p\<rparr>"
proof -
  have "active \<noteq> []" "keys \<noteq> []" "map_of keys active \<noteq> None"
    using assms(1,2) by (auto simp: ring_ok_def map_of_eq_None_iff)
  then show ?thesis using assms(3) by (simp add: NewEnvelope_def copy_keys_ring [OF assms(1)])
qed


text \<open>What a loaded configuration guarantees to the components built from it.\<close>

definition config_ok :: "Config \<Rightarrow> bool" where
  "config_ok c \<longleftrightarrow>
     1 \<le> cf_PasteTTLMin c \<and> cf_PasteTTLMin c \<le> cf_PasteTTLDefault c \<and> cf_PasteTTLDefault c \<le> cf_PasteTTLMax c \<and>
     cf_PasteTTLMax c \<le> cf_PasteTTLHardMax c \<and>
     0 < cf_PasteMaxSize c \<and> cf_PasteMaxSize c \<le> MaxPasteSizeHardCap \<and>
     ring_ok (cf_MasterKeys c) \<and> cf_MasterKeyActive c \<in> fst ` set (cf_MasterKeys c) \<and>
     1 \<le> ac_MaxConcurrent (cf_Argon2 c) \<and> validateArgon2Params (ParamsFromConfig (cf_Argon2 c)) = Inr () \<and>
     cf_SessionIdleTTL c \<le> cf_SessionAbsoluteTTL c \<and>
     cf_AuthMode c \<in> {AuthLocal, AuthOIDC, AuthBoth} \<and>
     (OIDCEnabled c \<longrightarrow> oc_Issuer (cf_OIDC c) \<noteq> [] \<and> oc_ClientID (cf_OIDC c) \<noteq> [] \<and>
        oc_ClientSecret (cf_OIDC c) \<noteq> [] \<and> oc_RequiredGroup (cf_OIDC c) \<noteq> []) \<and>
     (cf_TLSCertFile c = [] \<longleftrightarrow> cf_TLSKeyFile c = []) \<and> cf_DatabaseURL c \<noteq> [] \<and> cf_RedisURL c \<noteq> []"

lemma load_oidc_ok:
  "load_oidc l b m = (c, []) \<Longrightarrow> mode_OIDCEnabled m \<Longrightarrow>
   oc_Issuer c \<noteq> [] \<and> oc_ClientID c \<noteq> [] \<and> oc_ClientSecret c \<noteq> [] \<and> oc_RequiredGroup c \<noteq> []"
  by (auto simp: load_oidc_def Let_def split: prod.splits if_splits)

lemma ld_required_ok: "ld_required l k = (v, []) \<Longrightarrow> v \<noteq> []"
  by (auto simp: ld_required_def Let_def split: if_splits)

lemma argon2_costs_ok:
  assumes "8192 \<le> ac_MemoryKiB c" and "ac_Time c = 3" and "ac_Threads c = 2"
  shows "validateArgon2Params (ParamsFromConfig c) = Inr ()"
proof -
  have "ac_MemoryKiB c \<noteq> 0" using assms(1) by auto
  moreover have "\<not> ac_MemoryKiB c < 16" using assms(1) by (simp add: word_less_nat_alt word_le_nat_alt)
  ultimately show ?thesis using assms by (simp add: validateArgon2Params_def ParamsFromConfig_def)
qed

lemma Load_ok:
  assumes "Load l = Inr c"
  shows "config_ok c"
proof -
  have c: "c = load_config l" and e: "load_errors l = []"
    using assms by (auto simp: Load_def split: if_splits)
  obtain keys active hard def lo hi where
    k: "load_keys l = ((keys, active), [])" and t: "load_ttl l = ((hard, def, lo, hi), [])"
    using e by (cases "load_keys l"; cases "load_ttl l") (auto simp: load_errors_def)
  have mode: "load_mode l \<in> {AuthLocal, AuthOIDC, AuthBoth}"
    using e by (auto simp: load_errors_def split: AuthMode.splits)
  have parts: "snd (load_oidc l (load_base l) (load_mode l)) = []" "snd (load_argon2 l) = []" "snd (load_size l) = []"
    "snd (ld_required l ''DATABASE_URL'') = []" "snd (ld_required l ''REDIS_URL'') = []"
    "\<not> fst (ld_dur l ''SESSION_ABSOLUTE_TTL'' (12 * Hour)) < fst (ld_dur l ''SESSION_IDLE_TTL'' (8 * Hour))"
    "(ld_str l ''TLS_CERT_FILE'' [] = []) = (ld_str l ''TLS_KEY_FILE'' [] = [])"
    using e by (simp_all add: load_errors_def split: if_splits)
  have cfg: "cf_MasterKeys c = keys" "cf_MasterKeyActive c = active" "cf_PasteTTLDefault c = def"
    "cf_PasteTTLMin c = lo" "cf_PasteTTLMax c = hi" "cf_PasteTTLHardMax c = hard"
    "cf_OIDC c = fst (load_oidc l (load_base l) (load_mode l))" "cf_Argon2 c = fst (load_argon2 l)"
    "cf_PasteMaxSize c = fst (load_size l)" "cf_AuthMode c = load_mode l"
    "cf_DatabaseURL c = fst (ld_required l ''DATABASE_URL'')" "cf_RedisURL c = fst (ld_required l ''REDIS_URL'')"
    "cf_SessionIdleTTL c = fst (ld_dur l ''SESSION_IDLE_TTL'' (8 * Hour))"
    "cf_SessionAbsoluteTTL c = fst (ld_dur l ''SESSION_ABSOLUTE_TTL'' (12 * Hour))"
    "cf_TLSCertFile c = ld_str l ''TLS_CERT_FILE'' []" "cf_TLSKeyFile c = ld_str l ''TLS_KEY_FILE'' []"
    by (simp_all add: c load_config_def k t Let_def)
  show ?thesis
    unfolding config_ok_def cfg OIDCEnabled_def
    using load_ttl_ok [OF t] load_keys_ok [OF k] mode parts
      load_size_ok [of l "fst (load_size l)"] load_argon2_ok [of l "fst (load_argon2 l)"]
      argon2_costs_ok [of "fst (load_argon2 l)"]
      load_oidc_ok [of l "load_base l" "load_mode l" "fst (load_oidc l (load_base l) (load_mode l))"]
      ld_required_ok [of l "''DATABASE_URL''"] ld_required_ok [of l "''REDIS_URL''"]
    by (simp add: prod_eq_iff)
qed


section \<open>Sizes that parse\<close>

lemma trim_left_other:
  "list_all (\<lambda>r. r \<noteq> [] \<and> hd r \<noteq> c) rs \<Longrightarrow> trim_left rs (c # s) = c # s"
  by (subst trim_left.simps) (simp add: strip_one_other)

lemma TrimSpace_plain:
  assumes "s \<noteq> []" and "list_all (\<lambda>r. r \<noteq> [] \<and> hd r \<noteq> hd s) space_runes"
    and "list_all (\<lambda>r. r \<noteq> [] \<and> last r \<noteq> last s) space_runes"
  shows "TrimSpace s = s"
proof -
  have left: "trim_left space_runes s = s"
    using assms(1,2) trim_left_other [of "hd s" space_runes "tl s"] by simp
  have "list_all (\<lambda>r. r \<noteq> [] \<and> hd r \<noteq> hd (rev s)) (map rev space_runes)"
    using assms(3) by (auto simp: list_all_iff hd_rev last_rev)
  then have "trim_left (map rev space_runes) (rev s) = rev s"
    using assms(1) trim_left_other [of "hd (rev s)" "map rev space_runes" "tl (rev s)"] by simp
  with left show ?thesis by (simp add: TrimSpace_def)
qed

lemma strip_one_Nil: "strip_one rs [] = None"
  by (induction rs) auto

text \<open>A string between two visible ASCII characters has nothing to trim.\<close>

definition visible :: "char \<Rightarrow> bool" where
  "visible c \<longleftrightarrow> 33 \<le> (of_char c :: nat) \<and> (of_char c :: nat) < 127"

lemma space_runes_invisible: "list_all (\<lambda>r. r \<noteq> [] \<and> \<not> visible (hd r) \<and> \<not> visible (last r)) space_runes"
  by (simp add: space_runes_def visible_def)

lemma TrimSpace_visible: "s \<noteq> [] \<Longrightarrow> visible (hd s) \<Longrightarrow> visible (last s) \<Longrightarrow> TrimSpace s = s"
  using space_runes_invisible by (intro TrimSpace_plain) (auto simp: list_all_iff)

lemma upper_view_ascii: "list_all (\<lambda>c. (of_char c :: nat) < 128) s \<Longrightarrow> upper_view s = map upper_char s"
  by (induction s rule: upper_view.induct) auto

lemma digit_upper: "is_digit c \<Longrightarrow> upper_char c = c \<and> (of_char c :: nat) < 128"
  by (auto simp: is_digit_def upper_char_def)

text \<open>The factor of a unit.\<close>

definition size_unit :: "string \<Rightarrow> int" where
  "size_unit u = (if u = ''KB'' then 2 ^ 10 else if u = ''MB'' then 2 ^ 20 else 1)"

lemma ParseSize_print:
  assumes "u \<in> {''B'', ''KB'', ''MB''}" and "int n < 2 ^ 63"
  shows "ParseSize (show_nat n @ u) =
    (let v = wrap64 (int n * size_unit u) in if v \<le> 0 \<or> v > MaxPasteSizeHardCap then None else Some v)"
proof -
  let ?s = "show_nat n @ u"
  have digits: "\<forall>c \<in> set (show_nat n). is_digit c"
    using show_nat_digits by (simp add: is_digit_char_digit)
  then obtain c cs where c: "show_nat n = c # cs" "is_digit c"
    by (metis list.set_intros(1) show_nat_nonempty list.exhaust)
  have "visible (hd ?s)" "visible (last ?s)"
    using c assms(1) by (auto simp: visible_def is_digit_def)
  then have "TrimSpace ?s = ?s" using c by (intro TrimSpace_visible) simp_all
  moreover have "upper_view ?s = ?s"
  proof -
    have "list_all (\<lambda>c. (of_char c :: nat) < 128) ?s"
      using digits assms(1) by (auto simp: list_all_iff dest: digit_upper)
    then have "upper_view ?s = map upper_char ?s" by (rule upper_view_ascii)
    moreover have "map upper_char u = u" using assms(1) by (auto simp: upper_char_def)
    moreover have "map upper_char (show_nat n) = show_nat n" using digits by (auto simp: digit_upper intro!: map_idI)
    ultimately show ?thesis by simp
  qed
  moreover have "match_size ?s = Some (show_nat n, u)"
  proof -
    have "takeWhile is_digit ?s = show_nat n" "dropWhile is_digit ?s = u"
      using digits assms(1) by (auto simp: takeWhile_append2 dropWhile_append2 is_digit_def)
    then show ?thesis using assms(1) by (auto simp: match_size_def re_space_def)
  qed
  moreover have "ParseInt (show_nat n) = Some (int n)"
    using ParseInt_FormatInt [of "int n"] assms(2) by (simp add: FormatInt_def in64_def)
  moreover have "wrap64 (int n) = int n" using assms(2) by (simp add: wrap64_id in64_def)
  ultimately show ?thesis using assms(1) by (auto simp: ParseSize_def Let_def size_unit_def)
qed

section \<open>Properties\<close>


definition sample_vars :: "(string \<times> string) list" where
  "sample_vars =
     [(''APP_BASE_URL'', ''https://paste.example/''), (''DATABASE_URL'', ''postgres://db''), (''REDIS_URL'', ''redis://r''),
      (''MASTER_KEYS'', ''k1'' @ CHR '':'' # Std_Encode (replicate 32 7)), (''PASTE_TTL_MAX'', ''600'')]"

definition sample_loader :: loader where
  "sample_loader =
     \<lparr>ld_getenv = (\<lambda>k. case map_of sample_vars k of None \<Rightarrow> [] | Some v \<Rightarrow> v), ld_file = (\<lambda>_. None)\<rparr>"

lemma sample_required:
  "\<forall>s \<in> {''https://paste.example/'', ''postgres://db'', ''redis://r'', ''600'', ''k1''}. TrimSpace s = s"
  by (simp add: TrimSpace_visible visible_def)

lemma sample_ttl: "ParseInt ''600'' = Some 600" "ParseSize ''256KB'' = Some 262144"
proof -
  have "FormatInt 600 = ''600''" "show_nat 256 = ''256''"
    by code_simp+
  then show "ParseInt ''600'' = Some 600" "ParseSize ''256KB'' = Some 262144"
    using ParseInt_FormatInt [of 600] ParseSize_print [of "''KB''" 256]
    by (simp_all add: in64_def size_unit_def MaxPasteSizeHardCap_def wrap64_def)
qed

lemma encode_visible:
  assumes "c \<in> set (Std_Encode b)"
  shows "visible c" "c \<noteq> CHR '',''"
proof -
  have "list_all (\<lambda>c. visible c \<and> c \<noteq> CHR '','') (CHR ''='' # std_alphabet)"
    by (simp add: std_alphabet_def visible_def)
  then show "visible c" "c \<noteq> CHR '',''"
    using assms std64.set_EncodeToString [of True b] by (auto simp: list_all_iff)
qed

lemma ParseMasterKeys_single:
  assumes "i \<noteq> []" and "visible (hd i)" and "CHR '':'' \<notin> set i" and "CHR '','' \<notin> set i" and "length raw = 32"
  shows "ParseMasterKeys (i @ CHR '':'' # Std_Encode raw) = Inr ([(i, raw)], i)"
proof -
  let ?e = "Std_Encode raw" and ?s = "i @ CHR '':'' # Std_Encode raw"
  have "Split CHR '','' ?s = [?s]"
    using assms(4) encode_visible(2) [of "CHR '',''" raw] by (intro Split_single) auto
  moreover have "TrimSpace ?s = ?s"
    using assms(1,2) encode_visible(1) [of "last ?e" raw]
    by (intro TrimSpace_visible) (auto simp: visible_def)
  moreover have "Cut CHR '':'' ?s = Some (i, ?e)"
  proof -
    have "takeWhile (\<lambda>x. x \<noteq> CHR '':'') ?s = i" "dropWhile (\<lambda>x. x \<noteq> CHR '':'') ?s = CHR '':'' # ?e"
      using assms(3) by (subst takeWhile_append2 dropWhile_append2; auto)+
    then show ?thesis by (simp add: Cut_def)
  qed
  ultimately show ?thesis
    using assms(1,5) by (simp add: ParseMasterKeys_def parse_key_def std64.DecodeString_EncodeToString)
qed

lemma TrimSpace_Nil: "TrimSpace [] = []"
  by (simp add: TrimSpace_def trim_left.simps strip_one_Nil)

lemma sample_keys: "load_keys sample_loader = (([(''k1'', replicate 32 7)], ''k1''), [])"
proof -
  let ?s = "''k1'' @ CHR '':'' # Std_Encode (replicate 32 7)"
  have "ParseMasterKeys ?s = Inr ([(''k1'', replicate 32 7)], ''k1'')"
    by (rule ParseMasterKeys_single) (simp_all add: visible_def)
  moreover have "TrimSpace ?s = ?s"
    using encode_visible(1) [of "last (Std_Encode (replicate 32 7))" "replicate 32 7"]
    by (intro TrimSpace_visible) (auto simp: visible_def)
  ultimately show ?thesis
    by (simp add: load_keys_def ld_secret_def ld_str_def sample_loader_def sample_vars_def TrimSpace_Nil)
qed

lemma sample_loads: "load_errors sample_loader = []"
  by (simp add: load_errors_def sample_keys)
     (simp add: ld_required_def ld_str_def ld_dur_def ld_intv_def ld_boolv_def load_oidc_def ld_secret_def load_challenge_def
      load_argon2_def load_rate_def load_size_def load_ttl_def load_mode_def auth_mode_of_def mode_OIDCEnabled_def
      sample_loader_def sample_vars_def sample_required sample_ttl TrimSpace_Nil lower_char_def time_units)


text \<open>
  C33. A size of \<open>n\<close> bytes, KB or MB is accepted exactly when the product, as a 64-bit integer, is
  between 1 byte and 16 MiB, and then is that product. As long as the product does not overflow this
  is the documented meaning.
\<close>

theorem parse_size_exact:
  assumes "u \<in> {''B'', ''KB'', ''MB''}" and "int n * size_unit u < 2 ^ 63"
  shows "ParseSize (show_nat n @ u) =
    (if 0 < n \<and> int n * size_unit u \<le> MaxPasteSizeHardCap then Some (int n * size_unit u) else None)"
proof -
  have "1 \<le> size_unit u" by (simp add: size_unit_def)
  then have "int n * 1 \<le> int n * size_unit u" by (intro mult_left_mono) simp_all
  then have "int n < 2 ^ 63" "wrap64 (int n * size_unit u) = int n * size_unit u" "0 \<le> int n * size_unit u"
    using assms(2) by (simp_all add: wrap64_id in64_def)
  moreover have "int n * size_unit u \<le> 0 \<longleftrightarrow> n = 0"
    using \<open>1 \<le> size_unit u\<close> by (auto simp: mult_le_0_iff)
  ultimately show ?thesis using ParseSize_print [OF assms(1)] by (auto simp: Let_def)
qed

theorem parse_size_exact_witness:
  "ParseSize (show_nat 256 @ ''KB'') = Some 262144"
  using parse_size_exact [of "''KB''" 256] by (simp add: size_unit_def MaxPasteSizeHardCap_def)

text \<open>An overflowing size wraps around into the accepted range.\<close>

lemma size_shift_overflows: "ParseSize (show_nat 17592186044417 @ ''MB'') = Some 1048576"
  using ParseSize_print [of "''MB''" 17592186044417] by (simp add: size_unit_def MaxPasteSizeHardCap_def wrap64_def)

text \<open>The memory cost is checked after its high bits are gone.\<close>

lemma argon2_memory_wraps:
  assumes "ld_intv l ''ARGON2_MEMORY_KIB'' 32768 = (4294975488, [])"
    and "ld_intv l ''ARGON2_MAX_CONCURRENT'' 4 = (4, [])" and "ld_dur l ''ARGON2_QUEUE_TIMEOUT'' (2 * Second) = (q, [])"
  shows "snd (load_argon2 l) = [] \<and> ac_MemoryKiB (fst (load_argon2 l)) = 8192"
  using assms by (simp add: load_argon2_def)

end
