(* ===== verification/RateLimit.thy ===== *)
theory RateLimit
  imports Config Logging Tables
begin

text \<open>
  \<^verbatim>\<open>internal/ratelimit\<close>: the rules, and the fixed-window limiter over Redis. The counter of a scope and a
  key is one Redis key whose deadline ends the window; \<open>win_step\<close> is the abstract counter the script
  implements.
\<close>

section \<open>Scopes, rules and decisions\<close>

datatype Scope =
    ScopeLogin | ScopeLoginIP | ScopePasteCreate | ScopeChallengeIssue | ScopeUnlock | ScopeUnlockIP
  | ScopeVerify | ScopeVerifyGlobal | ScopeDelete

fun scope_string :: "Scope \<Rightarrow> string" where
  "scope_string ScopeLogin = ''login''"
| "scope_string ScopeLoginIP = ''login_ip''"
| "scope_string ScopePasteCreate = ''paste_create''"
| "scope_string ScopeChallengeIssue = ''challenge_issue''"
| "scope_string ScopeUnlock = ''unlock''"
| "scope_string ScopeUnlockIP = ''unlock_ip''"
| "scope_string ScopeVerify = ''verify''"
| "scope_string ScopeVerifyGlobal = ''verify_global''"
| "scope_string ScopeDelete = ''delete''"

record Rule =
  ru_Limit :: int
  ru_Window :: duration

record Decision =
  de_Allowed :: bool
  de_RetryAfter :: duration

fun RulesFromConfig :: "RateConfig \<Rightarrow> Scope \<Rightarrow> Rule option" where
  "RulesFromConfig c ScopeLogin = Some \<lparr>ru_Limit = rc_LoginPerMin c, ru_Window = Minute\<rparr>"
| "RulesFromConfig c ScopeLoginIP = Some \<lparr>ru_Limit = rc_LoginIPPerMin c, ru_Window = Minute\<rparr>"
| "RulesFromConfig c ScopePasteCreate = Some \<lparr>ru_Limit = rc_PastePerMin c, ru_Window = Minute\<rparr>"
| "RulesFromConfig c ScopeChallengeIssue = Some \<lparr>ru_Limit = rc_ChallengePerMin c, ru_Window = Minute\<rparr>"
| "RulesFromConfig c ScopeUnlock = Some \<lparr>ru_Limit = rc_UnlockPer15Min c, ru_Window = 15 * Minute\<rparr>"
| "RulesFromConfig c ScopeUnlockIP = Some \<lparr>ru_Limit = rc_UnlockIPPer15Min c, ru_Window = 15 * Minute\<rparr>"
| "RulesFromConfig c ScopeVerify = Some \<lparr>ru_Limit = rc_VerifyPerMin c, ru_Window = Minute\<rparr>"
| "RulesFromConfig c ScopeVerifyGlobal = Some \<lparr>ru_Limit = rc_VerifyGlobalPerMin c, ru_Window = Minute\<rparr>"
| "RulesFromConfig c ScopeDelete = Some \<lparr>ru_Limit = rc_DeletePerMin c, ru_Window = Minute\<rparr>"

section \<open>The limiter\<close>

definition failClosedRetry :: duration where "failClosedRetry = 5 * Second"

definition failClosedDecision :: Decision where
  "failClosedDecision = \<lparr>de_Allowed = False, de_RetryAfter = failClosedRetry\<rparr>"

text \<open>A limiter has its rules, its log level, and a client that may be nil.\<close>

record RedisLimiter =
  rl_client :: bool
  rl_rules :: "Scope \<Rightarrow> Rule option"
  rl_log :: log_level

definition NewRedisLimiter :: "bool \<Rightarrow> (Scope \<Rightarrow> Rule option) \<Rightarrow> log_level option \<Rightarrow> RedisLimiter" where
  "NewRedisLimiter client rules log =
     \<lparr>rl_client = client, rl_rules = rules, rl_log = (case log of None \<Rightarrow> LevelInfo | Some l \<Rightarrow> l)\<rparr>"

definition fixedWindowScript :: "'r env \<Rightarrow> string \<Rightarrow> int \<Rightarrow> int \<Rightarrow> 'r \<Rightarrow> rval list \<times> 'r" where
  "fixedWindowScript E k ms t s =
     (let (count, s) = rs_incr (e_redis E) t k s;
          s = (if count = 1 then snd (rs_pexpire (e_redis E) t k ms s) else s);
          ttl = rs_pttl (e_redis E) t k s
      in ([RNum count, RNum ttl], s))"

fun parseWindowResult :: "rval list \<Rightarrow> (int \<times> int) option" where
  "parseWindowResult [RNum count, RNum ttl] = (if count \<le> 0 \<or> ttl \<le> 0 then None else Some (count, ttl))"
| "parseWindowResult _ = None"

definition warnAllowOnce :: "RedisLimiter \<Rightarrow> Scope \<Rightarrow> string \<Rightarrow> 'r world \<Rightarrow> 'r world" where
  "warnAllowOnce l scope message w =
     (if scope_string scope \<in> set (w_warned w) then w
      else log_at (rl_log l) LevelWarn message [(''scope'', LStr (scope_string scope))]
             (w\<lparr>w_warned := scope_string scope # w_warned w\<rparr>))"

definition Milliseconds :: "duration \<Rightarrow> int" where
  "Milliseconds d = (if 0 \<le> d then d div Millisecond else - (- d div Millisecond))"

definition rlKey :: "Scope \<Rightarrow> string \<Rightarrow> string" where
  "rlKey scope key' = ''rl:'' @ scope_string scope @ '':'' @ key'"

definition rl_deny :: "RedisLimiter \<Rightarrow> Scope \<Rightarrow> string \<Rightarrow> 'r world \<Rightarrow> Decision \<times> 'r world" where
  "rl_deny l scope message w =
     (failClosedDecision, log_at (rl_log l) LevelError message [(''scope'', LStr (scope_string scope))] w)"

definition Allow :: "'r env \<Rightarrow> RedisLimiter \<Rightarrow> Scope \<Rightarrow> string \<Rightarrow> 'r world \<Rightarrow> Decision \<times> 'r world" where
  "Allow E l scope key' w =
     (case rl_rules l scope of
        None \<Rightarrow> (\<lparr>de_Allowed = True, de_RetryAfter = 0\<rparr>,
                 warnAllowOnce l scope ''rate limit scope not configured; allowing'' w)
      | Some rule \<Rightarrow>
          if ru_Limit rule \<le> 0
          then (\<lparr>de_Allowed = True, de_RetryAfter = 0\<rparr>,
                warnAllowOnce l scope ''rate limit scope has non-positive limit; allowing'' w)
          else if Milliseconds (ru_Window rule) \<le> 0
          then rl_deny l scope ''rate limiter has invalid window; denying'' w
          else if \<not> rl_client l
          then rl_deny l scope ''rate limiter backend error; denying'' w
          else case redis_call E (fixedWindowScript E (rlKey scope key') (Milliseconds (ru_Window rule))) w of
                 (Inl _, w') \<Rightarrow> rl_deny l scope ''rate limiter backend error; denying'' w'
               | (Inr result, w') \<Rightarrow>
                   (case parseWindowResult result of
                      None \<Rightarrow> rl_deny l scope ''rate limiter returned malformed result; denying'' w'
                    | Some (count, ttl) \<Rightarrow>
                        if ru_Limit rule < count
                        then (\<lparr>de_Allowed = False, de_RetryAfter = wrap64 (ttl * Millisecond)\<rparr>, w')
                        else (\<lparr>de_Allowed = True, de_RetryAfter = 0\<rparr>, w')))"

section \<open>The abstract counter\<close>

text \<open>A window is the number of calls in it and its deadline; a call after the deadline opens a new one.\<close>

definition win_step :: "int \<Rightarrow> int \<Rightarrow> (int \<times> int) option \<Rightarrow> int \<times> int" where
  "win_step ms t st = (case st of None \<Rightarrow> (1, t + ms) | Some (n, d) \<Rightarrow> (n + 1, d))"

definition win_decide :: "int \<Rightarrow> int \<Rightarrow> int \<times> int \<Rightarrow> Decision" where
  "win_decide limit t st =
     (if snd st \<le> t then failClosedDecision
      else if limit < fst st then \<lparr>de_Allowed = False, de_RetryAfter = wrap64 ((snd st - t) * Millisecond)\<rparr>
      else \<lparr>de_Allowed = True, de_RetryAfter = 0\<rparr>)"

text \<open>What the limiter's keys hold: nothing, or a positive count with a deadline.\<close>

definition window_entry :: "string \<Rightarrow> (rval \<times> int option) option \<Rightarrow> bool" where
  "window_entry k x \<longleftrightarrow>
     \<not> HasPrefix k ''rl:'' \<or> x = None \<or> (\<exists>n d. x = Some (RNum n, Some d) \<and> 0 < n)"

definition window_of :: "(rval \<times> int option) option \<Rightarrow> (int \<times> int) option" where
  "window_of x = (case x of Some (RNum n, Some d) \<Rightarrow> Some (n, d) | _ \<Rightarrow> None)"

abbreviation "windows_ok E \<equiv> entries_ok E window_entry"

abbreviation win_view :: "'r env \<Rightarrow> 'r world \<Rightarrow> string \<Rightarrow> (int \<times> int) option" where
  "win_view E w k \<equiv> window_of (rs_view (e_redis E) (w_redis w) (rnow E w) k)"

lemma window_entry_None [simp]: "window_entry k None"
  by (simp add: window_entry_def)

lemma window_entry_rl: "window_entry k x \<Longrightarrow> HasPrefix k ''rl:'' \<Longrightarrow>
  (x = None \<and> window_of x = None) \<or> (\<exists>n d. x = Some (RNum n, Some d) \<and> window_of x = Some (n, d) \<and> 0 < n)"
  by (auto simp: window_entry_def window_of_def)

lemma fixedWindowScript_window:
  assumes "redis_laws (e_redis E)" and "window_entry k (rs_view (e_redis E) s t k)" and "HasPrefix k ''rl:''" and "0 < ms"
    and "win_step ms t (window_of (rs_view (e_redis E) s t k)) = (n, d)"
  shows "fst (fixedWindowScript E k ms t s) = [RNum n, RNum (d - t)]"
    and "rs_view (e_redis E) (snd (fixedWindowScript E k ms t s)) t = (rs_view (e_redis E) s t)(k \<mapsto> (RNum n, Some d))"
    and "0 < n"
  using window_entry_rl [OF assms(2,3)] assms(4,5)
  by (auto simp: fixedWindowScript_def split_beta Let_def win_step_def redis_counter_lawsD [OF assms(1)]
      redis_pexpire_lawsD [OF assms(1)] expire_entry_def)

lemma rlKey_prefix [simp]: "HasPrefix (rlKey scope key') ''rl:''"
  by (simp add: rlKey_def HasPrefix_def)

section \<open>One call\<close>

lemma rl_deny_simps [simp]:
  "fst (rl_deny l s m w) = failClosedDecision" "w_redis (snd (rl_deny l s m w)) = w_redis w"
  "w_tick (snd (rl_deny l s m w)) = w_tick w"
  by (simp_all add: rl_deny_def)

lemma warnAllowOnce_keeps [simp]:
  "w_redis (warnAllowOnce l s m w) = w_redis w" "w_tick (warnAllowOnce l s m w) = w_tick w"
  by (simp_all add: warnAllowOnce_def)

definition enforced :: "RedisLimiter \<Rightarrow> Scope \<Rightarrow> Rule \<Rightarrow> bool" where
  "enforced l scope rule \<longleftrightarrow>
     rl_rules l scope = Some rule \<and> 0 < ru_Limit rule \<and> 0 < Milliseconds (ru_Window rule) \<and> rl_client l"

lemma Allow_not_enforced:
  assumes "\<nexists>rule. enforced l scope rule"
  shows "w_redis (snd (Allow E l scope key' w)) = w_redis w" "w_tick (snd (Allow E l scope key' w)) = w_tick w"
  using assms by (cases "rl_rules l scope"; auto simp: Allow_def enforced_def)+

lemma Allow_enforced:
  assumes "env_laws E" and "enforced l scope rule" and "windows_ok E w"
    and st: "win_step (Milliseconds (ru_Window rule)) (rnow E w) (win_view E w (rlKey scope key')) = (n, d)"
  shows "fst (Allow E l scope key' w) =
      (if e_fate E (w_tick w) = Served then win_decide (ru_Limit rule) (rnow E w) (n, d) else failClosedDecision)"
    and "rs_view (e_redis E) (w_redis (snd (Allow E l scope key' w))) (rnow E w) =
      (if e_fate E (w_tick w) = Refused then rs_view (e_redis E) (w_redis w) (rnow E w)
       else (rs_view (e_redis E) (w_redis w) (rnow E w))(rlKey scope key' \<mapsto> (RNum n, Some d)))"
    and "w_tick (snd (Allow E l scope key' w)) = Suc (w_tick w)" and "0 < n"
proof -
  let ?s = "fixedWindowScript E (rlKey scope key') (Milliseconds (ru_Window rule)) (rnow E w) (w_redis w)"
  note e = assms(2)[unfolded enforced_def]
  have entry: "window_entry (rlKey scope key') (rs_view (e_redis E) (w_redis w) (rnow E w) (rlKey scope key'))"
    using assms(3) by (simp add: entries_ok_def)
  note script = fixedWindowScript_window [OF env_lawsD(1) [OF assms(1)] entry rlKey_prefix _ st]
  have s: "fst ?s = [RNum n, RNum (d - rnow E w)]" "0 < n"
    "rs_view (e_redis E) (snd ?s) (rnow E w) = (rs_view (e_redis E) (w_redis w) (rnow E w))(rlKey scope key' \<mapsto> (RNum n, Some d))"
    using script e by simp_all
  have call: "redis_call E (fixedWindowScript E (rlKey scope key') (Milliseconds (ru_Window rule))) w =
    (case e_fate E (w_tick w) of Served \<Rightarrow> (Inr (fst ?s), (tick w)\<lparr>w_redis := snd ?s\<rparr>)
       | Refused \<Rightarrow> (Inl (EService ''redis''), tick w) | ReplyLost \<Rightarrow> (Inl (EService ''redis''), (tick w)\<lparr>w_redis := snd ?s\<rparr>))"
    unfolding redis_call_def rnow_def by (simp add: split_beta Let_def)
  show "0 < n" by (rule s(2))
  show "fst (Allow E l scope key' w) =
      (if e_fate E (w_tick w) = Served then win_decide (ru_Limit rule) (rnow E w) (n, d) else failClosedDecision)"
    using e s(1,2) by (cases "e_fate E (w_tick w)") (simp_all add: Allow_def call win_decide_def)
  show "w_tick (snd (Allow E l scope key' w)) = Suc (w_tick w)"
    using e s(1) by (cases "e_fate E (w_tick w)") (auto simp: Allow_def call split: option.splits)
  show "rs_view (e_redis E) (w_redis (snd (Allow E l scope key' w))) (rnow E w) =
      (if e_fate E (w_tick w) = Refused then rs_view (e_redis E) (w_redis w) (rnow E w)
       else (rs_view (e_redis E) (w_redis w) (rnow E w))(rlKey scope key' \<mapsto> (RNum n, Some d)))"
    using e s by (cases "e_fate E (w_tick w)") (auto simp: Allow_def call split: option.splits)
qed

text \<open>What is seen of the windows after an interaction that took the content from one view to another.\<close>

lemma windows_after:
  assumes "env_laws E" and "w_tick w \<le> w_tick w'"
    and "\<And>k. window_entry k (rs_view (e_redis E) (w_redis w') (rnow E w) k)"
  shows "windows_ok E w'"
proof -
  have "windows_ok E (w'\<lparr>w_tick := w_tick w\<rparr>)"
    using assms(3) by (simp add: entries_ok_def rnow_def)
  then show ?thesis
    using entries_ok_later [where Q = window_entry and w = "w'\<lparr>w_tick := w_tick w\<rparr>" and w' = w' and E = E] assms(1,2) by simp
qed

lemma Allow_windows_ok:
  assumes "env_laws E" and "windows_ok E w"
  shows "windows_ok E (snd (Allow E l scope key' w))"
proof (cases "\<exists>rule. enforced l scope rule")
  case True
  then obtain rule n d where e: "enforced l scope rule"
    and st: "win_step (Milliseconds (ru_Window rule)) (rnow E w) (win_view E w (rlKey scope key')) = (n, d)"
    by (metis surj_pair)
  note step = Allow_enforced [OF assms(1) e assms(2) st]
  show ?thesis
  proof (rule windows_after [OF assms(1)])
    show "w_tick w \<le> w_tick (snd (Allow E l scope key' w))" by (simp add: step(3))
    show "window_entry k (rs_view (e_redis E) (w_redis (snd (Allow E l scope key' w))) (rnow E w) k)" for k
      using assms(2) step(4) by (auto simp: step(2) entries_ok_def) (auto simp: window_entry_def)
  qed
next
  case False
  then show ?thesis using assms(2) by (simp add: entries_ok_def rnow_def Allow_not_enforced)
qed

section \<open>Sequences of calls\<close>

text \<open>
  Calls by any mixture of scopes and keys, each some interactions after the one before; the result lists the
  time Redis saw, the scope, the key and the decision.
\<close>

fun allow_calls :: "'r env \<Rightarrow> RedisLimiter \<Rightarrow> (nat \<times> Scope \<times> string) list \<Rightarrow> 'r world \<Rightarrow> (int \<times> Scope \<times> string \<times> Decision) list" where
  "allow_calls E l [] w = []"
| "allow_calls E l ((gap, scope, key') # calls) w =
     (let w = w\<lparr>w_tick := w_tick w + gap\<rparr>;
          (d, w') = Allow E l scope key' w
      in (rnow E w, scope, key', d) # allow_calls E l calls w')"

definition admitted :: "Scope \<Rightarrow> string \<Rightarrow> int \<Rightarrow> int \<Rightarrow> int \<times> Scope \<times> string \<times> Decision \<Rightarrow> bool" where
  "admitted scope key' a b = (\<lambda>(t, s, k, d). s = scope \<and> k = key' \<and> de_Allowed d \<and> a \<le> t \<and> t \<le> b)"

text \<open>How many calls of one key can still be admitted between \<open>a\<close> and \<open>a + ms\<close>, seen at time \<open>t\<close>.\<close>

definition win_budget :: "int \<Rightarrow> int \<Rightarrow> int \<Rightarrow> int \<Rightarrow> (int \<times> int) option \<Rightarrow> int" where
  "win_budget limit ms a t st =
     (if a + ms < t then 0
      else case st of
             None \<Rightarrow> (if a \<le> t then limit else 2 * limit)
           | Some (n, d) \<Rightarrow>
               (if a + ms \<le> d then max 0 (limit - n)
                else if a \<le> d then max 0 (limit - n) + limit else 2 * limit))"

lemma win_budget_bounds:
  "0 < limit \<Longrightarrow> 0 \<le> win_budget limit ms a t st"
  "0 < limit \<Longrightarrow> (case st of None \<Rightarrow> True | Some (n, _) \<Rightarrow> 0 < n) \<Longrightarrow> win_budget limit ms a t st \<le> 2 * limit"
  by (auto simp: win_budget_def split: option.splits)

lemma win_budget_step:
  assumes "0 < limit" and "0 < ms" and "case st of None \<Rightarrow> True | Some (n, d) \<Rightarrow> t \<le> d \<and> 0 < n"
    and "c \<longrightarrow> fst (win_step ms t st) \<le> limit \<and> a \<le> t \<and> t \<le> a + ms"
  shows "(if c then 1 else 0) + win_budget limit ms a t (Some (win_step ms t st)) \<le> win_budget limit ms a t st"
  using assms by (auto simp: win_budget_def win_step_def split: option.splits)

lemma win_budget_later:
  assumes "t \<le> u" and "0 < limit" and "case st of None \<Rightarrow> True | Some (n, d) \<Rightarrow> 0 < n"
    and "st' = st \<or> (\<exists>n d. st = Some (n, d) \<and> d < u \<and> st' = None)"
  shows "win_budget limit ms a u st' \<le> win_budget limit ms a t st"
  using assms by (auto simp: win_budget_def split: option.splits)

lemma window_of_later:
  assumes "env_laws E" and "windows_ok E w" and "HasPrefix k ''rl:''" and "w_tick w \<le> w_tick w'"
    and "rs_view (e_redis E) (w_redis w') (rnow E w) k = rs_view (e_redis E) (w_redis w) (rnow E w) k"
  shows "win_view E w' k = win_view E w k \<or>
    (\<exists>n d. win_view E w k = Some (n, d) \<and> d < rnow E w' \<and> win_view E w' k = None)"
proof -
  have "window_entry k (rs_view (e_redis E) (w_redis w) (rnow E w) k)"
    using assms(2) by (simp add: entries_ok_def)
  then show ?thesis
    using window_entry_rl [OF _ assms(3)] assms(5)
      redis_view_later [OF env_lawsD(1) [OF assms(1)] rnow_mono [OF assms(1,4)], of "w_redis w'" k]
    by (fastforce simp: window_of_def)
qed

lemma win_view_ok:
  assumes "env_laws E" and "windows_ok E w" and "HasPrefix k ''rl:''"
  shows "case win_view E w k of None \<Rightarrow> True | Some (n, d) \<Rightarrow> rnow E w \<le> d \<and> 0 < n"
proof -
  have "window_entry k (rs_view (e_redis E) (w_redis w) (rnow E w) k)"
    using assms(2) by (simp add: entries_ok_def)
  then show ?thesis
    using window_entry_rl [OF _ assms(3)] redis_view_later [OF env_lawsD(1) [OF assms(1)] order.refl, of "w_redis w" "rnow E w" k]
    by (fastforce split: if_splits)
qed

lemma win_budget_idle:
  assumes "env_laws E" and "windows_ok E w" and "HasPrefix k ''rl:''" and "w_tick w \<le> w_tick w'" and "0 < limit"
    and "rs_view (e_redis E) (w_redis w') (rnow E w) k = rs_view (e_redis E) (w_redis w) (rnow E w) k"
  shows "win_budget limit ms a (rnow E w') (win_view E w' k) \<le> win_budget limit ms a (rnow E w) (win_view E w k)"
  by (rule win_budget_later [OF rnow_mono [OF assms(1,4)] assms(5) _ window_of_later [OF assms(1-4,6)]])
     (use win_view_ok [OF assms(1-3)] in \<open>auto split: option.splits\<close>)

lemma scope_string_no_colon: "CHR '':'' \<notin> set (scope_string scope)"
  by (cases scope) simp_all

lemma scope_string_inject [simp]: "scope_string s = scope_string s' \<longleftrightarrow> s = s'"
  by (cases s; cases s') simp_all

lemma rlKey_inject [simp]: "rlKey s k = rlKey s' k' \<longleftrightarrow> s = s' \<and> k = k'"
proof
  assume "rlKey s k = rlKey s' k'"
  then have "scope_string s @ CHR '':'' # k = scope_string s' @ CHR '':'' # k'" by (simp add: rlKey_def)
  then have "Split CHR '':'' (scope_string s @ CHR '':'' # k) = Split CHR '':'' (scope_string s' @ CHR '':'' # k')" by simp
  then have "scope_string s = scope_string s'" by (simp add: scope_string_no_colon)
  with \<open>rlKey s k = rlKey s' k'\<close> show "s = s' \<and> k = k'" by (simp add: rlKey_def)
qed simp

lemma Allow_other_key:
  assumes "env_laws E" and "windows_ok E w" and "(s, k) \<noteq> (scope, key')"
  shows "rs_view (e_redis E) (w_redis (snd (Allow E l s k w))) (rnow E w) (rlKey scope key') =
      rs_view (e_redis E) (w_redis w) (rnow E w) (rlKey scope key')"
    and "w_tick w \<le> w_tick (snd (Allow E l s k w))"
proof (atomize (full), cases "\<exists>r. enforced l s r")
  case True
  then obtain r n d where e: "enforced l s r" and st: "win_step (Milliseconds (ru_Window r)) (rnow E w) (win_view E w (rlKey s k)) = (n, d)"
    by (metis surj_pair)
  note step = Allow_enforced [OF assms(1) e assms(2) st]
  show "rs_view (e_redis E) (w_redis (snd (Allow E l s k w))) (rnow E w) (rlKey scope key') =
      rs_view (e_redis E) (w_redis w) (rnow E w) (rlKey scope key') \<and> w_tick w \<le> w_tick (snd (Allow E l s k w))"
    using assms(3) by (simp add: step(2,3)) auto
qed (simp add: Allow_not_enforced)

text \<open>A call uses up one unit of the budget of its key when it is admitted, and never adds to a budget.\<close>

lemma Allow_budget:
  assumes "env_laws E" and "enforced l scope rule" and "windows_ok E w" and "Allow E l s k w = (d, w')"
    and "limit = ru_Limit rule" and "ms = Milliseconds (ru_Window rule)"
  shows "(if admitted scope key' a (a + ms) (rnow E w, s, k, d) then 1 else 0) +
      win_budget limit ms a (rnow E w') (win_view E w' (rlKey scope key')) \<le>
    win_budget limit ms a (rnow E w) (win_view E w (rlKey scope key'))"
proof (cases "(s, k) = (scope, key')")
  case False
  note other = Allow_other_key [OF assms(1,3) False, of l, unfolded assms(4) snd_conv]
  have "\<not> admitted scope key' a (a + ms) (rnow E w, s, k, d)" using False by (auto simp: admitted_def)
  then show ?thesis
    using win_budget_idle [OF assms(1,3) rlKey_prefix other(2) _ other(1)] assms(2,5) by (simp add: enforced_def)
next
  case True
  have pos: "0 < limit" "0 < ms" using assms(2,5,6) by (simp_all add: enforced_def)
  obtain n dl where st: "win_step ms (rnow E w) (win_view E w (rlKey scope key')) = (n, dl)" by fastforce
  note step = Allow_enforced [OF assms(1,2,3) st [unfolded assms(6)], folded assms(5)]
  show ?thesis
  proof (cases "e_fate E (w_tick w) = Refused")
    case False
    let ?u = "w'\<lparr>w_tick := w_tick w\<rparr>"
    have u: "win_view E ?u (rlKey scope key') = Some (n, dl)" "rnow E ?u = rnow E w"
      using step(2) False True assms(4) by (simp_all add: rnow_def window_of_def)
    have ok: "windows_ok E ?u"
      using step(2,4) True assms(3,4) False u(2) by (simp add: entries_ok_def) (auto simp: window_entry_def)
    have "win_budget limit ms a (rnow E w') (win_view E w' (rlKey scope key')) \<le> win_budget limit ms a (rnow E w) (Some (n, dl))"
      using win_budget_idle [OF assms(1) ok rlKey_prefix, of w' limit scope key'] step(3) True assms(4) u pos by (simp add: rnow_def)
    moreover have "(if admitted scope key' a (a + ms) (rnow E w, s, k, d) then 1 else 0) + win_budget limit ms a (rnow E w) (Some (n, dl)) \<le>
        win_budget limit ms a (rnow E w) (win_view E w (rlKey scope key'))"
      using win_budget_step [OF pos win_view_ok [OF assms(1,3) rlKey_prefix], of "admitted scope key' a (a + ms) (rnow E w, s, k, d)" scope key' a]
        step(1) True assms(4) st
      by (auto simp: admitted_def win_decide_def failClosedDecision_def split: if_splits)
    ultimately show ?thesis by simp
  next
    case refused: True
    then have "\<not> admitted scope key' a (a + ms) (rnow E w, s, k, d)"
      using step(1) True assms(4) by (auto simp: admitted_def failClosedDecision_def)
    then show ?thesis
      using win_budget_idle [OF assms(1,3) rlKey_prefix, of w' limit scope key'] step(2,3) True assms(4) refused pos by simp
  qed
qed

lemma allow_calls_budget:
  assumes "env_laws E" and "enforced l scope rule"
  shows "windows_ok E w \<Longrightarrow>
    int (length (filter (admitted scope key' a (a + Milliseconds (ru_Window rule))) (allow_calls E l calls w))) \<le>
    win_budget (ru_Limit rule) (Milliseconds (ru_Window rule)) a (rnow E w) (win_view E w (rlKey scope key'))"
proof (induction calls arbitrary: w)
  case Nil
  then show ?case using win_budget_bounds(1) assms(2) by (simp add: enforced_def)
next
  case (Cons call calls)
  obtain gap s k where call: "call = (gap, s, k)" by (metis prod_cases3)
  define w0 where "w0 = w\<lparr>w_tick := w_tick w + gap\<rparr>"
  obtain d w' where step: "Allow E l s k w0 = (d, w')" by fastforce
  have ok0: "windows_ok E w0"
    using entries_ok_later [where Q = window_entry and w = w and w' = w0 and E = E] Cons.prems assms(1) by (simp add: w0_def)
  have ok: "windows_ok E w'" using Allow_windows_ok [OF assms(1) ok0, of l s k] step by simp
  note b = Allow_budget [OF assms ok0 step refl refl, of key' a]
  have "win_budget (ru_Limit rule) (Milliseconds (ru_Window rule)) a (rnow E w0) (win_view E w0 (rlKey scope key')) \<le>
    win_budget (ru_Limit rule) (Milliseconds (ru_Window rule)) a (rnow E w) (win_view E w (rlKey scope key'))"
    by (rule win_budget_idle [OF assms(1) Cons.prems rlKey_prefix]) (use assms(2) in \<open>simp_all add: w0_def enforced_def\<close>)
  with b Cons.IH [OF ok] show ?case
    by (simp add: call Let_def w0_def [symmetric] step split: if_splits)
qed

section \<open>Properties\<close>

text \<open>
  C36. The limiter implements the fixed-window counter. For a configured scope, a call that Redis serves
  counts itself in the window of its key, or opens a window of the configured length when there is none,
  and decides by the new count; any other outcome of the call denies for five seconds. The count is
  stored unless the call was refused, no other key of Redis changes, and the keys of the limiter keep
  their form.
\<close>

theorem allow_refines_window:
  assumes "env_laws E" and "enforced l scope rule" and "windows_ok E w" and "Allow E l scope key' w = (dec, w')"
    and "st = win_step (Milliseconds (ru_Window rule)) (rnow E w) (win_view E w (rlKey scope key'))"
  shows "dec = (if e_fate E (w_tick w) = Served then win_decide (ru_Limit rule) (rnow E w) st else failClosedDecision) \<and>
    window_of (rs_view (e_redis E) (w_redis w') (rnow E w) (rlKey scope key')) =
      (if e_fate E (w_tick w) = Refused then win_view E w (rlKey scope key') else Some st) \<and>
    (\<forall>k. k \<noteq> rlKey scope key' \<longrightarrow>
       rs_view (e_redis E) (w_redis w') (rnow E w) k = rs_view (e_redis E) (w_redis w) (rnow E w) k) \<and>
    windows_ok E w'"
proof -
  obtain n d where st: "st = (n, d)" by fastforce
  note step = Allow_enforced [OF assms(1-3) assms(5) [symmetric, unfolded st], unfolded assms(4) fst_conv snd_conv]
  show ?thesis
    using Allow_windows_ok [OF assms(1,3), of l scope key'] assms(4) by (simp add: step(1,2) st window_of_def)
qed

text \<open>
  C37. The rate is bounded. However calls of all scopes and keys follow one another, whatever becomes of
  them, and whatever the counters hold at the start, within any interval of the length of the window at
  most twice the limit of the calls of one key are admitted.
\<close>

theorem rate_bounded:
  assumes "env_laws E" and "enforced l scope rule" and "windows_ok E w"
  shows "length (filter (admitted scope key' a (a + Milliseconds (ru_Window rule))) (allow_calls E l calls w)) \<le>
    2 * nat (ru_Limit rule)"
proof -
  have "0 < ru_Limit rule" using assms(2) by (simp add: enforced_def)
  moreover have "case win_view E w (rlKey scope key') of None \<Rightarrow> True | Some (n, _) \<Rightarrow> 0 < n"
    using win_view_ok [OF assms(1,3) rlKey_prefix, of scope key'] by (auto split: option.splits)
  ultimately have "win_budget (ru_Limit rule) (Milliseconds (ru_Window rule)) a (rnow E w) (win_view E w (rlKey scope key')) \<le>
    2 * ru_Limit rule"
    by (rule win_budget_bounds(2))
  with allow_calls_budget [OF assms, of key' a calls] show ?thesis by linarith
qed

definition sample_limiter :: RedisLimiter where
  "sample_limiter =
     NewRedisLimiter True (\<lambda>s. if s = ScopeLogin then Some \<lparr>ru_Limit = 2, ru_Window = 5 * Millisecond\<rparr> else None) None"

lemma sample_enforced: "enforced sample_limiter ScopeLogin \<lparr>ru_Limit = 2, ru_Window = 5 * Millisecond\<rparr>"
  by (simp add: enforced_def sample_limiter_def NewRedisLimiter_def Milliseconds_def time_units)

lemma sample_windows: "windows_ok sample_env sample_world"
  by (simp add: entries_ok_def sample_world_def sample_env_def mem_redis_def)

theorem allow_refines_window_witness:
  "fst (Allow sample_env sample_limiter ScopeLogin ''ada'' sample_world) = \<lparr>de_Allowed = True, de_RetryAfter = 0\<rparr>"
  using allow_refines_window [OF sample_env_laws sample_enforced sample_windows prod.collapse [symmetric] refl, of "''ada''"]
  by (simp add: sample_env_def sample_world_def win_step_def window_of_def mem_redis_def win_decide_def rnow_def
        Milliseconds_def time_units)

theorem rate_bounded_witness:
  "length (filter (admitted ScopeLogin ''ada'' 0 5)
     (allow_calls sample_env sample_limiter (replicate 4 (0, ScopeLogin, ''ada'')) sample_world)) \<le> 4"
  using rate_bounded [OF sample_env_laws sample_enforced sample_windows, of "''ada''" 0 "replicate 4 (0, ScopeLogin, ''ada'')"]
  by (simp add: Milliseconds_def time_units)

end
