(* ===== verification/OidcState.thy ===== *)
theory OidcState
  imports AuthPorts BodyJson Tables
begin

text \<open>
  \<^verbatim>\<open>internal/store/redis/oidcstate.go\<close>: the server-side half of an authorization request, kept in Redis
  under its state token for a short time and taken out at most once.
\<close>

section \<open>The operations\<close>

record OIDCState =
  os_Verifier :: string
  os_Nonce :: string
  os_CreatedAt :: gtime

definition oidcKey :: "string \<Rightarrow> string" where
  "oidcKey state = ''oidc:'' @ state"

definition validOIDCState :: "string \<Rightarrow> OIDCState \<Rightarrow> bool" where
  "validOIDCState state v \<longleftrightarrow> state \<noteq> [] \<and> os_Verifier v \<noteq> [] \<and> os_Nonce v \<noteq> [] \<and> \<not> IsZero (os_CreatedAt v)"

text \<open>A time outside the years 0 to 9999 cannot be written as JSON.\<close>

definition marshal_state :: "OIDCState \<Rightarrow> json option" where
  "marshal_state v =
     (if time_year (os_CreatedAt v) < 0 \<or> 9999 < time_year (os_CreatedAt v) then None
      else Some (JObj [(''verifier'', json_string (os_Verifier v)), (''nonce'', json_string (os_Nonce v)),
                       (''created_at'', JTime (os_CreatedAt v))]))"

fun read_time :: "gtime \<Rightarrow> json \<Rightarrow> gtime option" where
  "read_time old (JTime t) = Some t"
| "read_time old JNull = Some old"
| "read_time old _ = None"

definition state_field :: "string \<times> json \<Rightarrow> OIDCState \<Rightarrow> OIDCState option" where
  "state_field m r =
     (let (name, v) = m in
      if EqualFold name ''verifier'' then map_option (\<lambda>s. r\<lparr>os_Verifier := s\<rparr>) (read_string (os_Verifier r) v)
      else if EqualFold name ''nonce'' then map_option (\<lambda>s. r\<lparr>os_Nonce := s\<rparr>) (read_string (os_Nonce r) v)
      else if EqualFold name ''created_at'' then map_option (\<lambda>t. r\<lparr>os_CreatedAt := t\<rparr>) (read_time (os_CreatedAt r) v)
      else Some r)"

definition zero_state :: OIDCState where
  "zero_state = \<lparr>os_Verifier = [], os_Nonce = [], os_CreatedAt = zero_time\<rparr>"

fun unmarshal_state :: "json \<Rightarrow> OIDCState option" where
  "unmarshal_state (JObj ms) = members state_field ms zero_state"
| "unmarshal_state JNull = Some zero_state"
| "unmarshal_state _ = None"

definition OIDCStateStore_Save :: "'r env \<Rightarrow> string \<Rightarrow> OIDCState \<Rightarrow> duration \<Rightarrow> ('r world, unit) op" where
  "OIDCStateStore_Save E state v ttl =
     (if ttl \<le> 0 then failR (EText ''redis: oidc state ttl must be positive'')
      else if \<not> validOIDCState state v then failR ErrOIDCStateInvalid
      else case marshal_state v of
             None \<Rightarrow> failR (EText ''redis: encode oidc state'')
           | Some record \<Rightarrow>
               mapE (EWrap ''redis: save oidc state'')
                 (redis_call E (\<lambda>t s. ((), rs_set (e_redis E) t (oidcKey state) (RJson record) ttl s))))"

text \<open>What is found under the key: a value of another type is an error of the server.\<close>

definition decode_state :: "string \<Rightarrow> rval option \<Rightarrow> OIDCState res" where
  "decode_state state x =
     (case x of
        Some (RJson j) \<Rightarrow>
          (case unmarshal_state j of
             None \<Rightarrow> Inl ErrOIDCStateInvalid
           | Some v \<Rightarrow> if validOIDCState state v then Inr v else Inl ErrOIDCStateInvalid)
      | Some (RHash _) \<Rightarrow> Inl (EWrap ''redis: take oidc state'' (EService ''WRONGTYPE''))
      | _ \<Rightarrow> Inl ErrOIDCStateInvalid)"

definition OIDCStateStore_Take :: "'r env \<Rightarrow> string \<Rightarrow> ('r world, OIDCState) op" where
  "OIDCStateStore_Take E state =
     (if state = [] then failR ErrOIDCStateInvalid
      else bindR (mapE (EWrap ''redis: take oidc state'')
                    (redis_call E (\<lambda>t s. rs_getdel (e_redis E) t (oidcKey state) s)))
             (\<lambda>x. liftR (decode_state state x)))"


section \<open>Lemmas\<close>

lemma EqualFold_literals:
  "EqualFold ''nonce'' ''verifier'' = False" "EqualFold ''created_at'' ''verifier'' = False"
  "EqualFold ''created_at'' ''nonce'' = False"
  by (simp_all add: EqualFold_def ToLower_def)

lemma unmarshal_marshal_state:
  assumes "marshal_state v = Some j" and "ValidString (os_Verifier v)" and "ValidString (os_Nonce v)"
  shows "unmarshal_state j = Some (v :: OIDCState)"
  using assms
  by (auto simp: marshal_state_def json_string_valid state_field_def zero_state_def EqualFold_literals split: if_splits)

lemma Take_absent:
  assumes "redis_laws (e_redis E)" and "e_fate E (w_tick w) = Served"
    and "rs_view (e_redis E) (w_redis w) (rnow E w) (oidcKey state) = None"
  shows "fst (OIDCStateStore_Take E state w) = Inl ErrOIDCStateInvalid"
  using assms redis_string_lawsD(6) [OF assms(1), of "rnow E w" "oidcKey state" "w_redis w"]
  by (auto simp: OIDCStateStore_Take_def fst_bindR mapE_def redis_call_def rnow_def decode_state_def split: prod.splits)

lemma Take_present:
  assumes "redis_laws (e_redis E)" and "e_fate E (w_tick w) = Served" and "state \<noteq> []"
    and "rs_view (e_redis E) (w_redis w) (rnow E w) (oidcKey state) = Some (RJson j, d)"
    and "unmarshal_state j = Some v" and "validOIDCState state v"
  obtains w' where "OIDCStateStore_Take E state w = (Inr v, w')" "w_tick w' = Suc (w_tick w)"
    "rs_view (e_redis E) (w_redis w') (rnow E w) (oidcKey state) = None"
proof -
  obtain x r where g: "rs_getdel (e_redis E) (rnow E w) (oidcKey state) (w_redis w) = (x, r)" by (metis surj_pair)
  have "x = Some (RJson j)" "rs_view (e_redis E) r (rnow E w) (oidcKey state) = None"
    using redis_string_lawsD(6,7) [OF assms(1), of "rnow E w" "oidcKey state" "w_redis w"] assms(4) by (simp_all add: g)
  then show ?thesis
    using assms g by (intro that [of "(tick w)\<lparr>w_redis := r\<rparr>"])
      (simp_all add: OIDCStateStore_Take_def bindR_def mapE_def redis_call_def rnow_def [symmetric] decode_state_def)
qed

section \<open>Properties\<close>

text \<open>
  C34. An authorization state is good for one use within its lifetime: taking it returns exactly what
  was saved and a second attempt is refused, as is any attempt after the lifetime.
\<close>

theorem oidc_state_once:
  assumes "env_laws E" and "OIDCStateStore_Save E state v ttl w = (Inr x, w1)" and "Millisecond \<le> ttl"
    and "ValidString (os_Verifier v)" and "ValidString (os_Nonce v)"
    and "w_redis w2 = w_redis w1" and "w_tick w1 \<le> w_tick w2" and "\<And>n. w_tick w2 \<le> n \<Longrightarrow> e_fate E n = Served"
  shows "(rnow E w2 \<le> rnow E w + ttl div Millisecond \<longrightarrow>
      (\<exists>w3. OIDCStateStore_Take E state w2 = (Inr v, w3) \<and>
        (\<forall>w4. w_redis w4 = w_redis w3 \<and> w_tick w3 \<le> w_tick w4 \<longrightarrow>
          fst (OIDCStateStore_Take E state w4) = Inl ErrOIDCStateInvalid))) \<and>
    (rnow E w + ttl div Millisecond < rnow E w2 \<longrightarrow>
      fst (OIDCStateStore_Take E state w2) = Inl ErrOIDCStateInvalid)"
proof -
  note laws = env_lawsD(1) [OF assms(1)]
  from assms(2) obtain j where j: "marshal_state v = Some j" and valid: "validOIDCState state v"
    and w1: "w_redis w1 = rs_set (e_redis E) (rnow E w) (oidcKey state) (RJson j) ttl (w_redis w)" "w_tick w1 = Suc (w_tick w)"
    by (auto simp: OIDCStateStore_Save_def redis_call_Inr split: if_splits option.splits)
  have le: "rnow E w \<le> rnow E w2" using assms(7) w1(2) by (intro rnow_mono [OF assms(1)]) simp
  have view: "rs_view (e_redis E) (w_redis w2) (rnow E w2) (oidcKey state) =
      (if rnow E w2 \<le> rnow E w + ttl div Millisecond
       then Some (RJson j, Some (rnow E w + ttl div Millisecond)) else None)"
    using redis_view_later [OF laws le, of "w_redis w2" "oidcKey state"] assms(6) w1(1)
    by (simp add: redis_string_lawsD(2) [OF laws assms(3)])
  show ?thesis
  proof (intro conjI impI)
    assume "rnow E w2 \<le> rnow E w + ttl div Millisecond"
    with view have stored: "rs_view (e_redis E) (w_redis w2) (rnow E w2) (oidcKey state) =
      Some (RJson j, Some (rnow E w + ttl div Millisecond))" by simp
    have named: "state \<noteq> []" using valid by (simp add: validOIDCState_def)
    obtain w3 where w3: "OIDCStateStore_Take E state w2 = (Inr v, w3)" "w_tick w3 = Suc (w_tick w2)"
      "rs_view (e_redis E) (w_redis w3) (rnow E w2) (oidcKey state) = None"
      using Take_present [OF laws assms(8) [OF order.refl] named stored unmarshal_marshal_state [OF j assms(4,5)] valid]
      by blast
    have "fst (OIDCStateStore_Take E state w4) = Inl ErrOIDCStateInvalid"
      if "w_redis w4 = w_redis w3" "w_tick w3 \<le> w_tick w4" for w4
      using that w3(2,3) redis_view_later [OF laws rnow_mono [OF assms(1), of w2 w4], of "w_redis w4" "oidcKey state"]
      by (intro Take_absent [OF laws assms(8)]) simp_all
    with w3(1) show "\<exists>w3. OIDCStateStore_Take E state w2 = (Inr v, w3) \<and>
        (\<forall>w4. w_redis w4 = w_redis w3 \<and> w_tick w3 \<le> w_tick w4 \<longrightarrow>
          fst (OIDCStateStore_Take E state w4) = Inl ErrOIDCStateInvalid)" by blast
  next
    assume "rnow E w + ttl div Millisecond < rnow E w2"
    with view show "fst (OIDCStateStore_Take E state w2) = Inl ErrOIDCStateInvalid"
      by (intro Take_absent [OF laws assms(8) [OF order.refl]]) simp
  qed
qed

definition sample_state :: OIDCState where
  "sample_state = \<lparr>os_Verifier = ''ver'', os_Nonce = ''non'', os_CreatedAt = 0\<rparr>"

lemma sample_state_save:
  "\<exists>w1. OIDCStateStore_Save sample_env ''st'' sample_state Minute sample_world = (Inr (), w1) \<and> w_tick w1 = 1"
proof -
  have "time_year 0 = 1970" by code_simp
  then obtain j where "marshal_state sample_state = Some j" by (auto simp: marshal_state_def sample_state_def)
  moreover have "validOIDCState ''st'' sample_state"
    by (simp add: validOIDCState_def sample_state_def IsZero_def zero_time_def)
  moreover have "e_fate sample_env (w_tick sample_world) = Served" "w_tick sample_world = 0" "\<not> Minute \<le> 0"
    by (simp_all add: sample_env_def sample_world_def time_units)
  ultimately show ?thesis
    by (auto simp: OIDCStateStore_Save_def redis_call_Inr)
qed

theorem oidc_state_once_witness:
  "\<exists>w1 w3. OIDCStateStore_Save sample_env ''st'' sample_state Minute sample_world = (Inr (), w1) \<and>
     OIDCStateStore_Take sample_env ''st'' w1 = (Inr sample_state, w3) \<and>
     fst (OIDCStateStore_Take sample_env ''st'' w3) = Inl ErrOIDCStateInvalid"
proof -
  obtain w1 where w1: "OIDCStateStore_Save sample_env ''st'' sample_state Minute sample_world = (Inr (), w1)" "w_tick w1 = 1"
    using sample_state_save by blast
  have valid: "ValidString (os_Verifier sample_state)" "ValidString (os_Nonce sample_state)"
    by (rule ValidString_ascii_chars, simp add: sample_state_def)+
  have "e_fate sample_env n = Served" for n by (simp add: sample_env_def)
  note once = oidc_state_once [OF sample_env_laws w1(1) _ valid refl order.refl this]
  have "rnow sample_env w1 \<le> rnow sample_env sample_world + Minute div Millisecond"
    using w1(2) by (simp add: rnow_def sample_env_def time_units)
  with once w1(1) show ?thesis by (auto simp: time_units)
qed

end
