(* ===== verification/Oidc.thy ===== *)
theory Oidc
  imports OidcState Config Live
begin

text \<open>
  \<^verbatim>\<open>internal/auth/oidc.go\<close>: login by authorization code with PKCE and a mandatory group. The identity
  provider and the packages that talk to it (discovery, the authorization URL, the token exchange, the
  verification of an ID token) are the record \<open>idp\<close>, an argument; each request to the provider is an
  interaction and is answered by its number.
\<close>

section \<open>The provider and the interfaces\<close>

text \<open>A verified ID token; its claims are \<open>None\<close> when they are not a JSON object.\<close>

record IDToken =
  it_Issuer :: string
  it_Subject :: string
  it_Nonce :: string
  it_Claims :: "(string \<times> json) list option"

text \<open>
  \<open>idp_Exchange\<close> takes the code and the PKCE verifier and returns the member \<^verbatim>\<open>id_token\<close> of the answer, or
  \<open>None\<close> when it is not a string.
\<close>

record idp =
  idp_NewProvider :: "nat \<Rightarrow> unit res"
  idp_AuthCodeURL :: "string \<Rightarrow> (string \<times> string) list \<Rightarrow> string"
  idp_Exchange :: "nat \<Rightarrow> string \<Rightarrow> string \<Rightarrow> string option res"
  idp_Verify :: "nat \<Rightarrow> string \<Rightarrow> IDToken res"

record 's OIDCStateStore =
  st_Save :: "string \<Rightarrow> OIDCState \<Rightarrow> duration \<Rightarrow> ('s, unit) op"
  st_Take :: "string \<Rightarrow> ('s, OIDCState) op"

definition NewOIDCStateStore :: "'r env \<Rightarrow> 'r world OIDCStateStore" where
  "NewOIDCStateStore E = \<lparr>st_Save = OIDCStateStore_Save E, st_Take = OIDCStateStore_Take E\<rparr>"

record 'r OIDC =
  od_cfg :: OIDCConfig
  od_idp :: idp
  od_users :: "'r world UserStore"
  od_states :: "'r world OIDCStateStore"
  od_sink :: "ctx \<Rightarrow> Event \<Rightarrow> 'r world \<Rightarrow> 'r world"

definition idp_call :: "(nat \<Rightarrow> 'a res) \<Rightarrow> ('r world, 'a) op" where
  "idp_call f w = (f (w_tick w), tick w)"

definition oidc_now :: "'r env \<Rightarrow> ('r world, gtime) op" where
  "oidc_now E w = (let (t, w') = clock_Now E w in (Inr t, w'))"

section \<open>The operations\<close>

definition oidcStateTTL :: duration where "oidcStateTTL = 5 * Minute"

definition sanitizedOIDCError :: "string \<Rightarrow> goerr \<Rightarrow> goerr" where
  "sanitizedOIDCError stage err =
     (if errors_Is err Canceled then EWrap (''oidc: '' @ stage) Canceled
      else if errors_Is err DeadlineExceeded then EWrap (''oidc: '' @ stage) DeadlineExceeded
      else EText (''oidc: '' @ stage @ '' failed''))"

definition NewOIDC ::
  "OIDCConfig \<Rightarrow> idp \<Rightarrow> 'r world UserStore \<Rightarrow> 'r world OIDCStateStore \<Rightarrow>
   (ctx \<Rightarrow> Event \<Rightarrow> 'r world \<Rightarrow> 'r world) \<Rightarrow> ('r world, 'r OIDC) op" where
  "NewOIDC cfg P users states sink =
     (if TrimSpace (oc_RequiredGroup cfg) = [] then failR (EText ''oidc: required group must be set'')
      else bindR (mapE (sanitizedOIDCError ''discovery'') (idp_call (idp_NewProvider P))) (\<lambda>_.
           retR \<lparr>od_cfg = cfg, od_idp = P, od_users = users, od_states = states, od_sink = sink\<rparr>))"

definition pkceS256 :: "'r env \<Rightarrow> string \<Rightarrow> string" where
  "pkceS256 E verifier = RawURL_Encode (e_sha256 E (bytes_of verifier))"

definition OIDC_Start :: "'r env \<Rightarrow> 'r OIDC \<Rightarrow> ('r world, string) op" where
  "OIDC_Start E o' =
     bindR (RandomToken E 32) (\<lambda>state.
     bindR (RandomToken E 32) (\<lambda>verifier.
     bindR (RandomToken E 32) (\<lambda>nonce.
     bindR (oidc_now E) (\<lambda>now.
     bindR (st_Save (od_states o') state
              \<lparr>os_Verifier = verifier, os_Nonce = nonce, os_CreatedAt = now\<rparr> oidcStateTTL) (\<lambda>_.
     retR (idp_AuthCodeURL (od_idp o') state
             [(''code_challenge'', pkceS256 E verifier), (''code_challenge_method'', ''S256''),
              (''nonce'', nonce)]))))))"

record oidcIdentityClaims =
  ic_PreferredUsername :: string
  ic_Email :: string
  ic_Name :: string
  ic_Groups :: "string list"

text \<open>A claim that must be a string when it is there, and the list of groups.\<close>

definition string_claim :: "(string \<times> json) list \<Rightarrow> string \<Rightarrow> string option" where
  "string_claim raw name =
     (case map_of raw name of
        None \<Rightarrow> Some []
      | Some v \<Rightarrow> if v = JNull then None else read_string [] v)"

fun read_strings :: "json list \<Rightarrow> string list option" where
  "read_strings [] = Some []"
| "read_strings (v # vs) =
     (case (read_string [] v, read_strings vs) of (Some s, Some ss) \<Rightarrow> Some (s # ss) | _ \<Rightarrow> None)"

definition group_claim :: "(string \<times> json) list \<Rightarrow> string \<Rightarrow> string list option" where
  "group_claim raw name =
     (case map_of raw name of None \<Rightarrow> Some [] | Some (JArr vs) \<Rightarrow> read_strings vs | Some _ \<Rightarrow> None)"

definition decodeClaims :: "OIDCConfig \<Rightarrow> IDToken \<Rightarrow> oidcIdentityClaims option" where
  "decodeClaims cfg tok =
     (case it_Claims tok of
        None \<Rightarrow> None
      | Some raw \<Rightarrow>
          (case (string_claim raw ''preferred_username'', string_claim raw ''email'', string_claim raw ''name'',
                 group_claim raw (oc_GroupClaim cfg)) of
             (Some u, Some e, Some n, Some gs) \<Rightarrow>
               Some \<lparr>ic_PreferredUsername = u, ic_Email = e, ic_Name = n, ic_Groups = gs\<rparr>
           | _ \<Rightarrow> None))"

definition recordDenied :: "'r env \<Rightarrow> 'r OIDC \<Rightarrow> ctx \<Rightarrow> string \<Rightarrow> string \<Rightarrow> 'r world \<Rightarrow> 'r world" where
  "recordDenied E o' c subject reason w =
     (let (now, w') = clock_Now E w
      in od_sink o' c \<lparr>ev_At = now, ev_Event = OIDCDenied, ev_ActorID = None, ev_PasteID = None, ev_IP = [],
           ev_UserAgent = [], ev_Outcome = OutcomeDenied,
           ev_Details = [(''reason'', DStr reason), (''issuer'', DStr (oc_Issuer (od_cfg o'))), (''subject'', DStr subject)]\<rparr> w')"

definition deny :: "'r env \<Rightarrow> 'r OIDC \<Rightarrow> ctx \<Rightarrow> string \<Rightarrow> string \<Rightarrow> goerr \<Rightarrow> ('r world, 'a) op" where
  "deny E o' c subject reason err w = (Inl err, recordDenied E o' c subject reason w)"

definition oidc_username :: "oidcIdentityClaims \<Rightarrow> IDToken \<Rightarrow> string" where
  "oidc_username claims tok =
     (let u = TrimSpace (ic_PreferredUsername claims);
          u = (if u = [] then TrimSpace (ic_Email claims) else u)
      in if u = [] then it_Subject tok else u)"

text \<open>The user of a verified token, and the end of \<^verbatim>\<open>Complete\<close> from there.\<close>

definition oidc_is_admin :: "OIDCConfig \<Rightarrow> oidcIdentityClaims \<Rightarrow> bool" where
  "oidc_is_admin cfg claims \<longleftrightarrow> oc_AdminGroup cfg \<noteq> [] \<and> oc_AdminGroup cfg \<in> set (ic_Groups claims)"

definition oidc_user :: "OIDCConfig \<Rightarrow> oidcIdentityClaims \<Rightarrow> IDToken \<Rightarrow> uuid \<Rightarrow> User" where
  "oidc_user cfg claims tok i =
     \<lparr>us_ID = i, us_Username = oidc_username claims tok, us_DisplayName = ic_Name claims,
      us_Provider = ProviderOIDC, us_OIDCIssuer = it_Issuer tok, us_OIDCSubject = it_Subject tok,
      us_PasswordHash = [], us_IsAdmin = oidc_is_admin cfg claims, us_Disabled = False,
      us_CreatedAt = zero_time, us_LastLoginAt = None\<rparr>"

definition oidc_accept :: "'r env \<Rightarrow> 'r OIDC \<Rightarrow> ctx \<Rightarrow> gtime \<Rightarrow> IDToken \<Rightarrow> oidcIdentityClaims \<Rightarrow> ('r world, User) op" where
  "oidc_accept E o' c now tok claims =
     (\<lambda>w. bindR (up_UpsertOIDC (od_users o') (oidc_user (od_cfg o') claims tok (e_uuid_New E (w_tick w)))) (\<lambda>stored.
        if us_Disabled stored then deny E o' c (it_Subject tok) ''disabled'' ErrNotAuthorised
        else (\<lambda>w. (Inr stored,
               od_sink o' c \<lparr>ev_At = now, ev_Event = OIDCLogin, ev_ActorID = Some (us_ID stored), ev_PasteID = None,
                 ev_IP = [], ev_UserAgent = [], ev_Outcome = OutcomeSuccess,
                 ev_Details = [(''provider'', DStr ''oidc''), (''is_admin'', DBool (us_IsAdmin stored))]\<rparr> w))) (tick w))"

definition oidc_state_fresh :: "OIDCState \<Rightarrow> gtime \<Rightarrow> bool" where
  "oidc_state_fresh v now \<longleftrightarrow>
     \<not> (os_Verifier v = [] \<or> os_Nonce v = [] \<or> IsZero (os_CreatedAt v) \<or> now < os_CreatedAt v \<or>
        \<not> now < os_CreatedAt v + oidcStateTTL)"

definition oidc_check_token :: "'r env \<Rightarrow> 'r OIDC \<Rightarrow> ctx \<Rightarrow> gtime \<Rightarrow> OIDCState \<Rightarrow> IDToken \<Rightarrow> ('r world, User) op" where
  "oidc_check_token E o' c now v tok =
     (if it_Nonce tok \<noteq> os_Nonce v
      then deny E o' c (it_Subject tok) ''nonce_mismatch'' (EText ''oidc: nonce validation failed'')
      else if it_Issuer tok = [] \<or> it_Issuer tok \<noteq> oc_Issuer (od_cfg o') \<or> TrimSpace (it_Subject tok) = []
      then failR (EText ''oidc: invalid identity claims'')
      else case decodeClaims (od_cfg o') tok of
             None \<Rightarrow> failR (EText ''oidc: invalid identity claims'')
           | Some claims \<Rightarrow>
               if oc_RequiredGroup (od_cfg o') \<notin> set (ic_Groups claims)
               then deny E o' c (it_Subject tok) ''missing_required_group'' ErrNotAuthorised
               else oidc_accept E o' c now tok claims)"

definition OIDC_Complete :: "'r env \<Rightarrow> 'r OIDC \<Rightarrow> ctx \<Rightarrow> string \<Rightarrow> string \<Rightarrow> ('r world, User) op" where
  "OIDC_Complete E o' c state code =
     bindR (st_Take (od_states o') state) (\<lambda>v.
     bindR (oidc_now E) (\<lambda>now.
       if \<not> oidc_state_fresh v now then failR ErrOIDCStateInvalid
       else if code = [] then failR (EText ''oidc: authorization code missing'')
       else bindR (mapE (sanitizedOIDCError ''token exchange'')
                     (idp_call (\<lambda>n. idp_Exchange (od_idp o') n code (os_Verifier v)))) (\<lambda>raw.
            if raw = None \<or> raw = Some [] then failR (EText ''oidc: token response omitted id token'')
            else bindR (mapE (sanitizedOIDCError ''id token verification'')
                          (idp_call (\<lambda>n. idp_Verify (od_idp o') n (the raw)))) (\<lambda>tok.
                 oidc_check_token E o' c now v tok))))"


section \<open>The repository's OIDC login\<close>

definition live_oidc :: "'r env \<Rightarrow> live_config \<Rightarrow> string comparator \<Rightarrow> OIDCConfig \<Rightarrow> idp \<Rightarrow> 'r OIDC" where
  "live_oidc E l collation cfg P =
     \<lparr>od_cfg = cfg, od_idp = P, od_users = NewUserStore E collation, od_states = NewOIDCStateStore E,
      od_sink = Multi_Record [logSink_Record E (lc_level l), AuditStore_Record E (lc_level l)]\<rparr>"

lemma UpsertOIDC_identity:
  assumes "world_ok E w" and "UserStore_UpsertOIDC E u w = (Inr v, w')"
  shows "us_OIDCIssuer v = us_OIDCIssuer u" "us_OIDCSubject v = us_OIDCSubject u" "us_IsAdmin v = us_IsAdmin u"
proof -
  define r where "r = \<lparr>ur_ID = us_ID u, ur_Username = us_Username u, ur_DisplayName = nullableString (us_DisplayName u),
           ur_Provider = ProviderOIDC, ur_OIDCIssuer = Some (us_OIDCIssuer u),
           ur_OIDCSubject = Some (us_OIDCSubject u), ur_PasswordHash = None, ur_IsAdmin = us_IsAdmin u,
           ur_Disabled = False, ur_CreatedAt = pg_now E (tick w), ur_LastLoginAt = Some (pg_now E (tick w))\<rparr>"
  have up: "upsert_user E r (tick w) = (Inr v, w')"
    using assms(2) by (auto simp: UserStore_UpsertOIDC_def r_def db_call_Inr)
  have key: "oidc_key r = Some (us_OIDCIssuer u, us_OIDCSubject u)" "ur_IsAdmin r = us_IsAdmin u"
    by (simp_all add: r_def oidc_key_def)
  have ok: "world_ok E (tick w)" using assms(1) by simp
  show "us_OIDCIssuer v = us_OIDCIssuer u" "us_OIDCSubject v = us_OIDCSubject u" "us_IsAdmin v = us_IsAdmin u"
    by (rule upsert_user_Inr [OF ok up key(1)];
        auto simp: scanUser_def oidc_key_def userColumn_or_empty_def key(2) split: option.splits)+
qed

lemma Take_world_ok: "OIDCStateStore_Take E state w = (Inr v, w') \<Longrightarrow> world_ok E w' = world_ok E w"
  by (rule world_ok_cong) (auto simp: OIDCStateStore_Take_def bindR_Inr redis_call_Inr split: if_splits)

lemma deny_never [simp]: "deny E o' c s r e w \<noteq> (Inr u, w')"
  by (simp add: deny_def)

lemma oidc_accept_Inr:
  assumes "world_ok E w" and "oidc_accept E (live_oidc E l collation cfg P) c now tok claims w = (Inr u, w')"
  shows "us_OIDCIssuer u = it_Issuer tok \<and> us_OIDCSubject u = it_Subject tok \<and>
    us_IsAdmin u = oidc_is_admin cfg claims \<and> \<not> us_Disabled u"
proof -
  from assms(2) obtain w1 where up: "UserStore_UpsertOIDC E (oidc_user cfg claims tok (e_uuid_New E (w_tick w))) (tick w) = (Inr u, w1)"
    and "\<not> us_Disabled u"
    by (auto simp: oidc_accept_def bindR_Inr live_oidc_def NewUserStore_def split: if_splits)
  with UpsertOIDC_identity [OF _ up] assms(1) show ?thesis by (simp add: oidc_user_def)
qed

lemma OIDC_Complete_Inr:
  assumes "OIDC_Complete E o' c state code w = (Inr u, w')"
  obtains v now w1 w2 raw n m tok claims where "st_Take (od_states o') state w = (Inr v, w1)"
    "now = e_clock E (w_tick w1)" "oidc_state_fresh v now" "code \<noteq> []"
    "idp_Exchange (od_idp o') n code (os_Verifier v) = Inr (Some raw)" "raw \<noteq> []"
    "idp_Verify (od_idp o') m raw = Inr tok" "it_Nonce tok = os_Nonce v" "it_Issuer tok = oc_Issuer (od_cfg o')"
    "decodeClaims (od_cfg o') tok = Some claims" "oc_RequiredGroup (od_cfg o') \<in> set (ic_Groups claims)"
    "w2 = tick (tick (tick w1))" "oidc_accept E o' c now tok claims w2 = (Inr u, w')"
  using assms
  by (auto simp: OIDC_Complete_def oidc_check_token_def bindR_Inr oidc_now_def clock_Now_def idp_call_def
    split: if_splits option.splits)

text \<open>Conversely, these checks are all there are.\<close>

lemma OIDC_Complete_accepts:
  assumes "st_Take (od_states o') state w = (Inr v, w1)" and "oidc_state_fresh v (e_clock E (w_tick w1))" and "code \<noteq> []"
    and "idp_Exchange (od_idp o') (Suc (w_tick w1)) code (os_Verifier v) = Inr (Some raw)" and "raw \<noteq> []"
    and "idp_Verify (od_idp o') (Suc (Suc (w_tick w1))) raw = Inr tok" and "it_Nonce tok = os_Nonce v"
    and "it_Issuer tok \<noteq> []" and "it_Issuer tok = oc_Issuer (od_cfg o')" and "TrimSpace (it_Subject tok) \<noteq> []"
    and "decodeClaims (od_cfg o') tok = Some claims" and "oc_RequiredGroup (od_cfg o') \<in> set (ic_Groups claims)"
  shows "OIDC_Complete E o' c state code w =
    oidc_accept E o' c (e_clock E (w_tick w1)) tok claims (tick (tick (tick w1)))"
  using assms
  by (simp add: OIDC_Complete_def oidc_check_token_def bindR_def mapE_def oidc_now_def clock_Now_def idp_call_def)

section \<open>A sample login\<close>

definition sample_token :: IDToken where
  "sample_token =
     \<lparr>it_Issuer = ''https://id.example'', it_Subject = ''g1'', it_Nonce = ''non'',
      it_Claims = Some [(''groups'', JArr [JStr ''staff'']), (''preferred_username'', JStr ''grace'')]\<rparr>"

definition sample_idp :: idp where
  "sample_idp =
     \<lparr>idp_NewProvider = (\<lambda>_. Inr ()), idp_AuthCodeURL = (\<lambda>s ps. s), idp_Exchange = (\<lambda>_ _ _. Inr (Some ''jwt'')),
      idp_Verify = (\<lambda>_ _. Inr sample_token)\<rparr>"

definition sample_oidc_cfg :: OIDCConfig where
  "sample_oidc_cfg =
     \<lparr>oc_Issuer = ''https://id.example'', oc_ClientID = ''paste'', oc_ClientSecret = ''s'', oc_RedirectURL = [],
      oc_Scopes = [], oc_RequiredGroup = ''staff'', oc_GroupClaim = ''groups'', oc_AdminGroup = []\<rparr>"

abbreviation sample_flow :: "mem OIDC" where
  "sample_flow \<equiv> live_oidc sample_env
     \<lparr>lc_envelope = sample_envelope, lc_level = LevelInfo, lc_base = [],
      lc_limits = \<lparr>li_MaxSize = 100, li_TTLDefault = 60, li_TTLMin = 1, li_TTLMax = 3600\<rparr>\<rparr> flat sample_oidc_cfg sample_idp"

text \<open>The world after a request was started, with its state in Redis.\<close>

definition started_world :: "mem world" where
  "started_world = sample_world1\<lparr>w_redis := (\<lambda>_. None)(oidcKey ''st'' \<mapsto>
     (RJson (the (marshal_state sample_state)), Some 300000))\<rparr>"

lemma started_take:
  "OIDCStateStore_Take sample_env ''st'' started_world = (Inr sample_state, (tick started_world)\<lparr>w_redis := (\<lambda>_. None)\<rparr>)"
proof -
  have "time_year 0 = 1970" by code_simp
  then have "marshal_state sample_state \<noteq> None" by (simp add: marshal_state_def sample_state_def)
  moreover have "ValidString (os_Verifier sample_state)" "ValidString (os_Nonce sample_state)"
    by (rule ValidString_ascii_chars, simp add: sample_state_def)+
  ultimately have "unmarshal_state (the (marshal_state sample_state)) = Some sample_state"
    using unmarshal_marshal_state by fastforce
  moreover have "validOIDCState ''st'' sample_state"
    by (simp add: validOIDCState_def sample_state_def IsZero_def zero_time_def)
  moreover have "(\<lambda>_. None)(oidcKey ''st'' := None) = (\<lambda>_. None)" by auto
  ultimately show ?thesis
    by (simp add: OIDCStateStore_Take_def bindR_def mapE_def redis_call_def sample_env_def mem_redis_def started_world_def
      sample_world1_def sample_world_def decode_state_def)
qed

lemma sample_claims:
  "decodeClaims sample_oidc_cfg sample_token =
     Some \<lparr>ic_PreferredUsername = ''grace'', ic_Email = [], ic_Name = [], ic_Groups = [''staff'']\<rparr>"
  by (simp add: decodeClaims_def sample_token_def sample_oidc_cfg_def string_claim_def group_claim_def)

lemma started_complete:
  "\<exists>u w'. OIDC_Complete sample_env sample_flow background ''st'' ''code'' started_world = (Inr u, w')"
proof -
  let ?c = "\<lparr>ic_PreferredUsername = ''grace'', ic_Email = [], ic_Name = [], ic_Groups = [''staff'']\<rparr>"
  have trim: "TrimSpace ''grace'' = ''grace''" "TrimSpace ''g1'' = ''g1''"
    by (simp_all add: TrimSpace_visible visible_def)
  have cols: "pg_text ''grace''" "pg_text ''https://id.example''" "pg_text ''g1''"
    by (rule pg_text_ascii, simp)+
  let ?w = "tick (tick (tick ((tick started_world)\<lparr>w_redis := (\<lambda>_. None)\<rparr>)))"
  have "\<exists>v w'. UserStore_UpsertOIDC sample_env (oidc_user sample_oidc_cfg ?c sample_token i) (tick ?w) = (Inr v, w') \<and>
      \<not> us_Disabled v" if "i \<noteq> 7" for i
    using cols that
    by (simp add: UserStore_UpsertOIDC_def mapE_def db_call_def upsert_user_def user_columns_text_def insert_user_def
      started_world_def sample_world1_def sample_world_def sample_env_def nullableString_def tick_def oidc_key_def
      sample_user_def conflicts_def oidc_user_def oidc_username_def trim sample_token_def scanUser_def)
  moreover have "e_uuid_New sample_env (w_tick ?w) \<noteq> 7"
    by (simp add: sample_env_def started_world_def sample_world1_def sample_world_def)
  ultimately obtain v w' where up: "UserStore_UpsertOIDC sample_env
      (oidc_user sample_oidc_cfg ?c sample_token (e_uuid_New sample_env (w_tick ?w))) (tick ?w) = (Inr v, w')" "\<not> us_Disabled v"
    by blast
  let ?t = "e_clock sample_env (w_tick ((tick started_world)\<lparr>w_redis := (\<lambda>_. None)\<rparr>))"
  have "OIDC_Complete sample_env sample_flow background ''st'' ''code'' started_world =
      oidc_accept sample_env sample_flow background ?t sample_token ?c ?w"
  proof (rule OIDC_Complete_accepts)
    show "st_Take (od_states sample_flow) ''st'' started_world = (Inr sample_state, (tick started_world)\<lparr>w_redis := (\<lambda>_. None)\<rparr>)"
      using started_take by (simp add: live_oidc_def NewOIDCStateStore_def)
    have "?t = 1000000" by (simp add: sample_env_def started_world_def sample_world1_def sample_world_def Millisecond_def)
    then show "oidc_state_fresh sample_state ?t"
      by (simp add: oidc_state_fresh_def sample_state_def IsZero_def zero_time_def oidcStateTTL_def time_units)
    show "decodeClaims (od_cfg sample_flow) sample_token = Some ?c" using sample_claims by (simp add: live_oidc_def)
    show "idp_Exchange (od_idp sample_flow) n ''code'' v = Inr (Some ''jwt'')" "idp_Verify (od_idp sample_flow) n r = Inr sample_token" for n v r
      by (simp_all add: live_oidc_def sample_idp_def)
  qed (simp_all add: live_oidc_def sample_oidc_cfg_def sample_token_def sample_state_def trim)
  with up show ?thesis
    by (simp add: oidc_accept_def live_oidc_def NewUserStore_def bindR_def)
qed

section \<open>Properties\<close>

text \<open>
  C35. An OIDC login succeeds only with an authorization state that was taken just then and is less than
  five minutes old, for a token the provider issued for the code and the stored PKCE verifier, that
  verifies, carries the stored nonce, comes from the configured issuer and lists the required group.
  The account is the one of the token's issuer and subject; it is enabled, and is an administrator
  exactly when the token lists the configured administrator group.
\<close>

theorem oidc_login_sound:
  assumes "world_ok E w"
    and "OIDC_Complete E (live_oidc E l collation cfg P) c state code w = (Inr u, w')"
  shows "\<exists>v w1 raw n m tok claims.
    OIDCStateStore_Take E state w = (Inr v, w1) \<and>
    os_CreatedAt v \<le> e_clock E (w_tick w1) \<and> e_clock E (w_tick w1) < os_CreatedAt v + 5 * Minute \<and>
    idp_Exchange P n code (os_Verifier v) = Inr (Some raw) \<and> idp_Verify P m raw = Inr tok \<and>
    it_Nonce tok = os_Nonce v \<and> os_Nonce v \<noteq> [] \<and> it_Issuer tok = oc_Issuer cfg \<and>
    decodeClaims cfg tok = Some claims \<and> oc_RequiredGroup cfg \<in> set (ic_Groups claims) \<and>
    us_OIDCIssuer u = it_Issuer tok \<and> us_OIDCSubject u = it_Subject tok \<and> \<not> us_Disabled u \<and>
    us_IsAdmin u = (oc_AdminGroup cfg \<noteq> [] \<and> oc_AdminGroup cfg \<in> set (ic_Groups claims))"
proof (cases rule: OIDC_Complete_Inr [OF assms(2)])
  case (1 v now w1 w2 raw n m tok claims)
  have take: "OIDCStateStore_Take E state w = (Inr v, w1)"
    using 1(1) by (simp add: live_oidc_def NewOIDCStateStore_def)
  have "world_ok E w2" using Take_world_ok [OF take] assms(1) 1(12) by simp
  note acc = oidc_accept_Inr [OF this 1(13)]
  have fresh: "os_CreatedAt v \<le> e_clock E (w_tick w1)" "e_clock E (w_tick w1) < os_CreatedAt v + 5 * Minute" "os_Nonce v \<noteq> []"
    using 1(2,3) by (auto simp: oidc_state_fresh_def oidcStateTTL_def)
  have cfg: "od_cfg (live_oidc E l collation cfg P) = cfg" "od_idp (live_oidc E l collation cfg P) = P"
    by (simp_all add: live_oidc_def)
  show ?thesis
    using take fresh acc 1(5,7-11) unfolding cfg oidc_is_admin_def by blast
qed


theorem oidc_login_sound_witness:
  "\<exists>u w'. OIDC_Complete sample_env sample_flow background ''st'' ''code'' started_world = (Inr u, w') \<and> \<not> us_IsAdmin u"
proof -
  obtain u w' where c: "OIDC_Complete sample_env sample_flow background ''st'' ''code'' started_world = (Inr u, w')"
    using started_complete by blast
  have "world_ok sample_env started_world"
    using sample_world1_ok(1) by (simp add: started_world_def world_ok_def)
  from oidc_login_sound [OF this c] c show ?thesis
    by (auto simp: sample_oidc_cfg_def)
qed

end
