(* ===== verification/Http.thy ===== *)
theory Http
  imports Sessions RateLimit Oidc Service BodyJson "HOL-Library.AList"
begin

text \<open>
  What the handlers of \<^verbatim>\<open>internal/httpserver\<close> are written against: requests, the response writer, the
  ports of \<^verbatim>\<open>Deps\<close>, and \<^verbatim>\<open>errors.go\<close>. A handler is an operation on a connection, the pair of the
  response writer and the world; its error result is a panic, which only the recoverer stops. Errors of
  the ports are values the handler looks at, obtained with \<open>call\<close>.
\<close>

section \<open>The session and challenge interfaces\<close>

record 's SessionStore =
  sp_Create :: "uuid \<Rightarrow> duration \<Rightarrow> duration \<Rightarrow> ('s, Session) op"
  sp_Get :: "string \<Rightarrow> ('s, Session) op"
  sp_Touch :: "string \<Rightarrow> duration \<Rightarrow> ('s, unit) op"
  sp_Delete :: "string \<Rightarrow> ('s, unit) op"

definition NewSessionStore :: "'r env \<Rightarrow> 'r world SessionStore" where
  "NewSessionStore E =
     \<lparr>sp_Create = SessionStore_Create E, sp_Get = SessionStore_Get E, sp_Touch = SessionStore_Touch E,
      sp_Delete = SessionStore_Delete E\<rparr>"

record 's OIDCFlow =
  of_Start :: "('s, string) op"
  of_Complete :: "ctx \<Rightarrow> string \<Rightarrow> string \<Rightarrow> ('s, User) op"

record Issued =
  is_ID :: string
  is_BackgroundPNG :: bytes
  is_PiecePNG :: bytes
  is_PieceY :: int
  is_Width :: int
  is_Height :: int
  is_ExpiresIn :: duration

text \<open>The challenge is an interface without an implementation in the repository.\<close>

record 's Challenger =
  ch_Issue :: "ctx \<Rightarrow> uuid \<Rightarrow> ('s, Issued) op"
  ch_Verify :: "ctx \<Rightarrow> uuid \<Rightarrow> string \<Rightarrow> int \<Rightarrow> ('s, string) op"
  ch_Consume :: "ctx \<Rightarrow> uuid \<Rightarrow> string \<Rightarrow> ('s, unit) op"

record 's PasteService =
  pv_Create :: "ctx \<Rightarrow> Principal \<Rightarrow> CreateInput \<Rightarrow> ('s, CreateResult) op"
  pv_Read :: "ctx \<Rightarrow> Principal option \<Rightarrow> uuid \<Rightarrow> string \<Rightarrow> ('s, ReadResult) op"
  pv_Verify :: "ctx \<Rightarrow> uuid \<Rightarrow> string \<Rightarrow> ('s, VerifyResult) op"
  pv_Delete :: "ctx \<Rightarrow> Principal \<Rightarrow> uuid \<Rightarrow> ('s, unit) op"
  pv_ListMine :: "Principal \<Rightarrow> Page \<Rightarrow> ('s, PasteMeta list) op"
  pv_ListAll :: "Principal \<Rightarrow> uuid option \<Rightarrow> Page \<Rightarrow> ('s, PasteMeta list) op"

definition NewService :: "'s Deps \<Rightarrow> 's PasteService" where
  "NewService D =
     \<lparr>pv_Create = service_Create D, pv_Read = service_Read D, pv_Verify = service_Verify D,
      pv_Delete = service_Delete D, pv_ListMine = service_ListMine D, pv_ListAll = service_ListAll D\<rparr>"

section \<open>Requests\<close>

record sessionInfo =
  si_Session :: Session
  si_User :: User

text \<open>What the middlewares attach to the context of a request.\<close>

record rctx =
  rx_id :: string
  rx_ip :: string
  rx_info :: ctx
  rx_session :: "sessionInfo option"

text \<open>
  The body is the first JSON value of the text with the number of bytes up to the point where the decoder
  has seen it; the value is \<open>None\<close> when the text is not JSON or contains a number that is not an integer
  literal, which no request of the API may contain. Header names are canonical, \<open>rq_Query\<close> is the parsed query.
\<close>

record request =
  rq_Method :: string
  rq_Path :: string
  rq_EscapedPath :: string
  rq_RawQuery :: string
  rq_Query :: "(string \<times> string) list"
  rq_Header :: "(string \<times> string) list"
  rq_Cookies :: "(string \<times> string) list"
  rq_RemoteAddr :: string
  rq_Body :: "json option \<times> int"
  rq_Limit :: "int option"
  rq_PathValues :: "(string \<times> string) list"
  rq_ctx :: rctx

definition Get :: "(string \<times> string) list \<Rightarrow> string \<Rightarrow> string" where
  "Get kvs k = (case map_of kvs k of None \<Rightarrow> [] | Some v \<Rightarrow> v)"

definition rq_info :: "request \<Rightarrow> ctx" where
  "rq_info r = rx_info (rq_ctx r)"

datatype body_error = BodyTooLarge int | BodyInvalid

text \<open>
  \<^verbatim>\<open>encoding/json\<close> matches member names without regard to case; beyond ASCII, the long s and the Kelvin sign
  fold to letters.
\<close>

fun fold_name :: "string \<Rightarrow> string" where
  "fold_name (a # b # c # s) =
     (if a = CHR 0xC5 \<and> b = CHR 0xBF then CHR ''s'' # fold_name (c # s)
      else if a = CHR 0xE2 \<and> b = CHR 0x84 \<and> c = CHR 0xAA then CHR ''k'' # fold_name s
      else lower_char a # fold_name (b # c # s))"
| "fold_name [a, b] = (if a = CHR 0xC5 \<and> b = CHR 0xBF then ''s'' else [lower_char a, lower_char b])"
| "fold_name [a] = [lower_char a]"
| "fold_name [] = []"

text \<open>\<^verbatim>\<open>decodeJSON\<close> into a struct: unknown members are refused, null and missing members leave the zero value.\<close>

definition over_limit :: "request \<Rightarrow> int option" where
  "over_limit r = (case rq_Limit r of Some n \<Rightarrow> (if n < snd (rq_Body r) then Some n else None) | None \<Rightarrow> None)"

definition decodeJSON :: "request \<Rightarrow> (string \<times> json \<Rightarrow> 'a \<Rightarrow> 'a option) \<Rightarrow> 'a \<Rightarrow> body_error + 'a" where
  "decodeJSON r fld zero =
     (case over_limit r of
        Some n \<Rightarrow> Inl (BodyTooLarge n)
      | None \<Rightarrow>
          (case fst (rq_Body r) of
             Some JNull \<Rightarrow> Inr zero
           | Some (JObj ms) \<Rightarrow> (case members fld ms zero of None \<Rightarrow> Inl BodyInvalid | Some x \<Rightarrow> Inr x)
           | _ \<Rightarrow> Inl BodyInvalid))"

section \<open>The response writer\<close>

record cookie =
  ck_Name :: string
  ck_Value :: string
  ck_Path :: string
  ck_HttpOnly :: bool
  ck_Secure :: bool
  ck_SameSiteStrict :: bool
  ck_Expires :: "gtime option"
  ck_MaxAge :: int

text \<open>\<open>PLink\<close> is the short page of a redirect, \<open>PFile\<close> a file served by the file server.\<close>

datatype payload = PJson json | PBytes bytes | PText string | PLink string | PFile string

text \<open>
  \<open>wr_sent\<close> is what \<^verbatim>\<open>WriteHeader\<close> sent: the status, the headers and the cookies at that moment; a later call
  sends nothing. \<open>wr_status\<close> is the field of \<^verbatim>\<open>statusWriter\<close>.
\<close>

record writer =
  wr_Header :: "(string \<times> string) list"
  wr_Cookies :: "cookie list"
  wr_sent :: "(int \<times> (string \<times> string) list \<times> cookie list) option"
  wr_status :: int
  wr_Body :: "payload list"

definition new_writer :: writer where
  "new_writer = \<lparr>wr_Header = [], wr_Cookies = [], wr_sent = None, wr_status = 200, wr_Body = []\<rparr>"

definition send :: "int \<Rightarrow> writer \<Rightarrow> writer" where
  "send code w =
     (if wr_sent w = None then w\<lparr>wr_sent := Some (code, wr_Header w, wr_Cookies w)\<rparr> else w)"

definition WriteHeader :: "int \<Rightarrow> writer \<Rightarrow> writer" where
  "WriteHeader code w = send code (w\<lparr>wr_status := code\<rparr>)"

definition Write :: "payload \<Rightarrow> writer \<Rightarrow> writer" where
  "Write b w = (let w = send 200 w in w\<lparr>wr_Body := wr_Body w @ [b]\<rparr>)"

definition Header_Set :: "string \<Rightarrow> string \<Rightarrow> writer \<Rightarrow> writer" where
  "Header_Set k v w = w\<lparr>wr_Header := AList.update k v (wr_Header w)\<rparr>"

definition SetCookie :: "cookie \<Rightarrow> writer \<Rightarrow> writer" where
  "SetCookie c w = w\<lparr>wr_Cookies := wr_Cookies w @ [c]\<rparr>"

text \<open>\<^verbatim>\<open>http.Redirect\<close> to an absolute URL or a clean rooted path.\<close>

definition Redirect :: "request \<Rightarrow> string \<Rightarrow> int \<Rightarrow> writer \<Rightarrow> writer" where
  "Redirect r url code w =
     (let ct = (map_of (wr_Header w) ''Content-Type'' \<noteq> None);
          w = Header_Set ''Location'' url w;
          w = (if \<not> ct \<and> rq_Method r \<in> {''GET'', ''HEAD''} then Header_Set ''Content-Type'' ''text/html; charset=utf-8'' w else w);
          w = WriteHeader code w
      in if \<not> ct \<and> rq_Method r = ''GET'' then Write (PLink url) w else w)"

section \<open>Handlers\<close>

record 'r conn =
  cn_w :: writer
  cn_world :: "'r world"

type_synonym 'r handler = "request \<Rightarrow> ('r conn, unit) op"

definition respond :: "(writer \<Rightarrow> writer) \<Rightarrow> ('r conn, unit) op" where
  "respond f c = (Inr (), c\<lparr>cn_w := f (cn_w c)\<rparr>)"

definition effect :: "('r world \<Rightarrow> 'r world) \<Rightarrow> ('r conn, unit) op" where
  "effect f c = (Inr (), c\<lparr>cn_world := f (cn_world c)\<rparr>)"

definition query :: "('r world \<Rightarrow> 'a \<times> 'r world) \<Rightarrow> ('r conn, 'a) op" where
  "query f c = (let (a, w) = f (cn_world c) in (Inr a, c\<lparr>cn_world := w\<rparr>))"

text \<open>A call of a port: an error is a value, a panic unwinds.\<close>

definition call :: "('r world, 'a) op \<Rightarrow> ('r conn, 'a res) op" where
  "call m c =
     (let (a, w) = m (cn_world c); c = c\<lparr>cn_world := w\<rparr>
      in case a of Inl (EPanic s) \<Rightarrow> (Inl (EPanic s), c) | _ \<Rightarrow> (Inr a, c))"

section \<open>The state of the handlers\<close>

record 'r handlers =
  hs_cfg :: Config
  hs_log :: log_level
  hs_pastes :: "'r world PasteService"
  hs_users :: "'r world UserStore"
  hs_sessions :: "'r world SessionStore"
  hs_local :: "(ctx \<Rightarrow> string \<Rightarrow> string \<Rightarrow> ('r world, User) op) option"
  hs_oidc :: "'r world OIDCFlow option"
  hs_chal :: "'r world Challenger option"
  hs_limiter :: "Scope \<Rightarrow> string \<Rightarrow> 'r world \<Rightarrow> Decision \<times> 'r world"
  hs_audit :: "ctx \<Rightarrow> Event \<Rightarrow> 'r world \<Rightarrow> 'r world"
  hs_now :: "'r world \<Rightarrow> gtime \<times> 'r world"
  hs_uuid_String :: "uuid \<Rightarrow> string"
  hs_uuid_Parse :: "string \<Rightarrow> uuid option"

definition inc_metric :: "string \<Rightarrow> ('r conn, unit) op" where
  "inc_metric name = effect (\<lambda>w. w\<lparr>w_metrics := Metrics_Inc name (w_metrics w)\<rparr>)"

definition log_line :: "'r handlers \<Rightarrow> log_level \<Rightarrow> string \<Rightarrow> (string \<times> lval) list \<Rightarrow> ('r conn, unit) op" where
  "log_line h level msg attrs = effect (log_at (hs_log h) level msg attrs)"

section \<open>Errors\<close>

definition writeJSON :: "int \<Rightarrow> json \<Rightarrow> writer \<Rightarrow> writer" where
  "writeJSON status v w =
     Write (PJson v) (WriteHeader status (Header_Set ''Cache-Control'' ''no-store''
       (Header_Set ''Content-Type'' ''application/json; charset=utf-8'' w)))"

text \<open>\<^verbatim>\<open>errorBody\<close>; the details are left out when there are none.\<close>

definition error_body :: "string \<Rightarrow> string \<Rightarrow> (string \<times> json) list \<Rightarrow> json" where
  "error_body code msg details =
     JObj [(''error'', JObj ([(''code'', json_string code), (''message'', json_string msg)] @
       (if details = [] then [] else [(''details'', JObj details)])))]"

definition writeError :: "int \<Rightarrow> string \<Rightarrow> string \<Rightarrow> (string \<times> json) list \<Rightarrow> writer \<Rightarrow> writer" where
  "writeError status code msg details = writeJSON status (error_body code msg details)"

definition mapError :: "goerr \<Rightarrow> int \<times> string \<times> (string \<times> json) list" where
  "mapError err =
     (case as_too_large err of
        Some (limit, actual) \<Rightarrow> (413, ''paste_too_large'', [(''actual_bytes'', JNum actual), (''limit_bytes'', JNum limit)])
      | None \<Rightarrow>
      if errors_Is err ErrNotFound \<or> errors_Is err ErrUserNotFound \<or> errors_Is err ErrChallengeNotFound then (404, ''not_found'', [])
      else if errors_Is err ErrExpired then (410, ''expired'', [])
      else if errors_Is err ErrDeleted then (410, ''deleted'', [])
      else if errors_Is err ErrUnavailable then (410, ''unavailable'', [])
      else if errors_Is err ErrWrongPassword then (401, ''wrong_password'', [])
      else if errors_Is err ErrPasswordRequired then (401, ''password_required'', [])
      else if errors_Is err ErrBadCredentials then (401, ''bad_credentials'', [])
      else if errors_Is err ErrSessionNotFound then (401, ''unauthenticated'', [])
      else if errors_Is err ErrForbidden then (403, ''forbidden'', [])
      else if errors_Is err ErrNotAuthorised \<or> errors_Is err ErrOIDCStateInvalid then (403, ''not_authorised'', [])
      else if errors_Is err ErrChallengeRequired \<or> errors_Is err ErrTokenInvalid then (403, ''challenge_required'', [])
      else if errors_Is err ErrChallengeFailed then (400, ''challenge_failed'', [])
      else if errors_Is err ErrInvalidUTF8 then (400, ''invalid_utf8'', [])
      else if errors_Is err ErrInvalidTTL then (400, ''invalid_ttl'', [])
      else if errors_Is err ErrInvalidPassword then (400, ''invalid_password'', [])
      else if errors_Is err ErrKDFBusy then (503, ''kdf_busy'', [])
      else if errors_Is err ErrKeyUnavailable then (500, ''key_unavailable'', [])
      else (500, ''internal'', []))"

text \<open>
  The text of an error. The text of a service client's error is the client's own; it stands here by the
  name of the service.
\<close>

fun error_text :: "goerr \<Rightarrow> string" where
  "error_text ErrNotFound = ''paste: not found''"
| "error_text ErrExpired = ''paste: expired''"
| "error_text ErrDeleted = ''paste: deleted''"
| "error_text ErrUnavailable = ''paste: body unavailable''"
| "error_text ErrWrongPassword = ''paste: wrong password''"
| "error_text ErrPasswordRequired = ''paste: password required''"
| "error_text ErrForbidden = ''paste: forbidden''"
| "error_text ErrInvalidUTF8 = ''paste: content is not valid UTF-8''"
| "error_text ErrInvalidTTL = ''paste: ttl out of range''"
| "error_text ErrInvalidPassword = ''paste: password must be 1-128 characters''"
| "error_text ErrKDFBusy = ''paste: key derivation busy''"
| "error_text ErrKeyUnavailable = ''paste: master key unavailable''"
| "error_text ErrChallengeRequired = ''paste: challenge required''"
| "error_text (ErrTooLarge limit actual) =
     ''paste: too large ('' @ FormatInt actual @ '' bytes, limit '' @ FormatInt limit @ '')''"
| "error_text ErrUserNotFound = ''auth: user not found''"
| "error_text ErrUserExists = ''auth: user already exists''"
| "error_text ErrBadCredentials = ''auth: bad credentials''"
| "error_text ErrSessionNotFound = ''auth: session not found''"
| "error_text ErrNotAuthorised = ''auth: not authorised''"
| "error_text ErrOIDCStateInvalid = ''auth: oidc state invalid''"
| "error_text ErrChallengeNotFound = ''challenge: not found or expired''"
| "error_text ErrChallengeFailed = ''challenge: wrong position or too fast''"
| "error_text ErrTokenInvalid = ''challenge: token invalid or used''"
| "error_text ErrBusy = ''crypto: kdf gate busy''"
| "error_text Canceled = ''context canceled''"
| "error_text DeadlineExceeded = ''context deadline exceeded''"
| "error_text (EText s) = s"
| "error_text (EService s) = s"
| "error_text (EPg s) = s"
| "error_text (EPanic s) = s"
| "error_text (EWrap p e) = p @ '': '' @ error_text e"

definition fail :: "'r handlers \<Rightarrow> request \<Rightarrow> goerr \<Rightarrow> ('r conn, unit) op" where
  "fail h r err =
     (let (status, code, details) = mapError err;
          msg = (if 500 \<le> status \<and> code = ''internal'' then ''internal error'' else error_text err)
      in bindR (if 500 \<le> status
                then log_line h LevelError ''request failed''
                       [(''code'', LStr code), (''err'', LErr err), (''path'', LStr (rq_Path r))]
                else retR ()) (\<lambda>_.
         bindR (if status = 503 then respond (Header_Set ''Retry-After'' ''2'') else retR ()) (\<lambda>_.
         respond (writeError status code msg details))))"

end
