(* ===== verification/HttpSession.thy ===== *)
theory HttpSession
  imports Http
begin

text \<open>
  \<^verbatim>\<open>internal/httpserver/session.go\<close>, \<^verbatim>\<open>handlers_auth.go\<close> and \<^verbatim>\<open>random.go\<close>: the session of a request, the
  guards, the CSRF check, rate limiting of requests, and the login handlers.
\<close>

section \<open>Sessions of requests\<close>

definition sessionCookie :: string where "sessionCookie = ''pb_sess''"

definition sessionFrom :: "request \<Rightarrow> sessionInfo option" where
  "sessionFrom r = rx_session (rq_ctx r)"

definition principalFrom :: "request \<Rightarrow> Principal option" where
  "principalFrom r = map_option (\<lambda>si. user_Principal (si_User si)) (sessionFrom r)"

text \<open>\<^verbatim>\<open>r.Cookie\<close> and the test for an empty value, which the code always makes together.\<close>

definition presented_cookie :: "request \<Rightarrow> string option" where
  "presented_cookie r =
     (case map_of (rq_Cookies r) sessionCookie of Some v \<Rightarrow> if v = [] then None else Some v | None \<Rightarrow> None)"

definition with_session :: "request \<Rightarrow> sessionInfo \<Rightarrow> request" where
  "with_session r si = r\<lparr>rq_ctx := (rq_ctx r)\<lparr>rx_session := Some si\<rparr>\<rparr>"

definition loadSession :: "'r handlers \<Rightarrow> 'r handler \<Rightarrow> 'r handler" where
  "loadSession h nxt r =
     (case presented_cookie r of
        None \<Rightarrow> nxt r
      | Some v \<Rightarrow>
          bindR (call (sp_Get (hs_sessions h) v)) (\<lambda>got.
            case got of
              Inl err \<Rightarrow>
                bindR (if errors_Is err ErrSessionNotFound then retR ()
                       else log_line h LevelWarn ''session lookup failed'' [(''err'', LErr err)]) (\<lambda>_. nxt r)
            | Inr sess \<Rightarrow>
                bindR (call (up_GetByID (hs_users h) (se_UserID sess))) (\<lambda>found.
                  case found of
                    Inr u \<Rightarrow>
                      (if us_Disabled u then bindR (call (sp_Delete (hs_sessions h) (se_ID sess))) (\<lambda>_. nxt r)
                       else bindR (call (sp_Touch (hs_sessions h) (se_ID sess) (cf_SessionIdleTTL (hs_cfg h)))) (\<lambda>_.
                            nxt (with_session r \<lparr>si_Session = sess, si_User = u\<rparr>)))
                  | Inl _ \<Rightarrow> bindR (call (sp_Delete (hs_sessions h) (se_ID sess))) (\<lambda>_. nxt r))))"

definition requireAuth :: "'r handler \<Rightarrow> 'r handler" where
  "requireAuth nxt r =
     (if sessionFrom r = None then respond (writeError 401 ''unauthenticated'' ''login required'' []) else nxt r)"

definition requireAdmin :: "'r handler \<Rightarrow> 'r handler" where
  "requireAdmin nxt =
     requireAuth (\<lambda>r. case sessionFrom r of
       Some si \<Rightarrow> (if us_IsAdmin (si_User si) then nxt r
                  else respond (writeError 403 ''forbidden'' ''admin required'' []))
     | None \<Rightarrow> respond (writeError 403 ''forbidden'' ''admin required'' []))"

definition csrfExempt :: "string set" where
  "csrfExempt = {''/api/v1/auth/login'', ''/api/v1/auth/oidc/callback''}"

definition csrf :: "'r handler \<Rightarrow> 'r handler" where
  "csrf nxt r =
     (if rq_Method r \<in> {''GET'', ''HEAD'', ''OPTIONS''} then nxt r
      else if \<not> HasPrefix (rq_Path r) ''/api/'' \<or> rq_Path r \<in> csrfExempt then nxt r
      else case sessionFrom r of
             None \<Rightarrow> nxt r
           | Some si \<Rightarrow>
               (let tok = Get (rq_Header r) ''X-Csrf-Token''
                in if tok = [] \<or> tok \<noteq> se_CSRFToken (si_Session si)
                   then respond (writeError 403 ''csrf_invalid'' ''missing or invalid X-CSRF-Token'' [])
                   else nxt r))"

definition secureCookies :: "'r handlers \<Rightarrow> bool" where
  "secureCookies h \<longleftrightarrow> HasPrefix (cf_AppBaseURL (hs_cfg h)) ''https://''"

definition setSessionCookie :: "'r handlers \<Rightarrow> Session \<Rightarrow> writer \<Rightarrow> writer" where
  "setSessionCookie h sess =
     SetCookie \<lparr>ck_Name = sessionCookie, ck_Value = se_ID sess, ck_Path = ''/'', ck_HttpOnly = True,
       ck_Secure = secureCookies h, ck_SameSiteStrict = True, ck_Expires = Some (se_AbsoluteExpiry sess), ck_MaxAge = 0\<rparr>"

definition clearSessionCookie :: "'r handlers \<Rightarrow> writer \<Rightarrow> writer" where
  "clearSessionCookie h =
     SetCookie \<lparr>ck_Name = sessionCookie, ck_Value = [], ck_Path = ''/'', ck_HttpOnly = True,
       ck_Secure = secureCookies h, ck_SameSiteStrict = True, ck_Expires = None, ck_MaxAge = - 1\<rparr>"

section \<open>Rate limiting\<close>

text \<open>\<^verbatim>\<open>int(d.Seconds())\<close>: a sum of two floats, cut off.\<close>

definition whole_seconds :: "duration \<Rightarrow> int" where
  "whole_seconds d =
     (let s = (\<lambda>d. f64_trunc (f64_add (f64_of_int (d div Second))
                 (f64_divide (f64_of_int (d mod Second)) (f64_of_int 1000000000))))
      in if 0 \<le> d then s d else - s (- d))"

definition http_event :: "gtime \<Rightarrow> audit_event \<Rightarrow> uuid option \<Rightarrow> audit_outcome \<Rightarrow> (string \<times> dval) list \<Rightarrow> Event" where
  "http_event now ev actor out details =
     \<lparr>ev_At = now, ev_Event = ev, ev_ActorID = actor, ev_PasteID = None, ev_IP = [], ev_UserAgent = [],
      ev_Outcome = out, ev_Details = details\<rparr>"

definition limit :: "'r handlers \<Rightarrow> request \<Rightarrow> Scope \<Rightarrow> string \<Rightarrow> ('r conn, bool) op" where
  "limit h r scope k =
     bindR (query (hs_limiter h scope k)) (\<lambda>d.
       if de_Allowed d then retR True
       else
         (let secs = max 1 (whole_seconds (de_RetryAfter d))
          in bindR (respond (Header_Set ''Retry-After'' (FormatInt secs))) (\<lambda>_.
             bindR (inc_metric MetricRateLimited) (\<lambda>_.
             bindR (query (hs_now h)) (\<lambda>now.
             bindR (effect (hs_audit h (rq_info r) (http_event now RateLimited (map_option pr_UserID (principalFrom r))
                      OutcomeDenied [(''scope'', DStr (scope_string scope))]))) (\<lambda>_.
             bindR (respond (writeError 429 ''rate_limited'' ''too many requests''
                      [(''retry_after_seconds'', JNum secs)])) (\<lambda>_.
             retR False)))))))"

text \<open>\<^verbatim>\<open>if !h.limit(...) { return }\<close>.\<close>

definition limited :: "'r handlers \<Rightarrow> request \<Rightarrow> Scope \<Rightarrow> string \<Rightarrow> ('r conn, unit) op \<Rightarrow> ('r conn, unit) op" where
  "limited h r scope k nxt = bindR (limit h r scope k) (\<lambda>ok. if ok then nxt else retR ())"

section \<open>Login\<close>

fun provider_string :: "Provider \<Rightarrow> string" where
  "provider_string ProviderLocal = ''local''"
| "provider_string ProviderOIDC = ''oidc''"

definition userJSON :: "'r handlers \<Rightarrow> User \<Rightarrow> json" where
  "userJSON h u =
     JObj [(''display_name'', json_string (us_DisplayName u)), (''id'', json_string (hs_uuid_String h (us_ID u))),
           (''is_admin'', JBool (us_IsAdmin u)), (''provider'', json_string (provider_string (us_Provider u))),
           (''username'', json_string (us_Username u))]"

definition startSession :: "'r handlers \<Rightarrow> request \<Rightarrow> User \<Rightarrow> ('r conn, Session res) op" where
  "startSession h r u =
     bindR (case presented_cookie r of
              Some v \<Rightarrow> bindR (call (sp_Delete (hs_sessions h) v)) (\<lambda>_. retR ())
            | None \<Rightarrow> retR ()) (\<lambda>_.
     bindR (call (sp_Create (hs_sessions h) (us_ID u) (cf_SessionIdleTTL (hs_cfg h)) (cf_SessionAbsoluteTTL (hs_cfg h)))) (\<lambda>made.
       case made of
         Inl err \<Rightarrow> retR (Inl err)
       | Inr sess \<Rightarrow> bindR (respond (setSessionCookie h sess)) (\<lambda>_. retR (Inr sess))))"

definition login_field :: "string \<times> json \<Rightarrow> string \<times> string \<Rightarrow> (string \<times> string) option" where
  "login_field m x =
     (let (name, v) = m; (u, p) = x
      in if fold_name name = ''username'' then map_option (\<lambda>s. (s, p)) (read_string u v)
         else if fold_name name = ''password'' then map_option (\<lambda>s. (u, s)) (read_string p v)
         else None)"

definition session_body :: "'r handlers \<Rightarrow> User \<Rightarrow> Session \<Rightarrow> json" where
  "session_body h u sess = JObj [(''csrf_token'', json_string (se_CSRFToken sess)), (''user'', userJSON h u)]"

definition login :: "'r handlers \<Rightarrow> 'r handler" where
  "login h r =
     (case (hs_local h, LocalEnabled (hs_cfg h)) of
        (Some authenticate, True) \<Rightarrow>
          (case decodeJSON r login_field ([], []) of
             Inl _ \<Rightarrow> respond (writeError 400 ''bad_request'' ''username and password required'' [])
           | Inr (username, password) \<Rightarrow>
               if username = [] \<or> password = []
               then respond (writeError 400 ''bad_request'' ''username and password required'' [])
               else
                 limited h r ScopeLoginIP (rx_ip (rq_ctx r)) (
                 limited h r ScopeLogin username (
                 bindR (call (authenticate (rq_info r) username password)) (\<lambda>res.
                   case res of
                     Inl err \<Rightarrow> fail h r err
                   | Inr u \<Rightarrow>
                       bindR (startSession h r u) (\<lambda>started.
                         case started of
                           Inl err \<Rightarrow> fail h r err
                         | Inr sess \<Rightarrow> respond (writeJSON 200 (session_body h u sess)))))))
      | _ \<Rightarrow> respond (writeError 404 ''not_found'' ''local login disabled'' []))"

text \<open>The handlers behind \<open>requireAuth\<close> take the session it has checked for.\<close>

definition logout :: "'r handlers \<Rightarrow> sessionInfo \<Rightarrow> 'r handler" where
  "logout h si r =
     bindR (call (sp_Delete (hs_sessions h) (se_ID (si_Session si)))) (\<lambda>_.
     bindR (respond (clearSessionCookie h)) (\<lambda>_.
     bindR (query (hs_now h)) (\<lambda>now.
     bindR (effect (hs_audit h (rq_info r) (http_event now Logout (Some (us_ID (si_User si))) OutcomeSuccess []))) (\<lambda>_.
     respond (\<lambda>w. WriteHeader 204 (Header_Set ''Cache-Control'' ''no-store'' w))))))"

definition me :: "'r handlers \<Rightarrow> sessionInfo \<Rightarrow> 'r handler" where
  "me h si r = respond (writeJSON 200 (session_body h (si_User si) (si_Session si)))"

definition oidcStart :: "'r handlers \<Rightarrow> 'r handler" where
  "oidcStart h r =
     (case hs_oidc h of
        None \<Rightarrow> respond (writeError 404 ''not_found'' ''oidc disabled'' [])
      | Some flow \<Rightarrow>
          bindR (call (of_Start flow)) (\<lambda>res.
            case res of
              Inl err \<Rightarrow> fail h r err
            | Inr url \<Rightarrow> respond (\<lambda>w. Redirect r url 302 (Header_Set ''Cache-Control'' ''no-store'' w))))"

definition oidcCallback :: "'r handlers \<Rightarrow> 'r handler" where
  "oidcCallback h r =
     (case hs_oidc h of
        None \<Rightarrow> respond (writeError 404 ''not_found'' ''oidc disabled'' [])
      | Some flow \<Rightarrow>
          (let state = Get (rq_Query r) ''state''; code = Get (rq_Query r) ''code''
           in if state = [] \<or> code = [] then respond (writeError 400 ''bad_request'' ''state and code required'' [])
              else
                bindR (call (of_Complete flow (rq_info r) state code)) (\<lambda>res.
                  case res of
                    Inl err \<Rightarrow>
                      (if errors_Is err ErrNotAuthorised \<or> errors_Is err ErrOIDCStateInvalid then fail h r err
                       else bindR (log_line h LevelWarn ''oidc callback failed'' [(''err'', LErr err)]) (\<lambda>_.
                            respond (writeError 400 ''oidc_failed'' ''login failed'' [])))
                  | Inr u \<Rightarrow>
                      bindR (startSession h r u) (\<lambda>started.
                        case started of
                          Inl err \<Rightarrow> fail h r err
                        | Inr _ \<Rightarrow> respond (\<lambda>w. Redirect r ''/new'' 302 (Header_Set ''Cache-Control'' ''no-store'' w))))))"

text \<open>\<^verbatim>\<open>h.requireAuth(h.f)\<close> for a handler that reads the session.\<close>

definition authed :: "(sessionInfo \<Rightarrow> 'r handler) \<Rightarrow> 'r handler" where
  "authed f = requireAuth (\<lambda>r. case sessionFrom r of Some si \<Rightarrow> f si r | None \<Rightarrow> retR ())"

section \<open>Random request ids\<close>

definition randomToken :: "'r env \<Rightarrow> nat \<Rightarrow> ('r world, string) op" where
  "randomToken E nBytes w =
     (case e_rand E (w_tick w) nBytes of
        None \<Rightarrow> (Inl (EPanic ''crypto/rand failed''), tick w)
      | Some b \<Rightarrow> (Inr (RawURL_Encode b), tick w))"

end
