(* ===== verification/HttpPaste.thy ===== *)
theory HttpPaste
  imports HttpSession
begin

text \<open>
  \<^verbatim>\<open>internal/httpserver/handlers_paste.go\<close>, \<^verbatim>\<open>handlers_challenge.go\<close> and \<^verbatim>\<open>handlers_config.go\<close>.
\<close>

section \<open>JSON of a paste\<close>

definition http_PasteURL :: "'r handlers \<Rightarrow> uuid \<Rightarrow> string" where
  "http_PasteURL h i = TrimRight CHR ''/'' (cf_AppBaseURL (hs_cfg h)) @ ''/pastebin/'' @ hs_uuid_String h i"

text \<open>
  The members in the order of the encoder, by name. The cipher returns no slice for an empty plaintext, so
  \<^verbatim>\<open>content != nil\<close> means a non-empty one.
\<close>

definition pasteJSON :: "'r handlers \<Rightarrow> PasteMeta \<Rightarrow> Status \<Rightarrow> bool \<Rightarrow> bytes option \<Rightarrow> bool \<Rightarrow> (string \<times> json) list" where
  "pasteJSON h m status hashVisible content includeOwner =
     (case content of Some (b # bs) \<Rightarrow> [(''content'', json_string (string_of (b # bs)))] | _ \<Rightarrow> []) @
     [(''created_at'', JStr (Format_RFC3339 (pm_CreatedAt m)))] @
     (case pm_DeletedAt m of Some t \<Rightarrow> [(''deleted_at'', JStr (Format_RFC3339 t))] | None \<Rightarrow> []) @
     [(''expires_at'', JStr (Format_RFC3339 (pm_ExpiresAt m))), (''hash_algo'', json_string (pm_HashAlgo m)),
      (''id'', json_string (hs_uuid_String h (pm_ID m)))] @
     (if includeOwner then [(''owner_id'', json_string (hs_uuid_String h (pm_OwnerID m)))] else []) @
     [(''password_protected'', JBool (pm_PasswordProtected m))] @
     (if hashVisible then [(''sha256'', json_string (pm_ContentHash m))] else []) @
     [(''size_bytes'', JNum (pm_SizeBytes m)), (''status'', JStr (status_string status)),
      (''ttl_seconds'', JNum (pm_TTLSeconds m)), (''url'', json_string (http_PasteURL h (pm_ID m))),
      (''view_count'', JNum (pm_ViewCount m))]"

section \<open>Helpers\<close>

definition with_pathID :: "'r handlers \<Rightarrow> request \<Rightarrow> (uuid \<Rightarrow> ('r conn, unit) op) \<Rightarrow> ('r conn, unit) op" where
  "with_pathID h r k =
     (case hs_uuid_Parse h (Get (rq_PathValues r) ''id'') of
        None \<Rightarrow> respond (writeError 400 ''bad_request'' ''id must be a uuid'' [])
      | Some i \<Rightarrow> k i)"

fun statusErr :: "Status \<Rightarrow> goerr option" where
  "statusErr StatusExpired = Some ErrExpired"
| "statusErr StatusDeleted = Some ErrDeleted"
| "statusErr StatusUnavailable = Some ErrUnavailable"
| "statusErr StatusActive = None"

definition is_hex :: "char \<Rightarrow> bool" where
  "is_hex c \<longleftrightarrow> hexval c \<noteq> None"

definition hexSHA :: "string \<Rightarrow> bool" where
  "hexSHA s \<longleftrightarrow> length s = 64 \<and> list_all is_hex s"

definition string_field :: "string \<Rightarrow> string \<times> json \<Rightarrow> string \<Rightarrow> string option" where
  "string_field name m x = (if fold_name (fst m) = name then read_string x (snd m) else None)"

section \<open>Creating\<close>

definition create_field :: "string \<times> json \<Rightarrow> CreateInput \<times> string \<Rightarrow> (CreateInput \<times> string) option" where
  "create_field m x =
     (let (name, v) = m; (inp, tok) = x; name = fold_name name
      in if name = ''content'' then map_option (\<lambda>s. (inp\<lparr>ci_Content := s\<rparr>, tok)) (read_string (ci_Content inp) v)
         else if name = ''password'' then map_option (\<lambda>s. (inp\<lparr>ci_Password := s\<rparr>, tok)) (read_string (ci_Password inp) v)
         else if name = ''ttl_seconds'' then
           map_option (\<lambda>n. (inp\<lparr>ci_TTLSeconds := n\<rparr>, tok)) (read_int (ci_TTLSeconds inp) (- (2 ^ 63)) (2 ^ 63 - 1) v)
         else if name = ''challenge_token'' then map_option (\<lambda>s. (inp, s)) (read_string tok v)
         else None)"

definition create_zero :: "CreateInput \<times> string" where
  "create_zero = (\<lparr>ci_Content = [], ci_Password = [], ci_TTLSeconds = 0\<rparr>, [])"

definition create_checked :: "'r handlers \<Rightarrow> sessionInfo \<Rightarrow> request \<Rightarrow> CreateInput \<Rightarrow> ('r conn, unit) op" where
  "create_checked h si r inp =
     bindR (call (pv_Create (hs_pastes h) (rq_info r) (user_Principal (si_User si)) inp)) (\<lambda>res.
       case res of
         Inl err \<Rightarrow> fail h r err
       | Inr cr \<Rightarrow> bindR (inc_metric MetricPastesCreated) (\<lambda>_.
                  respond (writeJSON 201 (JObj (pasteJSON h (cr_Meta cr) StatusActive True None False)))))"

definition createPaste :: "'r handlers \<Rightarrow> sessionInfo \<Rightarrow> 'r handler" where
  "createPaste h si r =
     (case decodeJSON r create_field create_zero of
        Inl (BodyTooLarge n) \<Rightarrow>
          respond (writeError 413 ''request_too_large'' ''request body too large'' [(''limit_bytes'', JNum n)])
      | Inl BodyInvalid \<Rightarrow> respond (writeError 400 ''bad_request'' ''invalid json body'' [])
      | Inr (inp, tok) \<Rightarrow>
          limited h r ScopePasteCreate (hs_uuid_String h (us_ID (si_User si))) (
          case hs_chal h of
            None \<Rightarrow> create_checked h si r inp
          | Some chal \<Rightarrow>
              bindR (call (ch_Consume chal (rq_info r) (us_ID (si_User si)) tok)) (\<lambda>used.
                case used of
                  Inl _ \<Rightarrow> fail h r ErrChallengeRequired
                | Inr _ \<Rightarrow> create_checked h si r inp)))"

section \<open>Reading\<close>

definition getPaste :: "'r handlers \<Rightarrow> 'r handler" where
  "getPaste h r =
     with_pathID h r (\<lambda>i.
     bindR (call (pv_Read (hs_pastes h) (rq_info r) (principalFrom r) i [])) (\<lambda>res.
       case res of
         Inl err \<Rightarrow> fail h r err
       | Inr rr \<Rightarrow>
           respond (writeJSON 200 (JObj (pasteJSON h (rr_Meta rr) (rr_Status rr) (rr_HashVisible rr) (rr_Content rr) False)))))"

definition writeRaw :: "'r handlers \<Rightarrow> uuid \<Rightarrow> bytes option \<Rightarrow> writer \<Rightarrow> writer" where
  "writeRaw h i content w =
     Write (PBytes (case content of Some b \<Rightarrow> b | None \<Rightarrow> [])) (WriteHeader 200
       (Header_Set ''Cache-Control'' ''no-store''
       (Header_Set ''Content-Disposition'' (''attachment; filename='' @ [CHR 0x22] @ hs_uuid_String h i @ ''.txt'' @ [CHR 0x22])
       (Header_Set ''Content-Type'' ''text/plain; charset=utf-8'' w))))"

definition unlock_read :: "'r handlers \<Rightarrow> request \<Rightarrow> uuid \<Rightarrow> string \<Rightarrow> ('r conn, unit) op" where
  "unlock_read h r i password =
     bindR (call (pv_Read (hs_pastes h) (rq_info r) (principalFrom r) i password)) (\<lambda>res.
       case res of
         Inl err \<Rightarrow>
           bindR (if errors_Is err ErrWrongPassword then inc_metric MetricUnlockFailures else retR ()) (\<lambda>_. fail h r err)
       | Inr rr \<Rightarrow>
           (case statusErr (rr_Status rr) of
              Some e \<Rightarrow> fail h r e
            | None \<Rightarrow>
                if HasPrefix (Get (rq_Header r) ''Accept'') ''text/plain'' then respond (writeRaw h i (rr_Content rr))
                else respond (writeJSON 200 (JObj (pasteJSON h (rr_Meta rr) (rr_Status rr) True (rr_Content rr) False)))))"

definition unlockPaste :: "'r handlers \<Rightarrow> 'r handler" where
  "unlockPaste h r =
     with_pathID h r (\<lambda>i.
     limited h r ScopeUnlockIP (rx_ip (rq_ctx r)) (
     limited h r ScopeUnlock (hs_uuid_String h i @ '':'' @ rx_ip (rq_ctx r)) (
       case decodeJSON r (string_field ''password'') [] of
         Inl _ \<Rightarrow> respond (writeError 400 ''bad_request'' ''password required'' [])
       | Inr password \<Rightarrow>
           if password = [] then respond (writeError 400 ''bad_request'' ''password required'' [])
           else unlock_read h r i password)))"

definition rawPaste :: "'r handlers \<Rightarrow> 'r handler" where
  "rawPaste h r =
     with_pathID h r (\<lambda>i.
     bindR (call (pv_Read (hs_pastes h) (rq_info r) (principalFrom r) i [])) (\<lambda>res.
       case res of
         Inl err \<Rightarrow> fail h r err
       | Inr rr \<Rightarrow>
           (case statusErr (rr_Status rr) of
              Some e \<Rightarrow> fail h r e
            | None \<Rightarrow>
                if pm_PasswordProtected (rr_Meta rr) then fail h r ErrPasswordRequired
                else respond (writeRaw h i (rr_Content rr)))))"

definition verifyPaste :: "'r handlers \<Rightarrow> 'r handler" where
  "verifyPaste h r =
     with_pathID h r (\<lambda>i.
     limited h r ScopeVerifyGlobal ''global'' (
     limited h r ScopeVerify (rx_ip (rq_ctx r)) (
       case decodeJSON r (string_field ''sha256'') [] of
         Inl _ \<Rightarrow> respond (writeError 400 ''bad_request'' ''sha256 must be 64 hex characters'' [])
       | Inr sha \<Rightarrow>
           if \<not> hexSHA sha then respond (writeError 400 ''bad_request'' ''sha256 must be 64 hex characters'' [])
           else
             bindR (call (pv_Verify (hs_pastes h) (rq_info r) i sha)) (\<lambda>res.
               case res of
                 Inl err \<Rightarrow> fail h r err
               | Inr v \<Rightarrow>
                   respond (writeJSON 200 (JObj [(''created_at'', JStr (Format_RFC3339 (pm_CreatedAt (vr_Meta v)))),
                     (''expires_at'', JStr (Format_RFC3339 (pm_ExpiresAt (vr_Meta v)))), (''match'', JBool (vr_Match v)),
                     (''size_bytes'', JNum (pm_SizeBytes (vr_Meta v))), (''status'', JStr (status_string (vr_Status v)))]))))))"

definition deletePaste :: "'r handlers \<Rightarrow> sessionInfo \<Rightarrow> 'r handler" where
  "deletePaste h si r =
     with_pathID h r (\<lambda>i.
     limited h r ScopeDelete (hs_uuid_String h (us_ID (si_User si))) (
     bindR (call (pv_Delete (hs_pastes h) (rq_info r) (user_Principal (si_User si)) i)) (\<lambda>res.
       case res of
         Inl err \<Rightarrow> fail h r err
       | Inr _ \<Rightarrow> respond (\<lambda>w. WriteHeader 204 (Header_Set ''Cache-Control'' ''no-store'' w)))))"

section \<open>Lists\<close>

text \<open>\<^verbatim>\<open>strconv.Atoi\<close> with its error ignored: zero for bad syntax, the nearest \<^verbatim>\<open>int\<close> for a number out of range;
  the scan stops where the number leaves the range of \<^verbatim>\<open>uint64\<close>.\<close>

fun atoi_digits :: "nat \<Rightarrow> string \<Rightarrow> nat option" where
  "atoi_digits acc [] = Some acc"
| "atoi_digits acc (c # cs) =
     (case char_digit c of
        None \<Rightarrow> None
      | Some d \<Rightarrow> if 2 ^ 64 \<le> acc * 10 + d then Some (2 ^ 64 - 1) else atoi_digits (acc * 10 + d) cs)"

definition Atoi_value :: "string \<Rightarrow> int" where
  "Atoi_value s =
     (let neg = (s \<noteq> [] \<and> hd s = CHR ''-'');
          ds = (if s \<noteq> [] \<and> (hd s = CHR ''-'' \<or> hd s = CHR ''+'') then tl s else s)
      in if ds = [] then 0
         else case atoi_digits 0 ds of
                None \<Rightarrow> 0
              | Some n \<Rightarrow> (if neg then max (- (2 ^ 63)) (- int n) else min (2 ^ 63 - 1) (int n)))"

definition pageFrom :: "request \<Rightarrow> Page" where
  "pageFrom r =
     (let l = Atoi_value (Get (rq_Query r) ''limit''); off = Atoi_value (Get (rq_Query r) ''offset'')
      in \<lparr>pg_Limit = (if l \<le> 0 \<or> 200 < l then 50 else l), pg_Offset = (if off < 0 then 0 else off)\<rparr>)"

definition writeList :: "'r handlers \<Rightarrow> PasteMeta list \<Rightarrow> ('r conn, unit) op" where
  "writeList h items =
     bindR (query (hs_now h)) (\<lambda>now.
     respond (writeJSON 200 (JObj [(''items'', JArr (map (\<lambda>m.
       JObj (pasteJSON h m (meta_Status m now) (\<not> pm_PasswordProtected m) None True)) items))])))"

definition listMine :: "'r handlers \<Rightarrow> sessionInfo \<Rightarrow> 'r handler" where
  "listMine h si r =
     bindR (call (pv_ListMine (hs_pastes h) (user_Principal (si_User si)) (pageFrom r))) (\<lambda>res.
       case res of Inl err \<Rightarrow> fail h r err | Inr items \<Rightarrow> writeList h items)"

definition admin_page :: "'r handlers \<Rightarrow> sessionInfo \<Rightarrow> request \<Rightarrow> uuid option \<Rightarrow> ('r conn, unit) op" where
  "admin_page h si r own =
     bindR (call (pv_ListAll (hs_pastes h) (user_Principal (si_User si)) own (pageFrom r))) (\<lambda>res.
       case res of Inl err \<Rightarrow> fail h r err | Inr items \<Rightarrow> writeList h items)"

definition adminList :: "'r handlers \<Rightarrow> sessionInfo \<Rightarrow> 'r handler" where
  "adminList h si r =
     (let own = Get (rq_Query r) ''owner''
      in if own = [] then admin_page h si r None
         else case hs_uuid_Parse h own of
                None \<Rightarrow> respond (writeError 400 ''bad_request'' ''owner must be a uuid'' [])
              | Some i \<Rightarrow> admin_page h si r (Some i))"

section \<open>Challenges and the public configuration\<close>

definition issueChallenge :: "'r handlers \<Rightarrow> sessionInfo \<Rightarrow> 'r handler" where
  "issueChallenge h si r =
     (case hs_chal h of
        None \<Rightarrow> respond (writeError 404 ''not_found'' ''challenge disabled'' [])
      | Some chal \<Rightarrow>
          limited h r ScopeChallengeIssue (hs_uuid_String h (us_ID (si_User si))) (
          bindR (call (ch_Issue chal (rq_info r) (us_ID (si_User si)))) (\<lambda>res.
            case res of
              Inl err \<Rightarrow> fail h r err
            | Inr iss \<Rightarrow>
                respond (writeJSON 201 (JObj [(''background_png_b64'', json_bytes (is_BackgroundPNG iss)),
                  (''challenge_id'', json_string (is_ID iss)), (''expires_in'', JNum (whole_seconds (is_ExpiresIn iss))),
                  (''height'', JNum (is_Height iss)), (''piece_png_b64'', json_bytes (is_PiecePNG iss)),
                  (''piece_y'', JNum (is_PieceY iss)), (''width'', JNum (is_Width iss))])))))"

definition x_field :: "string \<times> json \<Rightarrow> int \<Rightarrow> int option" where
  "x_field m x = (if fold_name (fst m) = ''x'' then read_int x (- (2 ^ 63)) (2 ^ 63 - 1) (snd m) else None)"

definition verifyChallenge :: "'r handlers \<Rightarrow> sessionInfo \<Rightarrow> 'r handler" where
  "verifyChallenge h si r =
     (case hs_chal h of
        None \<Rightarrow> respond (writeError 404 ''not_found'' ''challenge disabled'' [])
      | Some chal \<Rightarrow>
          (case decodeJSON r x_field 0 of
             Inl _ \<Rightarrow> respond (writeError 400 ''bad_request'' ''x required'' [])
           | Inr x \<Rightarrow>
               bindR (call (ch_Verify chal (rq_info r) (us_ID (si_User si)) (Get (rq_PathValues r) ''id'') x)) (\<lambda>res.
                 case res of
                   Inl err \<Rightarrow>
                     bindR (if errors_Is err ErrChallengeFailed then inc_metric MetricChallengeFailed else retR ()) (\<lambda>_.
                     fail h r err)
                 | Inr tok \<Rightarrow>
                     bindR (inc_metric MetricChallengePassed) (\<lambda>_.
                     respond (writeJSON 200 (JObj [(''challenge_token'', json_string tok),
                       (''expires_in'', JNum (whole_seconds (cc_TTL (cf_Challenge (hs_cfg h)))))]))))))"

definition getConfig :: "'r handlers \<Rightarrow> 'r handler" where
  "getConfig h r =
     (let cfg = hs_cfg h;
          modes = (if LocalEnabled cfg \<and> hs_local h \<noteq> None then [''local''] else []) @
                  (if OIDCEnabled cfg \<and> hs_oidc h \<noteq> None then [''oidc''] else [])
      in respond (writeJSON 200 (JObj [(''auth_modes'', JArr (map JStr modes)), (''challenge_enabled'', JBool (hs_chal h \<noteq> None)),
           (''paste_max_size_bytes'', JNum (cf_PasteMaxSize cfg)), (''ttl_default'', JNum (cf_PasteTTLDefault cfg)),
           (''ttl_min'', JNum (cf_PasteTTLMin cfg)), (''ttl_max'', JNum (cf_PasteTTLMax cfg)),
           (''view_requires_auth'', JBool (cf_ViewRequiresAuth cfg)), (''notice_text'', json_string (cf_NoticeText cfg))])))"

definition viewGate :: "'r handlers \<Rightarrow> 'r handler \<Rightarrow> 'r handler" where
  "viewGate h nxt = (if cf_ViewRequiresAuth (hs_cfg h) then requireAuth nxt else nxt)"

end
