(* ===== verification/Router.thy ===== *)
theory Router
  imports HttpPaste
begin

text \<open>
  \<^verbatim>\<open>internal/httpserver/middleware.go\<close>, \<^verbatim>\<open>router.go\<close>, \<^verbatim>\<open>health.go\<close> and \<^verbatim>\<open>static.go\<close>, with the parts of the
  standard library they rest on: the address of a connection, cleaning of paths, and the request
  multiplexer. The status of the multiplexer's own redirects and the text of their location differ between
  library versions and are the parameter \<open>mux_lib\<close>.
\<close>

section \<open>Addresses and paths\<close>

text \<open>The host of \<^verbatim>\<open>net.SplitHostPort\<close>.\<close>

definition SplitHostPort :: "string \<Rightarrow> string option" where
  "SplitHostPort s =
     (let i = length s - 1 - length (takeWhile (\<lambda>c. c \<noteq> CHR '':'') (rev s))
      in if CHR '':'' \<notin> set s then None
         else if hd s = CHR ''['' then
           (let e = length (takeWhile (\<lambda>c. c \<noteq> CHR '']'') s)
            in if CHR '']'' \<notin> set s \<or> Suc e \<noteq> i \<or> CHR ''['' \<in> set (tl s) \<or> CHR '']'' \<in> set (drop (Suc e) s) then None
               else Some (take (e - 1) (tl s)))
         else if CHR '':'' \<in> set (take i s) \<or> CHR ''['' \<in> set s \<or> CHR '']'' \<in> set s then None
         else Some (take i s))"

text \<open>\<^verbatim>\<open>path.Clean\<close> of a rooted path, and the cleaning of the multiplexer, which keeps a trailing slash.\<close>

fun clean_segments :: "string list \<Rightarrow> string list \<Rightarrow> string list" where
  "clean_segments acc [] = rev acc"
| "clean_segments acc (s # ss) =
     (if s = [] \<or> s = ''.'' then clean_segments acc ss
      else if s = ''..'' then clean_segments (tl acc) ss
      else clean_segments (s # acc) ss)"

definition path_Clean :: "string \<Rightarrow> string" where
  "path_Clean p =
     (case clean_segments [] (Split CHR ''/'' p) of [] \<Rightarrow> ''/'' | ss \<Rightarrow> concat (map (\<lambda>s. CHR ''/'' # s) ss))"

definition cleanPath :: "string \<Rightarrow> string" where
  "cleanPath p =
     (let p = (if p = [] \<or> hd p \<noteq> CHR ''/'' then CHR ''/'' # p else p); np = path_Clean p
      in if last p = CHR ''/'' \<and> np \<noteq> ''/'' then np @ ''/'' else np)"

text \<open>Percent-decoding of one segment; a bad escape leaves the segment as it is.\<close>

fun unescape_loop :: "string \<Rightarrow> string option" where
  "unescape_loop [] = Some []"
| "unescape_loop (c # s) =
     (if c \<noteq> CHR 0x25 then map_option (\<lambda>r. c # r) (unescape_loop s)
      else case s of
             a # b # r \<Rightarrow>
               (case (hexval a, hexval b, unescape_loop r) of
                  (Some x, Some y, Some t) \<Rightarrow> Some (char_of (16 * x + y) # t)
                | _ \<Rightarrow> None)
           | _ \<Rightarrow> None)"

definition pathUnescape :: "string \<Rightarrow> string" where
  "pathUnescape s = (case unescape_loop s of None \<Rightarrow> s | Some t \<Rightarrow> t)"

text \<open>The segments the multiplexer matches; a trailing slash is the segment \<^verbatim>\<open>/\<close>.\<close>

function path_segments :: "string \<Rightarrow> string list" where
  "path_segments p =
     (if p = [] then []
      else if p = ''/'' then [''/'']
      else pathUnescape (takeWhile (\<lambda>c. c \<noteq> CHR ''/'') (tl p)) # path_segments (dropWhile (\<lambda>c. c \<noteq> CHR ''/'') (tl p)))"
  by pat_completeness auto
termination
proof (relation "measure length", goal_cases)
  case (2 p)
  then show ?case using length_dropWhile_le [of "\<lambda>c. c \<noteq> CHR ''/''" "tl p"] by (cases p) auto
qed simp

declare path_segments.simps [simp del]

section \<open>Middlewares\<close>

type_synonym 'r middleware = "'r handler \<Rightarrow> 'r handler"

definition chain :: "'r handler \<Rightarrow> 'r middleware list \<Rightarrow> 'r handler" where
  "chain h ms = foldr (\<lambda>m h. m h) ms h"

definition recoverer :: "log_level \<Rightarrow> 'r middleware" where
  "recoverer log nxt r c =
     (case nxt r c of
        (Inr _, c) \<Rightarrow> (Inr (), c)
      | (Inl err, c) \<Rightarrow>
          (let c = c\<lparr>cn_world := log_at log LevelError ''panic''
                     [(''panic'', LErr err), (''path'', LStr (rq_Path r)), (''request_id'', LStr (rx_id (rq_ctx r)))] (cn_world c)\<rparr>
           in respond (writeError 500 ''internal'' ''internal error'' []) c))"

text \<open>A call whose error is a panic.\<close>

definition must :: "('r world, 'a) op \<Rightarrow> ('r conn, 'a) op" where
  "must m c = (let (a, w) = m (cn_world c) in (a, c\<lparr>cn_world := w\<rparr>))"

definition requestID :: "'r env \<Rightarrow> 'r middleware" where
  "requestID E nxt r =
     bindR (must (randomToken E 12)) (\<lambda>i.
     bindR (respond (Header_Set ''X-Request-Id'' i)) (\<lambda>_.
     nxt (r\<lparr>rq_ctx := (rq_ctx r)\<lparr>rx_id := i\<rparr>\<rparr>)))"

definition remote_host :: "request \<Rightarrow> string" where
  "remote_host r = (case SplitHostPort (rq_RemoteAddr r) of None \<Rightarrow> rq_RemoteAddr r | Some host \<Rightarrow> host)"

definition caller_ip :: "Prefix list \<Rightarrow> request \<Rightarrow> string" where
  "caller_ip trusted r =
     (let host = remote_host r
      in case ParseAddr host of
           None \<Rightarrow> host
         | Some peer \<Rightarrow>
             if list_ex (\<lambda>p. Contains p peer) trusted then
               (let xff = Get (rq_Header r) ''X-Forwarded-For'';
                    lst = TrimSpace (last (Split CHR '','' xff))
                in if xff \<noteq> [] \<and> lst \<noteq> [] then lst else host)
             else host)"

definition clientIP :: "Prefix list \<Rightarrow> 'r middleware" where
  "clientIP trusted nxt r =
     (let ip = caller_ip trusted r
      in nxt (r\<lparr>rq_ctx := (rq_ctx r)\<lparr>rx_ip := ip,
           rx_info := WithRequestInfo (rx_info (rq_ctx r)) ip (Get (rq_Header r) ''User-Agent'')\<rparr>\<rparr>))"

definition csp :: string where
  "csp = ''default-src 'self'; script-src 'self'; style-src 'self'; img-src 'self' data:; connect-src 'self'; '' @
     ''object-src 'none'; frame-ancestors 'none'; base-uri 'none'; form-action 'self'' @ [CHR 0x27]"

definition security_headers :: "bool \<Rightarrow> (string \<times> string) list" where
  "security_headers hsts =
     [(''X-Content-Type-Options'', ''nosniff''), (''Referrer-Policy'', ''no-referrer''), (''X-Frame-Options'', ''DENY''),
      (''Permissions-Policy'', ''camera=(), microphone=(), geolocation=()''), (''Content-Security-Policy'', csp)] @
     (if hsts then [(''Strict-Transport-Security'', ''max-age=31536000'')] else [])"

definition securityHeaders :: "bool \<Rightarrow> 'r middleware" where
  "securityHeaders hsts nxt r =
     bindR (respond (fold (\<lambda>(k, v). Header_Set k v) (security_headers hsts))) (\<lambda>_. nxt r)"

definition httpMetrics :: "'r middleware" where
  "httpMetrics nxt r =
     bindR (nxt r) (\<lambda>_ c.
       (Inr (), c\<lparr>cn_world := (cn_world c)\<lparr>w_metrics := Metrics_IncHTTP (wr_status (cn_w c)) (w_metrics (cn_world c))\<rparr>\<rparr>))"

definition accessLog :: "'r env \<Rightarrow> log_level \<Rightarrow> 'r middleware" where
  "accessLog E log nxt r =
     bindR (query (clock_Now E)) (\<lambda>start.
     bindR (nxt r) (\<lambda>_.
     bindR (query (clock_Now E)) (\<lambda>fin c.
       (Inr (), c\<lparr>cn_world := log_at log LevelInfo ''http''
         [(''method'', LStr (rq_Method r)), (''path'', LStr (rq_Path r)), (''status'', LInt (wr_status (cn_w c))),
          (''ms'', LInt (Milliseconds (time_Sub fin start))), (''ip'', LStr (rx_ip (rq_ctx r))),
          (''request_id'', LStr (rx_id (rq_ctx r)))] (cn_world c)\<rparr>))))"

definition maxBody :: "int \<Rightarrow> 'r middleware" where
  "maxBody n nxt r = nxt (r\<lparr>rq_Limit := Some n\<rparr>)"

section \<open>Health and the single-page application\<close>

definition HealthHandler :: "'r handler" where
  "HealthHandler r =
     respond (\<lambda>w. Write (PJson (JObj [(''status'', JStr ''ok'')]))
       (Header_Set ''Cache-Control'' ''no-store'' (Header_Set ''Content-Type'' ''application/json; charset=utf-8'' w)))"

fun run_checks :: "(string \<times> ('r world, unit) op) list \<Rightarrow> 'r world \<Rightarrow> (string \<times> string) list \<times> bool \<times> 'r world" where
  "run_checks [] w = ([], True, w)"
| "run_checks ((name, f) # checks) w =
     (let (a, w) = f w; (res, ok, w) = run_checks checks w
      in case a of Inl err \<Rightarrow> ((name, error_text err) # res, False, w) | Inr _ \<Rightarrow> ((name, ''ok'') # res, ok, w))"

text \<open>Go visits a map in any order: the list of checks is one of them.\<close>

definition ReadyHandler :: "(string \<times> ('r world, unit) op) list \<Rightarrow> 'r handler" where
  "ReadyHandler checks r c =
     (let (res, ok, w) = run_checks checks (cn_world c)
      in respond (\<lambda>wr.
           let wr = Header_Set ''Cache-Control'' ''no-store'' (Header_Set ''Content-Type'' ''application/json; charset=utf-8'' wr)
           in Write (PJson (JObj (map (\<lambda>(n, s). (n, json_string s)) (sort_names res))))
                (if ok then wr else WriteHeader 503 wr)) (c\<lparr>cn_world := w\<rparr>))"

definition http_Error :: "string \<Rightarrow> int \<Rightarrow> writer \<Rightarrow> writer" where
  "http_Error msg code w =
     Write (PText (msg @ [CHR 0x0A])) (WriteHeader code (Header_Set ''X-Content-Type-Options'' ''nosniff''
       (Header_Set ''Content-Type'' ''text/plain; charset=utf-8'' w)))"

text \<open>
  \<open>static\<close> is the file system: the regular files with their contents. \<open>PFile\<close> is what the library's file
  server answers for a path (ranges and conditional requests included).
\<close>

definition spaHandler :: "(string \<Rightarrow> bytes option) \<Rightarrow> 'r handler" where
  "spaHandler static r =
     (if rq_Method r \<noteq> ''GET'' \<and> rq_Method r \<noteq> ''HEAD'' then respond (http_Error ''method not allowed'' 405)
      else
        (let clean = path_Clean (CHR ''/'' # rq_Path r); name = tl clean
         in if name \<noteq> [] \<and> name \<noteq> ''index.html'' \<and> static name \<noteq> None
            then respond (\<lambda>w. Write (PFile clean)
                   (Header_Set ''Cache-Control'' (if HasPrefix name ''assets/'' then ''public, max-age=31536000, immutable'' else ''no-store'') w))
            else case static ''index.html'' of
                   None \<Rightarrow> respond (http_Error ''ui not built'' 404)
                 | Some b \<Rightarrow> respond (\<lambda>w. Write (PBytes b) (Header_Set ''Cache-Control'' ''no-store''
                              (Header_Set ''Content-Type'' ''text/html; charset=utf-8'' w)))))"

section \<open>The routes\<close>

datatype segment = Lit string | Wild string

fun match_segments :: "segment list \<Rightarrow> string list \<Rightarrow> (string \<times> string) list option" where
  "match_segments [] [] = Some []"
| "match_segments (Lit l # ps) (s # ss) = (if l = s then match_segments ps ss else None)"
| "match_segments (Wild x # ps) (s # ss) = (if s = ''/'' then None else map_option (Cons (x, s)) (match_segments ps ss))"
| "match_segments _ _ = None"

text \<open>A pattern for \<^verbatim>\<open>GET\<close> also serves \<^verbatim>\<open>HEAD\<close>.\<close>

definition method_matches :: "string \<Rightarrow> string \<Rightarrow> bool" where
  "method_matches pat m \<longleftrightarrow> m = pat \<or> (pat = ''GET'' \<and> m = ''HEAD'')"

type_synonym 'r route = "string \<times> segment list \<times> 'r handler"

definition smallBody :: int where "smallBody = 65536"

definition small :: "'r handler \<Rightarrow> 'r handler" where
  "small f = chain f [maxBody smallBody]"

definition admined :: "(sessionInfo \<Rightarrow> 'r handler) \<Rightarrow> 'r handler" where
  "admined f = requireAdmin (\<lambda>r. case sessionFrom r of Some si \<Rightarrow> f si r | None \<Rightarrow> retR ())"

abbreviation api_path :: "segment list \<Rightarrow> segment list" where
  "api_path ps \<equiv> Lit ''api'' # Lit ''v1'' # ps"

definition api_routes :: "'r handlers \<Rightarrow> 'r route list" where
  "api_routes h =
     [(''GET'', api_path [Lit ''config''], small (getConfig h)),
      (''POST'', api_path [Lit ''auth'', Lit ''login''], small (login h)),
      (''POST'', api_path [Lit ''auth'', Lit ''logout''], small (authed (logout h))),
      (''GET'', api_path [Lit ''auth'', Lit ''me''], small (authed (me h))),
      (''GET'', api_path [Lit ''auth'', Lit ''oidc'', Lit ''start''], small (oidcStart h)),
      (''GET'', api_path [Lit ''auth'', Lit ''oidc'', Lit ''callback''], small (oidcCallback h)),
      (''POST'', api_path [Lit ''challenges''], small (authed (issueChallenge h))),
      (''POST'', api_path [Lit ''challenges'', Wild ''id'', Lit ''verify''], small (authed (verifyChallenge h))),
      (''POST'', api_path [Lit ''pastes''],
         chain (authed (createPaste h)) [maxBody (wrap64 (6 * cf_PasteMaxSize (hs_cfg h) + smallBody))]),
      (''GET'', api_path [Lit ''pastes'', Wild ''id''], small (viewGate h (getPaste h))),
      (''DELETE'', api_path [Lit ''pastes'', Wild ''id''], small (authed (deletePaste h))),
      (''POST'', api_path [Lit ''pastes'', Wild ''id'', Lit ''unlock''], small (viewGate h (unlockPaste h))),
      (''GET'', api_path [Lit ''pastes'', Wild ''id'', Lit ''raw''], small (viewGate h (rawPaste h))),
      (''POST'', api_path [Lit ''pastes'', Wild ''id'', Lit ''verify''], small (viewGate h (verifyPaste h))),
      (''GET'', api_path [Lit ''me'', Lit ''pastes''], small (authed (listMine h))),
      (''GET'', api_path [Lit ''admin'', Lit ''pastes''], small (admined (adminList h)))]"

fun find_route :: "'r route list \<Rightarrow> string \<Rightarrow> string list \<Rightarrow> ((string \<times> string) list \<times> 'r handler) option" where
  "find_route [] m ss = None"
| "find_route ((pat, ps, f) # rs) m ss =
     (if method_matches pat m
      then (case match_segments ps ss of Some vs \<Rightarrow> Some (vs, f) | None \<Rightarrow> find_route rs m ss)
      else find_route rs m ss)"

text \<open>
  The patterns exclude one another except for the catch-all \<^verbatim>\<open>/api/\<close>, which matches last.
\<close>

definition mux_path :: "request \<Rightarrow> string" where
  "mux_path r = (if rq_Method r = ''CONNECT'' then rq_EscapedPath r else cleanPath (rq_EscapedPath r))"

definition api_mux :: "'r handlers \<Rightarrow> 'r handler" where
  "api_mux h r =
     (case find_route (api_routes h) (rq_Method r) (path_segments (mux_path r)) of
        Some (vs, f) \<Rightarrow> f (r\<lparr>rq_PathValues := vs\<rparr>)
      | None \<Rightarrow> respond (writeError 404 ''not_found'' ''no such endpoint'' []))"

record mux_lib =
  mx_code :: int
  mx_location :: "string \<Rightarrow> string \<Rightarrow> string"

definition root_mux ::
  "mux_lib \<Rightarrow> 'r handlers \<Rightarrow> (string \<times> ('r world, unit) op) list \<Rightarrow> (string \<Rightarrow> bytes option) option \<Rightarrow> 'r handler" where
  "root_mux mx h ready static r =
     (let path = mux_path r; ss = path_segments path
      in if ss = [''api''] \<and> rq_Path r \<noteq> []
         then respond (Redirect r (mx_location mx (cleanPath (rq_Path r) @ ''/'') (rq_RawQuery r)) (mx_code mx))
         else if path \<noteq> rq_EscapedPath r
         then respond (Redirect r (mx_location mx path (rq_RawQuery r)) (mx_code mx))
         else if ss = [''healthz''] \<and> method_matches ''GET'' (rq_Method r) then HealthHandler r
         else if ss = [''readyz''] \<and> method_matches ''GET'' (rq_Method r) then ReadyHandler ready r
         else if length ss > 1 \<and> hd ss = ''api'' then api_mux h r
         else case static of
                Some files \<Rightarrow> spaHandler files r
              | None \<Rightarrow>
                  if ss = [''healthz''] \<or> ss = [''readyz'']
                  then respond (\<lambda>w. http_Error ''Method Not Allowed'' 405 (Header_Set ''Allow'' ''GET, HEAD'' w))
                  else respond (http_Error ''404 page not found'' 404))"

definition hsts_on :: "Config \<Rightarrow> bool" where
  "hsts_on cfg \<longleftrightarrow> cf_TLSCertFile cfg \<noteq> [] \<or> HasPrefix (cf_AppBaseURL cfg) ''https://''"

definition NewHandler ::
  "'r env \<Rightarrow> mux_lib \<Rightarrow> 'r handlers \<Rightarrow> (string \<times> ('r world, unit) op) list \<Rightarrow> (string \<Rightarrow> bytes option) option \<Rightarrow> 'r handler" where
  "NewHandler E mx h ready static =
     chain (root_mux mx h ready static)
       [recoverer (hs_log h), requestID E, clientIP (cf_TrustedProxyCIDRs (hs_cfg h)), securityHeaders (hsts_on (hs_cfg h)),
        httpMetrics, accessLog E (hs_log h), loadSession h, csrf]"

text \<open>
  A request as the server gets it carries nothing in its context; when the handler has returned, the
  server sends what was not sent.
\<close>

definition fresh_ctx :: rctx where
  "fresh_ctx = \<lparr>rx_id = [], rx_ip = [], rx_info = background, rx_session = None\<rparr>"

definition ServeHTTP ::
  "'r env \<Rightarrow> mux_lib \<Rightarrow> 'r handlers \<Rightarrow> (string \<times> ('r world, unit) op) list \<Rightarrow> (string \<Rightarrow> bytes option) option \<Rightarrow>
   request \<Rightarrow> 'r world \<Rightarrow> writer \<times> 'r world" where
  "ServeHTTP E mx h ready static r w =
     (let c = snd (NewHandler E mx h ready static (r\<lparr>rq_ctx := fresh_ctx, rq_Limit := None, rq_PathValues := []\<rparr>)
                \<lparr>cn_w = new_writer, cn_world = w\<rparr>)
      in (send 200 (cn_w c), cn_world c))"

end
