(* ===== verification/LocalAuth.thy ===== *)
theory LocalAuth
  imports AuthPorts Live
begin

text \<open>
  \<^verbatim>\<open>internal/auth/local.go\<close>: login with username and password. The operations are written over the
  ports of \<open>AuthPorts\<close>; what a successful login means is proved from the contracts, the exact outcome of
  every login for the repository's own ports.
\<close>

section \<open>The operations\<close>

record 's LocalAuth =
  la_users :: "'s UserStore"
  la_hasher :: "'s PasswordHasher"
  la_sink :: "ctx \<Rightarrow> Event \<Rightarrow> 's \<Rightarrow> 's"
  la_now :: "'s \<Rightarrow> gtime \<times> 's"
  la_dummyPHC :: string

definition LocalAuth_fail :: "'s LocalAuth \<Rightarrow> ctx \<Rightarrow> string \<Rightarrow> string \<Rightarrow> ('s, User) op" where
  "LocalAuth_fail l c username reason s =
     (let (now, s') = la_now l s
      in (Inl ErrBadCredentials,
          la_sink l c \<lparr>ev_At = now, ev_Event = LoginFailure, ev_ActorID = None, ev_PasteID = None, ev_IP = [],
            ev_UserAgent = [], ev_Outcome = OutcomeFailure,
            ev_Details = [(''username'', DStr username), (''reason'', DStr reason), (''provider'', DStr ''local'')]\<rparr> s'))"

definition LocalAuth_succeed :: "'s LocalAuth \<Rightarrow> ctx \<Rightarrow> User \<Rightarrow> ('s, User) op" where
  "LocalAuth_succeed l c user s =
     (let (now, s1) = la_now l s;
          (_, s2) = up_TouchLogin (la_users l) (us_ID user) now s1
      in (Inr user,
          la_sink l c \<lparr>ev_At = now, ev_Event = LoginSuccess, ev_ActorID = Some (us_ID user), ev_PasteID = None,
            ev_IP = [], ev_UserAgent = [], ev_Outcome = OutcomeSuccess,
            ev_Details = [(''provider'', DStr ''local'')]\<rparr> s2))"

text \<open>An unknown or non-local account: the password is verified against the dummy hash all the same.\<close>

definition LocalAuth_decoy :: "'s LocalAuth \<Rightarrow> ctx \<Rightarrow> string \<Rightarrow> string \<Rightarrow> string \<Rightarrow> ('s, User) op" where
  "LocalAuth_decoy l c username password reason =
     bindR (ph_Verify (la_hasher l) (la_dummyPHC l) password) (\<lambda>_. LocalAuth_fail l c username reason)"

definition Authenticate :: "'s LocalAuth \<Rightarrow> ctx \<Rightarrow> string \<Rightarrow> string \<Rightarrow> ('s, User) op" where
  "Authenticate l c username password s =
     (case up_GetByUsername (la_users l) username s of
        (Inl e, s1) \<Rightarrow>
          (if errors_Is e ErrUserNotFound then LocalAuth_decoy l c username password ''unknown_user'' s1
           else (Inl e, s1))
      | (Inr user, s1) \<Rightarrow>
          (if us_Provider user \<noteq> ProviderLocal \<or> us_PasswordHash user = []
           then LocalAuth_decoy l c username password ''not_local'' s1
           else bindR (ph_Verify (la_hasher l) (us_PasswordHash user) password) (\<lambda>ok.
                if \<not> ok then LocalAuth_fail l c username ''wrong_password''
                else if us_Disabled user then LocalAuth_fail l c username ''disabled''
                else LocalAuth_succeed l c user) s1))"

definition NewLocalAuth ::
  "'r env \<Rightarrow> 'r world UserStore \<Rightarrow> 'r world PasswordHasher \<Rightarrow> (ctx \<Rightarrow> Event \<Rightarrow> 'r world \<Rightarrow> 'r world) \<Rightarrow>
   ('r world, 'r world LocalAuth) op" where
  "NewLocalAuth E users hasher sink =
     bindR (RandomToken E 24) (\<lambda>token.
     bindR (ph_Hash hasher token) (\<lambda>dummyPHC.
     retR \<lparr>la_users = users, la_hasher = hasher, la_sink = sink, la_now = clock_Now E, la_dummyPHC = dummyPHC\<rparr>))"

section \<open>From the contracts\<close>

lemma LocalAuth_fail_result [simp]: "fst (LocalAuth_fail l c n r s) = Inl ErrBadCredentials"
  by (simp add: LocalAuth_fail_def split_beta)

lemma LocalAuth_succeed_result [simp]: "fst (LocalAuth_succeed l c u s) = Inr u"
  by (simp add: LocalAuth_succeed_def split_beta)

lemma LocalAuth_decoy_never: "LocalAuth_decoy l c n pw r s \<noteq> (Inr u, s')"
  by (auto simp: LocalAuth_decoy_def bindR_Inr LocalAuth_fail_def split: prod.splits)

locale local_login = user_directory U accounts + password_hasher H accepts
  for U :: "'s UserStore" and accounts :: "'s \<Rightarrow> User list"
    and H :: "'s PasswordHasher" and accepts :: "string \<Rightarrow> string \<Rightarrow> bool" +
  fixes l :: "'s LocalAuth"
  assumes wired: "la_users l = U" "la_hasher l = H"
begin

lemma login_sound:
  assumes "Authenticate l c username password s = (Inr user, s')"
  shows "user \<in> set (accounts s) \<and> us_Username user = username \<and> us_Provider user = ProviderLocal \<and>
    us_PasswordHash user \<noteq> [] \<and> accepts (us_PasswordHash user) password \<and> \<not> us_Disabled user"
proof -
  from assms obtain u s1 where u: "up_GetByUsername U username s = (Inr u, s1)"
    and n: "\<not> (us_Provider u \<noteq> ProviderLocal \<or> us_PasswordHash u = [])"
    by (auto simp: Authenticate_def wired LocalAuth_decoy_never split: prod.splits sum.splits if_splits)
  with assms obtain ok s2 where v: "ph_Verify H (us_PasswordHash u) password s1 = (Inr ok, s2)"
    and r: "(if \<not> ok then LocalAuth_fail l c username ''wrong_password''
             else if us_Disabled u then LocalAuth_fail l c username ''disabled''
             else LocalAuth_succeed l c u) s2 = (Inr user, s')"
    by (auto simp: Authenticate_def wired bindR_Inr)
  have "ok" "\<not> us_Disabled u" "u = user"
    using arg_cong [OF r, of fst] by (auto split: if_splits)
  with by_username [OF u] verify_result [OF v] n show ?thesis by auto
qed

end


section \<open>The repository's login\<close>

text \<open>The local authenticator over the Postgres accounts and the Argon2id hasher.\<close>

definition live_local :: "'r env \<Rightarrow> live_config \<Rightarrow> string comparator \<Rightarrow> Argon2Params \<Rightarrow> string \<Rightarrow> 'r world LocalAuth" where
  "live_local E l collation params dummyPHC =
     \<lparr>la_users = NewUserStore E collation, la_hasher = NewArgon2Hasher E params,
      la_sink = Multi_Record [logSink_Record E (lc_level l), AuditStore_Record E (lc_level l)],
      la_now = clock_Now E, la_dummyPHC = dummyPHC\<rparr>"

interpretation live_login: local_login "NewUserStore E collation" user_accounts "NewArgon2Hasher E params" "phc_accepts E"
  "live_local E l collation params dummyPHC" for E l collation params dummyPHC
  by unfold_locales (simp_all add: live_local_def)

lemma NewLocalAuth_live:
  assumes "NewLocalAuth E (NewUserStore E collation) (NewArgon2Hasher E params)
      (Multi_Record [logSink_Record E (lc_level l), AuditStore_Record E (lc_level l)]) w = (Inr la, w')"
  shows "\<exists>dummyPHC. la = live_local E l collation params dummyPHC \<and> (\<exists>pw. phc_accepts E dummyPHC pw)"
  using assms by (auto simp: NewLocalAuth_def bindR_Inr live_local_def NewArgon2Hasher_def
    dest!: argon2.hash_accepted [unfolded NewArgon2Hasher_def, simplified])

text \<open>A hash the program can verify: it parses and its costs are positive.\<close>

definition phc_ok :: "string \<Rightarrow> bool" where
  "phc_ok phc = (case parse_phc phc of Inl _ \<Rightarrow> False | Inr (p, _, _) \<Rightarrow> ap_Time p \<noteq> 0 \<and> ap_Threads p \<noteq> 0)"

lemma Verify_outcome:
  assumes "phc_ok phc"
  shows "fst (Argon2Hasher_Verify E phc pw w) =
    (case fst (Acquire (e_select E (w_tick w)) (w_gate w)) of
       Some err \<Rightarrow> Inl (mapBusy err)
     | None \<Rightarrow> Inr (phc_accepts E phc pw))"
  using assms
  by (auto simp: phc_ok_def Argon2Hasher_Verify_def VerifyPassword_def phc_accepts_def mapE_def bindR_def DeriveKey_def
    split: sum.splits prod.splits option.splits)

text \<open>The account a username and a password open.\<close>

definition login_account :: "'r env \<Rightarrow> 'r world \<Rightarrow> string \<Rightarrow> string \<Rightarrow> User option" where
  "login_account E w username password =
     (case find (\<lambda>u. us_Username u = username) (user_accounts w) of
        None \<Rightarrow> None
      | Some u \<Rightarrow>
          if us_Provider u = ProviderLocal \<and> us_PasswordHash u \<noteq> [] \<and> \<not> us_Disabled u \<and>
             phc_accepts E (us_PasswordHash u) password
          then Some u else None)"

lemma Authenticate_outcome:
  assumes "e_fate E (w_tick w) = Served" and "pg_text username" and "phc_ok dummyPHC"
    and "\<forall>u \<in> set (user_accounts w). us_PasswordHash u \<noteq> [] \<longrightarrow> phc_ok (us_PasswordHash u)"
  shows "fst (Authenticate (live_local E l collation params dummyPHC) c username password w) =
    (case fst (Acquire (e_select E (Suc (w_tick w))) (w_gate w)) of
       Some err \<Rightarrow> Inl (mapBusy err)
     | None \<Rightarrow>
         (case login_account E w username password of
            Some u \<Rightarrow> Inr u
          | None \<Rightarrow> Inl ErrBadCredentials))"
proof -
  let ?L = "live_local E l collation params dummyPHC"
  define a where "a = fst (Acquire (e_select E (Suc (w_tick w))) (w_gate w))"
  have verify: "fst (ph_Verify (la_hasher ?L) phc password (tick w)) =
    (case a of Some err \<Rightarrow> Inl (mapBusy err) | None \<Rightarrow> Inr (phc_accepts E phc password))" if "phc_ok phc" for phc
    using Verify_outcome [OF that, of E password "tick w"] by (simp add: a_def live_local_def NewArgon2Hasher_def)
  have decoy: "fst (LocalAuth_decoy ?L c username password r (tick w)) =
    (case a of Some err \<Rightarrow> Inl (mapBusy err) | None \<Rightarrow> Inl ErrBadCredentials)" for r
    using verify [OF assms(3)] by (simp add: LocalAuth_decoy_def fst_bindR live_local_def split: option.splits)
  have found: "up_GetByUsername (la_users ?L) username w =
    (case find (\<lambda>r. ur_Username r = username) (w_users w) of
       None \<Rightarrow> (Inl ErrUserNotFound, tick w) | Some r \<Rightarrow> (Inr (scanUser r), tick w))"
    using assms(1,2) by (simp add: live_local_def NewUserStore_def UserStore_GetByUsername_def db_call_def
      select_user_def split: option.splits)
  have acc: "find (\<lambda>u. us_Username u = username) (user_accounts w) =
    map_option scanUser (find (\<lambda>r. ur_Username r = username) (w_users w))"
    by (simp add: user_accounts_def find_map_first o_def)
  show ?thesis
  proof (cases "find (\<lambda>r. ur_Username r = username) (w_users w)")
    case None
    then show ?thesis
      unfolding a_def [symmetric] by (simp add: Authenticate_def found decoy login_account_def acc split: option.splits)
  next
    case (Some r)
    then have "scanUser r \<in> set (user_accounts w)"
      using find_row [OF Some] by (simp add: user_accounts_def)
    with assms(4) have ok: "us_PasswordHash (scanUser r) \<noteq> [] \<Longrightarrow> phc_ok (us_PasswordHash (scanUser r))" by blast
    show ?thesis
      unfolding a_def [symmetric]
      by (cases "ur_Provider r \<noteq> ProviderLocal \<or> us_PasswordHash (scanUser r) = []")
        (use verify [OF ok] in \<open>auto simp: Authenticate_def found Some decoy login_account_def acc fst_bindR split: option.splits\<close>)
  qed
qed

section \<open>A sample account with a password\<close>

definition sample_key :: bytes where
  "sample_key = e_argon2 sample_env (bytes_of ''open sesame'') [1, 2] 3 32768 2 keyLen"

definition sample_phc :: string where
  "sample_phc = phc_string sample_params [1, 2] sample_key"

definition login_world :: "mem world" where
  "login_world = sample_world1\<lparr>w_users := [sample_user\<lparr>ur_PasswordHash := Some sample_phc\<rparr>]\<rparr>"

abbreviation sample_login :: "mem world LocalAuth" where
  "sample_login \<equiv> live_local sample_env
     \<lparr>lc_envelope = sample_envelope, lc_level = LevelInfo, lc_base = ''https://paste.example'',
      lc_limits = \<lparr>li_MaxSize = 100, li_TTLDefault = 60, li_TTLMin = 1, li_TTLMax = 3600\<rparr>\<rparr>
     flat sample_params sample_phc"

lemma sample_phc_ok:
  "phc_ok sample_phc" "sample_phc \<noteq> []" "phc_accepts sample_env sample_phc ''open sesame''"
  by (simp_all add: phc_ok_def sample_phc_def parse_phc_string sample_params_def phc_accepts_def sample_key_def)
     (simp add: phc_string_def)

lemma login_world_facts:
  "e_fate sample_env n = Served" "pg_text ''ada''"
  "\<forall>u \<in> set (user_accounts login_world). us_PasswordHash u \<noteq> [] \<longrightarrow> phc_ok (us_PasswordHash u)"
  "fst (Acquire (e_select sample_env n) (w_gate login_world)) = None"
  using sample_phc_ok
  by (auto simp: sample_env_def user_accounts_def login_world_def userColumn_or_empty_def sample_world1_def
    sample_world_def NewGate_def Acquire_def intro!: pg_text_ascii)

lemma login_world_account:
  "\<exists>u. login_account sample_env login_world ''ada'' ''open sesame'' = Some u"
  using sample_phc_ok
  by (simp add: login_account_def user_accounts_def login_world_def userColumn_or_empty_def sample_user_def)

section \<open>Properties\<close>

text \<open>
  C26. A login succeeds only for a stored account of that username that is local and enabled, with a
  password whose derived key under the stored salt and costs is the stored key. Nothing else logs in,
  whatever the services do.
\<close>

theorem login_needs_password:
  assumes "Authenticate (live_local E l collation params dummyPHC) c username password w = (Inr user, w')"
  shows "\<exists>q p salt. q \<in> set (w_users w) \<and> user = scanUser q \<and> ur_Username q = username \<and>
    ur_Provider q = ProviderLocal \<and> \<not> ur_Disabled q \<and>
    parse_phc (us_PasswordHash user) =
      Inr (p, salt, e_argon2 E (bytes_of password) salt (ap_Time p) (ap_MemoryKiB p) (ap_Threads p) keyLen)"
  using live_login.login_sound [OF assms]
  by (auto simp: user_accounts_def phc_accepts_def split: sum.splits prod.splits)

theorem login_needs_password_witness:
  "\<exists>user w' p salt. Authenticate sample_login background ''ada'' ''open sesame'' login_world = (Inr user, w') \<and>
     parse_phc (us_PasswordHash user) = Inr (p, salt, e_argon2 sample_env (bytes_of ''open sesame'') salt
       (ap_Time p) (ap_MemoryKiB p) (ap_Threads p) keyLen)"
proof -
  obtain u where "login_account sample_env login_world ''ada'' ''open sesame'' = Some u"
    using login_world_account by blast
  then have "fst (Authenticate sample_login background ''ada'' ''open sesame'' login_world) = Inr u"
    using Authenticate_outcome [OF login_world_facts(1,2) sample_phc_ok(1) login_world_facts(3)]
    by (simp add: login_world_facts(4))
  then obtain w' where "Authenticate sample_login background ''ada'' ''open sesame'' login_world = (Inr u, w')"
    by (metis prod.collapse)
  with login_needs_password [OF this] show ?thesis by blast
qed

text \<open>
  C27. The outcome of every login while the database answers. When the key-derivation gate grants no
  slot the answer is the gate's error, for any username; otherwise the login succeeds exactly when
  the username and the password open an enabled local account, and every other attempt, whether the
  username is unknown, belongs to another provider, is disabled or the password is wrong, gets the
  same \<^verbatim>\<open>ErrBadCredentials\<close>.
\<close>

theorem login_outcome:
  assumes "e_fate E (w_tick w) = Served" and "pg_text username" and "phc_ok dummyPHC"
    and "\<forall>u \<in> set (user_accounts w). us_PasswordHash u \<noteq> [] \<longrightarrow> phc_ok (us_PasswordHash u)"
  shows "fst (Authenticate (live_local E l collation params dummyPHC) c username password w) =
    (case fst (Acquire (e_select E (Suc (w_tick w))) (w_gate w)) of
       Some err \<Rightarrow> Inl (mapBusy err)
     | None \<Rightarrow>
         (case login_account E w username password of
            Some u \<Rightarrow> Inr u
          | None \<Rightarrow> Inl ErrBadCredentials))"
  by (rule Authenticate_outcome [OF assms])

theorem login_outcome_witness:
  "fst (Authenticate sample_login background ''ada'' ''open sesame'' login_world) \<noteq> Inl ErrBadCredentials"
  using login_outcome [OF login_world_facts(1,2) sample_phc_ok(1) login_world_facts(3)] login_world_account
  by (auto simp: login_world_facts(4))

end
