(* ===== verification/Sweeper.thy ===== *)
theory Sweeper
  imports Live
begin

text \<open>
  \<^verbatim>\<open>internal/sweeper/sweeper.go\<close>: one pass deletes the bodies of expired pastes, records their expiry,
  marks the rows, purges metadata and audit events past their retention, and counts the live pastes.
  The loop \<open>sweeper_Run\<close> takes the outcomes of its \<^verbatim>\<open>select\<close> as a list, so it is total.
\<close>

section \<open>The sweeper\<close>

record sweeper_Config =
  sc_Interval :: duration
  sc_MetadataRetentionDays :: int
  sc_AuditRetentionDays :: int
  sc_Batch :: int

record Stats =
  ss_Expired :: int
  ss_MetadataPurged :: int
  ss_AuditPurged :: int
  ss_Active :: int

definition zero_stats :: Stats where
  "zero_stats = \<lparr>ss_Expired = 0, ss_MetadataPurged = 0, ss_AuditPurged = 0, ss_Active = 0\<rparr>"

record 'r Sweeper =
  sw_cfg :: sweeper_Config
  sw_metas :: "'r world MetaStore"
  sw_bodies :: "'r world BodyStore"
  sw_sink :: "ctx \<Rightarrow> Event \<Rightarrow> 'r world \<Rightarrow> 'r world"
  sw_purger :: "(gtime \<Rightarrow> ('r world, int) op) option"
  sw_log :: log_level
  sw_now :: "'r world \<Rightarrow> gtime \<times> 'r world"
  sw_onActive :: "(int \<Rightarrow> 'r world \<Rightarrow> 'r world) list"

definition sweeper_New ::
  "'r env \<Rightarrow> sweeper_Config \<Rightarrow> 'r world MetaStore \<Rightarrow> 'r world BodyStore \<Rightarrow> (ctx \<Rightarrow> Event \<Rightarrow> 'r world \<Rightarrow> 'r world) \<Rightarrow>
   (gtime \<Rightarrow> ('r world, int) op) option \<Rightarrow> log_level option \<Rightarrow> ('r world \<Rightarrow> gtime \<times> 'r world) option \<Rightarrow> 'r Sweeper" where
  "sweeper_New E cfg metas bodies sink purger log now =
     (let cfg = (if sc_Interval cfg \<le> 0 then cfg\<lparr>sc_Interval := 30 * Second\<rparr> else cfg);
          cfg = (if sc_Batch cfg \<le> 0 then cfg\<lparr>sc_Batch := 500\<rparr> else cfg)
      in \<lparr>sw_cfg = cfg, sw_metas = metas, sw_bodies = bodies, sw_sink = sink, sw_purger = purger,
          sw_log = (case log of None \<Rightarrow> LevelInfo | Some l \<Rightarrow> l),
          sw_now = (case now of None \<Rightarrow> clock_Now E | Some f \<Rightarrow> f), sw_onActive = []\<rparr>)"

definition OnActiveCount :: "(int \<Rightarrow> 'r world \<Rightarrow> 'r world) \<Rightarrow> 'r Sweeper \<Rightarrow> 'r Sweeper" where
  "OnActiveCount f S = S\<lparr>sw_onActive := sw_onActive S @ [f]\<rparr>"

definition sweep_event :: "gtime \<Rightarrow> audit_event \<Rightarrow> uuid option \<Rightarrow> (string \<times> dval) list \<Rightarrow> Event" where
  "sweep_event now ev i details =
     \<lparr>ev_At = now, ev_Event = ev, ev_ActorID = None, ev_PasteID = i, ev_IP = [], ev_UserAgent = [],
      ev_Outcome = OutcomeSuccess, ev_Details = details\<rparr>"

text \<open>The loop over the expired rows: the identities whose bodies are gone, and whether one must be retried.\<close>

fun sweep_bodies :: "'r Sweeper \<Rightarrow> ctx \<Rightarrow> gtime \<Rightarrow> PasteMeta list \<Rightarrow> 'r world \<Rightarrow> (uuid list \<times> bool) \<times> 'r world" where
  "sweep_bodies S c now [] w = (([], False), w)"
| "sweep_bodies S c now (m # ms) w =
     (case bs_Delete (sw_bodies S) (pm_ID m) w of
        (Inl err, w) \<Rightarrow>
          (let w = log_at (sw_log S) LevelWarn ''defensive body delete failed''
                     [(''paste_id'', LID (pm_ID m)), (''err'', LErr err)] w;
               ((ids, _), w) = sweep_bodies S c now ms w
           in ((ids, True), w))
      | (Inr _, w) \<Rightarrow>
          (let w = sw_sink S c (sweep_event now PasteExpired (Some (pm_ID m))
                     [(''expires_at'', DTime (pm_ExpiresAt m)), (''password_protected'', DBool (pm_PasswordProtected m))]) w;
               ((ids, retry), w) = sweep_bodies S c now ms w
           in ((pm_ID m # ids, retry), w)))"

definition sweep_expire :: "'r Sweeper \<Rightarrow> ctx \<Rightarrow> gtime \<Rightarrow> ('r world, int \<times> bool) op" where
  "sweep_expire S c now =
     bindR (ms_ListExpiredUnaudited (sw_metas S) now (sc_Batch (sw_cfg S))) (\<lambda>expired w.
       let ((ids, failed), w) = sweep_bodies S c now expired w;
           retryPending = (failed \<or> sc_Batch (sw_cfg S) \<le> int (length expired))
       in if ids = [] then (Inr (0, retryPending), w)
          else bindR (ms_MarkExpiredAudited (sw_metas S) ids now) (\<lambda>_. retR (int (length ids), retryPending)) w)"

text \<open>\<^verbatim>\<open>AddDate(0, 0, -n)\<close> of a UTC time.\<close>

definition days_before :: "gtime \<Rightarrow> int \<Rightarrow> gtime" where
  "days_before t n = t - n * 24 * Hour"

definition sweep_recorded :: "'r Sweeper \<Rightarrow> ctx \<Rightarrow> gtime \<Rightarrow> audit_event \<Rightarrow> ('r world, int) op \<Rightarrow> ('r world, int) op" where
  "sweep_recorded S c now ev purge =
     bindR purge (\<lambda>count w.
       (Inr count, if 0 < count then sw_sink S c (sweep_event now ev None [(''count'', DInt count)]) w else w))"

definition sweep_metadata :: "'r Sweeper \<Rightarrow> ctx \<Rightarrow> gtime \<Rightarrow> bool \<Rightarrow> ('r world, int) op" where
  "sweep_metadata S c now retryPending =
     (if sc_MetadataRetentionDays (sw_cfg S) \<le> 0 then retR 0
      else let cutoff = days_before now (sc_MetadataRetentionDays (sw_cfg S))
           in sweep_recorded S c now MetadataPurged
                (case ms_PurgeCompletedOlderThan (sw_metas S) of
                   Some purge \<Rightarrow> purge cutoff
                 | None \<Rightarrow> if retryPending then retR 0 else ms_PurgeOlderThan (sw_metas S) cutoff))"

definition sweep_audit :: "'r Sweeper \<Rightarrow> ctx \<Rightarrow> gtime \<Rightarrow> ('r world, int) op" where
  "sweep_audit S c now =
     (case sw_purger S of
        Some purge \<Rightarrow>
          if sc_AuditRetentionDays (sw_cfg S) \<le> 0 then retR 0
          else sweep_recorded S c now AuditPurged (purge (days_before now (sc_AuditRetentionDays (sw_cfg S))))
      | None \<Rightarrow> retR 0)"

text \<open>The statistics are returned with an error as well.\<close>

definition RunOnce :: "'r Sweeper \<Rightarrow> ctx \<Rightarrow> 'r world \<Rightarrow> (Stats \<times> goerr option) \<times> 'r world" where
  "RunOnce S c w =
     (let (now, w) = sw_now S w
      in case sweep_expire S c now w of
           (Inl e, w) \<Rightarrow> ((zero_stats, Some e), w)
         | (Inr (expired, retryPending), w) \<Rightarrow>
             (let stats = zero_stats\<lparr>ss_Expired := expired\<rparr>
              in case sweep_metadata S c now retryPending w of
                   (Inl e, w) \<Rightarrow> ((stats, Some e), w)
                 | (Inr purged, w) \<Rightarrow>
                     (let stats = stats\<lparr>ss_MetadataPurged := purged\<rparr>
                      in case sweep_audit S c now w of
                           (Inl e, w) \<Rightarrow> ((stats, Some e), w)
                         | (Inr purged, w) \<Rightarrow>
                             (let stats = stats\<lparr>ss_AuditPurged := purged\<rparr>
                              in case ms_CountActive (sw_metas S) now w of
                                   (Inl e, w) \<Rightarrow> ((stats, Some e), w)
                                 | (Inr active, w) \<Rightarrow>
                                     ((stats\<lparr>ss_Active := active\<rparr>, None), fold (\<lambda>f. f active) (sw_onActive S) w)))))"

text \<open>
  \<^verbatim>\<open>Run\<close>: each pass is followed by a \<^verbatim>\<open>select\<close>, whose outcome is \<open>True\<close> when the context was done; \<open>cancelled\<close>
  tells whether it was done when a pass failed.
\<close>

fun sweeper_Run :: "'r Sweeper \<Rightarrow> ctx \<Rightarrow> (bool \<times> bool) list \<Rightarrow> 'r world \<Rightarrow> 'r world" where
  "sweeper_Run S c [] w = w"
| "sweeper_Run S c ((cancelled, stop) # rest) w =
     (let ((_, err), w) = RunOnce S c w;
          w = (case err of
                 Some e \<Rightarrow> if cancelled then w
                          else log_at (sw_log S) LevelError ''sweeper pass failed'' [(''err'', LErr e)] w
               | None \<Rightarrow> w)
      in if stop then w else sweeper_Run S c rest w)"

section \<open>The sweeper of the repository's stores\<close>

abbreviation live_sink :: "'r env \<Rightarrow> live_config \<Rightarrow> ctx \<Rightarrow> Event \<Rightarrow> 'r world \<Rightarrow> 'r world" where
  "live_sink E l \<equiv> Multi_Record [logSink_Record E (lc_level l), AuditStore_Record E (lc_level l)]"

definition live_sweeper :: "'r env \<Rightarrow> live_config \<Rightarrow> sweeper_Config \<Rightarrow> 'r Sweeper" where
  "live_sweeper E l cfg =
     sweeper_New E cfg (NewPasteStore E) (NewBodyStore E) (live_sink E l) (Some (AuditStore_PurgeOlderThan E))
       (Some (lc_level l)) None"

section \<open>What a pass does to rows and bodies\<close>

lemma live_sink_keeps [simp]:
  "w_redis (live_sink E l c e w) = w_redis w" "w_pastes (live_sink E l c e w) = w_pastes w"
  "w_users (live_sink E l c e w) = w_users w" "w_gate (live_sink E l c e w) = w_gate w"
  "w_tick w \<le> w_tick (live_sink E l c e w)"
  by (auto intro: le_trans [OF logSink_keeps(6) AuditStore_Record_keeps(5)])

declare Multi_Record.simps [simp del]

lemma live_sweeper_simps [simp]:
  "sw_metas (live_sweeper E l cfg) = NewPasteStore E" "sw_bodies (live_sweeper E l cfg) = NewBodyStore E"
  "sw_sink (live_sweeper E l cfg) = live_sink E l" "sw_purger (live_sweeper E l cfg) = Some (AuditStore_PurgeOlderThan E)"
  "sw_now (live_sweeper E l cfg) = clock_Now E" "sw_onActive (live_sweeper E l cfg) = []"
  "sw_log (live_sweeper E l cfg) = lc_level l" "0 < sc_Batch (sw_cfg (live_sweeper E l cfg))"
  by (simp_all add: live_sweeper_def sweeper_New_def Let_def)

text \<open>
  A step of the sweeper that leaves rows and accounts alone; bodies may go, those of the identities in \<open>gone\<close>
  for certain, and only those of identities in \<open>may\<close>.
\<close>

definition bodies_step :: "'r env \<Rightarrow> uuid set \<Rightarrow> uuid set \<Rightarrow> 'r world \<Rightarrow> 'r world \<Rightarrow> bool" where
  "bodies_step E may gone w w' \<longleftrightarrow>
     w_pastes w' = w_pastes w \<and> w_users w' = w_users w \<and> w_gate w' = w_gate w \<and> w_tick w \<le> w_tick w' \<and>
     (\<forall>t i. rnow E w' \<le> t \<longrightarrow>
        (body_held E w' t i = None \<or> body_held E w' t i = body_held E w t i) \<and>
        (i \<notin> may \<longrightarrow> body_held E w' t i = body_held E w t i) \<and> (i \<in> gone \<longrightarrow> body_held E w' t i = None))"

lemma bodies_stepD:
  assumes "bodies_step E may gone w w'"
  shows "w_pastes w' = w_pastes w" "w_users w' = w_users w" "w_gate w' = w_gate w" "w_tick w \<le> w_tick w'"
    "rnow E w' \<le> t \<Longrightarrow> body_held E w' t i = None \<or> body_held E w' t i = body_held E w t i"
    "rnow E w' \<le> t \<Longrightarrow> i \<notin> may \<Longrightarrow> body_held E w' t i = body_held E w t i"
    "rnow E w' \<le> t \<Longrightarrow> i \<in> gone \<Longrightarrow> body_held E w' t i = None"
  using assms unfolding bodies_step_def by blast+

lemma bodies_step_trans:
  assumes "env_laws E" and "bodies_step E may gone w w1" and "bodies_step E may' gone' w1 w2"
  shows "bodies_step E (may \<union> may') (gone \<union> gone') w w2"
proof -
  note a = bodies_stepD [OF assms(2)] and b = bodies_stepD [OF assms(3)]
  have "rnow E w1 \<le> rnow E w2" by (rule rnow_mono [OF assms(1) b(4)])
  then have later: "rnow E w2 \<le> t \<Longrightarrow> rnow E w1 \<le> t" for t by simp
  show ?thesis
    unfolding bodies_step_def
    by (intro conjI allI impI; (use a(1-4) b(1-4) in simp)?) (metis a(5-7) b(5-7) later Un_iff)+
qed

lemma bodies_step_quiet:
  assumes "w_redis w' = w_redis w" and "w_pastes w' = w_pastes w" and "w_users w' = w_users w"
    and "w_gate w' = w_gate w" and "w_tick w \<le> w_tick w'"
  shows "bodies_step E {} {} w w'"
  using assms by (simp add: bodies_step_def body_held_def)

lemma bodies_step_delete:
  assumes "world_ok E w"
  shows "bodies_step E {i} (if fst (BodyStore_Delete E i w) = Inr () then {i} else {}) w (snd (BodyStore_Delete E i w))"
proof -
  note now = body_ops_now(3) [OF assms, of i]
  have "body_held E (snd (BodyStore_Delete E i w)) t i = None"
    if "fst (BodyStore_Delete E i w) = Inr ()" "rnow E (snd (BodyStore_Delete E i w)) \<le> t" for t
    using Delete_held(1) [OF assms _ prod_eqI] that now by (metis order.trans fst_conv snd_conv)
  then show ?thesis
    unfolding bodies_step_def
    using Delete_held(2,3) [OF assms order.trans [OF now], where i = i] by (auto simp: body_ops_tick) metis+
qed

lemma sweep_bodies_step:
  assumes "world_ok E w" and "sweep_bodies (live_sweeper E l cfg) c now ms w = ((ids, failed), w')"
  shows "bodies_step E (pm_ID ` set ms) (set ids) w w'"
  using assms
proof (induction ms arbitrary: w ids failed)
  case Nil
  then show ?case by (auto intro: bodies_step_quiet)
next
  case (Cons m ms)
  note laws = world_okD(1) [OF Cons.prems(1)]
  define i where "i = pm_ID m"
  obtain r w1 where del: "BodyStore_Delete E i w = (r, w1)" by fastforce
  define w2 where "w2 = (case r of
      Inl err \<Rightarrow> log_at (lc_level l) LevelWarn ''defensive body delete failed'' [(''paste_id'', LID i), (''err'', LErr err)] w1
    | Inr _ \<Rightarrow> live_sink E l c (sweep_event now PasteExpired (Some i)
        [(''expires_at'', DTime (pm_ExpiresAt m)), (''password_protected'', DBool (pm_PasswordProtected m))]) w1)"
  obtain ids' failed' where rest: "sweep_bodies (live_sweeper E l cfg) c now ms w2 = ((ids', failed'), w')"
    and ids: "ids = (case r of Inl _ \<Rightarrow> ids' | Inr _ \<Rightarrow> i # ids')"
    using Cons.prems(2) del unfolding w2_def i_def
    by (auto simp: NewBodyStore_def split: sum.splits prod.splits)
  have quiet: "bodies_step E {} {} w1 w2"
    by (cases r) (auto simp: w2_def intro!: bodies_step_quiet)
  note step = bodies_step_trans [OF laws bodies_step_delete [OF Cons.prems(1), of i, unfolded del fst_conv snd_conv] quiet]
  then have "world_ok E w2" using Cons.prems(1) bodies_stepD(1,2) by (metis world_ok_cong)
  from bodies_step_trans [OF laws step Cons.IH [OF this rest]] show ?case
    by (cases r) (auto simp: ids i_def Un_commute)
qed

text \<open>Steps that touch neither rows nor bodies.\<close>

definition quiet :: "'r world \<Rightarrow> 'r world \<Rightarrow> bool" where
  "quiet w w' \<longleftrightarrow>
     w_redis w' = w_redis w \<and> w_pastes w' = w_pastes w \<and> w_users w' = w_users w \<and> w_gate w' = w_gate w \<and>
     w_tick w \<le> w_tick w'"

lemma quiet_simps [simp]:
  "quiet w w" "quiet w (tick w)" "quiet w (live_sink E l c e w)" "quiet w (log_at ml lv s a w)"
  by (simp_all add: quiet_def)

lemma quiet_step_trans: "quiet a b \<Longrightarrow> quiet b c \<Longrightarrow> quiet a c"
  by (auto simp: quiet_def)

lemma quiet_world_ok: "quiet w w' \<Longrightarrow> world_ok E w' = world_ok E w"
  by (rule world_ok_cong) (simp_all add: quiet_def)

lemma quiet_select: "(\<And>w. snd (stmt w) = w) \<Longrightarrow> quiet w (snd (db_call E stmt w))"
  by (rule db_call_snd [of E stmt w]) simp_all

lemma quiet_list: "quiet w (snd (PasteStore_ListExpiredUnaudited E now n w))" "quiet w (snd (PasteStore_CountActive E now w))"
  unfolding PasteStore_ListExpiredUnaudited_def PasteStore_CountActive_def by (rule quiet_select, simp)+

lemma quiet_audit_purge: "quiet w (snd (AuditStore_PurgeOlderThan E t w))"
  unfolding AuditStore_PurgeOlderThan_def
  by (rule db_call_snd [where w = w and E = E and stmt = "\<lambda>w. (Inr (int (length (filter (\<lambda>r. ar_At r < e_pg_time E t) (w_audit w)))),
       w\<lparr>w_audit := filter (\<lambda>r. \<not> ar_At r < e_pg_time E t) (w_audit w)\<rparr>)"]) (simp_all add: quiet_def)

lemma sweep_recorded_quiet:
  "sw_sink S = live_sink E l \<Longrightarrow> quiet (snd (purge w)) (snd (sweep_recorded S c now ev purge w))"
  by (cases "fst (purge w)") (auto simp: sweep_recorded_def bindR_def split: prod.splits sum.splits)

lemma sweep_audit_quiet: "quiet w (snd (sweep_audit (live_sweeper E l cfg) c now w))"
  by (auto simp: sweep_audit_def intro: quiet_step_trans [OF quiet_audit_purge sweep_recorded_quiet [where E = E and l = l]])

text \<open>The rows an expiry pass may mark, and the rows a purge may remove.\<close>

definition expired_row :: "'r env \<Rightarrow> gtime \<Rightarrow> PasteMeta \<Rightarrow> bool" where
  "expired_row E now m \<longleftrightarrow>
     pm_ExpiresAt m \<le> e_pg_time E now \<and> pm_DeletedAt m = None \<and> pm_ExpiredAuditedAt m = None"

definition completed :: "PasteMeta \<Rightarrow> bool" where
  "completed m \<longleftrightarrow> pm_DeletedAt m \<noteq> None \<or> pm_ExpiredAuditedAt m \<noteq> None"

definition mark_expired :: "'r env \<Rightarrow> gtime \<Rightarrow> PasteMeta \<Rightarrow> PasteMeta" where
  "mark_expired E now m =
     (if pm_ExpiredAuditedAt m = None then m\<lparr>pm_ExpiredAuditedAt := Some (e_pg_time E now)\<rparr> else m)"

lemma Mark_row:
  "paste_row (snd (PasteStore_MarkExpiredAudited E ids now w)) i = paste_row w i \<or>
   i \<in> set ids \<and> paste_row (snd (PasteStore_MarkExpiredAudited E ids now w)) i = map_option (mark_expired E now) (paste_row w i)"
proof (cases "ids = []")
  case False
  note u = paste_row_db_update [of "\<lambda>m. m\<lparr>pm_ExpiredAuditedAt := Some (e_pg_time E now)\<rparr>" E
      "\<lambda>m. pm_ID m \<in> set ids \<and> pm_ExpiredAuditedAt m = None" "\<lambda>_. None" w i]
  show ?thesis
    using False u by (cases "paste_row w i")
      (auto simp: PasteStore_MarkExpiredAudited_def mark_expired_def dest: paste_row_ID split: if_splits)
qed (simp add: PasteStore_MarkExpiredAudited_def)

lemma Mark_keeps:
  "w_redis (snd (PasteStore_MarkExpiredAudited E ids now w)) = w_redis w"
  "w_gate (snd (PasteStore_MarkExpiredAudited E ids now w)) = w_gate w"
  "w_tick w \<le> w_tick (snd (PasteStore_MarkExpiredAudited E ids now w))"
  by (auto simp: PasteStore_MarkExpiredAudited_def db_call_def split_beta split: fate.splits)

lemma find_filter_ID:
  "distinct (map pm_ID ms) \<Longrightarrow> find (\<lambda>m. pm_ID m = i) (filter Q ms) =
     (case find (\<lambda>m. pm_ID m = i) ms of None \<Rightarrow> None | Some m \<Rightarrow> if Q m then Some m else None)"
proof (induction ms)
  case (Cons m ms)
  then have "pm_ID m = i \<Longrightarrow> find (\<lambda>m. pm_ID m = i) ms = None" by (auto simp: find_ID_None)
  with Cons show ?case by auto
qed simp

lemma Purge_row:
  assumes "world_ok E w"
  shows "paste_row (snd (PasteStore_PurgeCompletedOlderThan E cutoff w)) i = paste_row w i \<or>
    paste_row (snd (PasteStore_PurgeCompletedOlderThan E cutoff w)) i = None \<and>
      (\<exists>m. paste_row w i = Some m \<and> pm_CreatedAt m < e_pg_time E cutoff \<and> completed m)"
proof -
  have "distinct (map pm_ID (w_pastes w))" using world_okD(3) [OF assms] by (simp add: pastes_ok_def)
  then show ?thesis
    unfolding PasteStore_PurgeCompletedOlderThan_def
    by (rule_tac db_call_snd [where w = w and E = E and stmt = "delete_pastes (\<lambda>m. pm_CreatedAt m < e_pg_time E cutoff \<and>
       (pm_DeletedAt m \<noteq> None \<or> pm_ExpiredAuditedAt m \<noteq> None))"])
      (auto simp: delete_pastes_def paste_row_def find_filter_ID completed_def split: option.splits)
qed

lemma Purge_keeps:
  "w_redis (snd (PasteStore_PurgeCompletedOlderThan E cutoff w)) = w_redis w"
  "w_gate (snd (PasteStore_PurgeCompletedOlderThan E cutoff w)) = w_gate w"
  "w_tick w \<le> w_tick (snd (PasteStore_PurgeCompletedOlderThan E cutoff w))"
  by (auto simp: PasteStore_PurgeCompletedOlderThan_def db_call_def split_beta split: fate.splits)

text \<open>The phases of a pass.\<close>

abbreviation expired_ids :: "'r env \<Rightarrow> gtime \<Rightarrow> 'r world \<Rightarrow> uuid set" where
  "expired_ids E now w \<equiv> {i. \<exists>m. paste_row w i = Some m \<and> expired_row E now m}"

lemma bodies_step_mono: "bodies_step E may gone w w' \<Longrightarrow> may \<subseteq> may' \<Longrightarrow> bodies_step E may' gone w w'"
  unfolding bodies_step_def by (meson subsetD)

lemma sweep_bodies_ids:
  "sweep_bodies S c now ms w = ((ids, failed), w') \<Longrightarrow> set ids \<subseteq> pm_ID ` set ms"
proof (induction ms arbitrary: w ids failed)
  case (Cons m ms)
  then show ?case by (auto split: prod.splits sum.splits dest!: Cons.IH)
qed simp

lemma ListExpired_Inr:
  assumes "world_ok E w" and "PasteStore_ListExpiredUnaudited E now n w = (Inr ms, w')"
  shows "w' = tick w" "pm_ID ` set ms \<subseteq> expired_ids E now w"
    "ms = take (nat n) (soonest_expiry_first (filter (expired_row E now) (w_pastes w)))"
proof -
  have q: "(\<lambda>m. pm_ExpiresAt m \<le> e_pg_time E now \<and> pm_DeletedAt m = None \<and> pm_ExpiredAuditedAt m = None) = expired_row E now"
    by (simp add: expired_row_def fun_eq_iff)
  from assms(2) show "w' = tick w" and ms: "ms = take (nat n) (soonest_expiry_first (filter (expired_row E now) (w_pastes w)))"
    by (auto simp: PasteStore_ListExpiredUnaudited_def db_call_Inr select_page_def q)
  have "distinct (map pm_ID (w_pastes w))" using world_okD(3) [OF assms(1)] by (simp add: pastes_ok_def)
  then have row: "m \<in> set (w_pastes w) \<Longrightarrow> paste_row w (pm_ID m) = Some m" for m by (simp add: paste_row_def find_ID)
  have "m \<in> set (w_pastes w) \<and> expired_row E now m" if "m \<in> set ms" for m
    using in_set_takeD [OF that [unfolded ms]] by (simp add: soonest_expiry_first_def)
  with row show "pm_ID ` set ms \<subseteq> expired_ids E now w" by blast
qed

lemma sweep_expire_step:
  assumes "world_ok E w" and "sweep_expire (live_sweeper E l cfg) c now w = (r, w')"
  obtains ids w1 where "bodies_step E (expired_ids E now w) (set ids) w w1" "set ids \<subseteq> expired_ids E now w"
    "w_redis w' = w_redis w1" "w_tick w1 \<le> w_tick w'" "world_ok E w'" "w_gate w' = w_gate w"
    "\<And>i. paste_row w' i = paste_row w i \<or> i \<in> set ids \<and> paste_row w' i = map_option (mark_expired E now) (paste_row w i)"
proof (cases "PasteStore_ListExpiredUnaudited E now (sc_Batch (sw_cfg (live_sweeper E l cfg))) w")
  case (Pair a w0)
  show thesis
  proof (cases a)
    case (Inl e)
    then have "quiet w w'" using assms(2) Pair quiet_list(1) [of w E now "sc_Batch (sw_cfg (live_sweeper E l cfg))"]
      by (simp add: sweep_expire_def bindR_def NewPasteStore_def)
    then have "bodies_step E (expired_ids E now w) (set []) w w'"
      by (simp add: quiet_def bodies_step_def body_held_def)
    moreover have "paste_row w' = paste_row w" using \<open>quiet w w'\<close> by (simp add: quiet_def paste_row_def fun_eq_iff)
    ultimately show thesis
      using that [of "[]" w'] assms(1) quiet_world_ok [OF \<open>quiet w w'\<close>] \<open>quiet w w'\<close> by (simp add: quiet_def)
  next
    case (Inr ms)
    note listed = ListExpired_Inr [OF assms(1) Pair [unfolded Inr]]
    obtain ids failed w1 where b: "sweep_bodies (live_sweeper E l cfg) c now ms w0 = ((ids, failed), w1)" by (metis surj_pair)
    have ok0: "world_ok E w0" "bodies_step E {} {} w w0"
      using assms(1) bodies_step_quiet [of w0 w] by (simp_all add: listed(1))
    note st = bodies_step_trans [OF world_okD(1) [OF assms(1)] ok0(2) sweep_bodies_step [OF ok0(1) b]]
    have step: "bodies_step E (expired_ids E now w) (set ids) w w1"
      using bodies_step_mono [OF st, of "expired_ids E now w"] listed(2) by simp
    have ids: "set ids \<subseteq> expired_ids E now w" using sweep_bodies_ids [OF b] listed(2) by blast
    have w': "w' = snd (PasteStore_MarkExpiredAudited E ids now w1)"
      using assms(2) Pair Inr b
      by (auto simp: sweep_expire_def bindR_def NewPasteStore_def PasteStore_MarkExpiredAudited_def Let_def split: if_splits prod.splits sum.splits)
    have ok1: "world_ok E w1" using assms(1) bodies_stepD(1,2) [OF step] by (metis world_ok_cong)
    have "paste_row w1 = paste_row w" using bodies_stepD(1) [OF step] by (simp add: paste_row_def fun_eq_iff)
    then show thesis
      using Mark_row [of E ids now w1] bodies_stepD(3) [OF step]
      by (intro that [OF step ids]) (auto simp: w' Mark_keeps PasteStore_world_ok(4) [OF ok1])
  qed
qed

lemma sweep_metadata_step:
  assumes "world_ok E w" and "w' = snd (sweep_metadata (live_sweeper E l cfg) c now retry w)"
  shows "w_redis w' = w_redis w" "w_gate w' = w_gate w" "w_tick w \<le> w_tick w'" "world_ok E w'"
    "paste_row w' i = paste_row w i \<or> paste_row w' i = None \<and>
      (\<exists>m. paste_row w i = Some m \<and> 0 < sc_MetadataRetentionDays cfg \<and> completed m \<and>
        pm_CreatedAt m < e_pg_time E (days_before now (sc_MetadataRetentionDays cfg)))"
proof -
  have cfg: "sc_MetadataRetentionDays (sw_cfg (live_sweeper E l cfg)) = sc_MetadataRetentionDays cfg"
    by (simp add: live_sweeper_def sweeper_New_def Let_def)
  define w1 where "w1 = (if sc_MetadataRetentionDays cfg \<le> 0 then w
    else snd (PasteStore_PurgeCompletedOlderThan E (days_before now (sc_MetadataRetentionDays cfg)) w))"
  have "quiet w1 w'"
    unfolding assms(2) w1_def
    by (auto simp: sweep_metadata_def cfg NewPasteStore_def Let_def intro: sweep_recorded_quiet [where E = E and l = l])
  moreover have "world_ok E w1" using assms(1) PasteStore_world_ok(6) by (auto simp: w1_def)
  moreover have "paste_row w1 i = paste_row w i \<or> paste_row w1 i = None \<and>
      (\<exists>m. paste_row w i = Some m \<and> 0 < sc_MetadataRetentionDays cfg \<and> completed m \<and>
        pm_CreatedAt m < e_pg_time E (days_before now (sc_MetadataRetentionDays cfg)))"
    using Purge_row [OF assms(1), of "days_before now (sc_MetadataRetentionDays cfg)" i] by (auto simp: w1_def)
  moreover have "w_redis w1 = w_redis w" "w_gate w1 = w_gate w" "w_tick w \<le> w_tick w1"
    by (simp_all add: w1_def Purge_keeps)
  ultimately show "w_redis w' = w_redis w" "w_gate w' = w_gate w" "w_tick w \<le> w_tick w'" "world_ok E w'"
    "paste_row w' i = paste_row w i \<or> paste_row w' i = None \<and>
      (\<exists>m. paste_row w i = Some m \<and> 0 < sc_MetadataRetentionDays cfg \<and> completed m \<and>
        pm_CreatedAt m < e_pg_time E (days_before now (sc_MetadataRetentionDays cfg)))"
    using quiet_world_ok [of w1 w' E] by (auto simp: quiet_def paste_row_def)
qed

lemma RunOnce_tail:
  assumes "RunOnce (live_sweeper E l cfg) c w = (r, w')"
    and "sweep_expire (live_sweeper E l cfg) c (e_clock E (w_tick w)) (tick w) = (a, w2)"
  obtains "quiet w2 w'" | retry where "quiet (snd (sweep_metadata (live_sweeper E l cfg) c (e_clock E (w_tick w)) retry w2)) w'"
proof (cases a)
  case (Inl e)
  then show thesis using that(1) assms by (simp add: RunOnce_def clock_Now_def)
next
  case (Inr p)
  obtain n retry where p: "p = (n, retry)" by fastforce
  let ?S = "live_sweeper E l cfg" and ?now = "e_clock E (w_tick w)"
  obtain b w3 where 3: "sweep_metadata ?S c ?now retry w2 = (b, w3)" by fastforce
  obtain d w4 where 4: "sweep_audit ?S c ?now w3 = (d, w4)" by fastforce
  obtain f w5 where 5: "PasteStore_CountActive E ?now w4 = (f, w5)" by fastforce
  have "quiet w3 w4" "quiet w4 w5"
    using sweep_audit_quiet [of w3 E l cfg c ?now] quiet_list(2) [of w4 E ?now] 4 5 by simp_all
  moreover from this have "quiet w3 w5" by (rule quiet_step_trans)
  moreover have "w' = w3 \<or> w' = w4 \<or> w' = w5"
    using assms Inr p 3 4 5
    by (auto simp: RunOnce_def clock_Now_def Let_def NewPasteStore_def split: sum.splits prod.splits)
  ultimately have "quiet w3 w'" by auto
  then show thesis using that(2) [of retry] 3 by simp
qed

lemma RunOnce_step:
  assumes "world_ok E w" and "RunOnce (live_sweeper E l cfg) c w = (r, w')" and "now = e_clock E (w_tick w)"
  obtains ids w1 row where "bodies_step E (expired_ids E now w) (set ids) w w1" "set ids \<subseteq> expired_ids E now w"
    "w_redis w' = w_redis w1" "w_tick w1 \<le> w_tick w'" "world_ok E w'" "w_gate w' = w_gate w"
    "\<And>i. row i = paste_row w i \<or> i \<in> set ids \<and> row i = map_option (mark_expired E now) (paste_row w i)"
    "\<And>i. paste_row w' i = row i \<or> paste_row w' i = None \<and>
      (\<exists>m. row i = Some m \<and> 0 < sc_MetadataRetentionDays cfg \<and> completed m \<and>
        pm_CreatedAt m < e_pg_time E (days_before now (sc_MetadataRetentionDays cfg)))"
proof -
  obtain a w2 where ex: "sweep_expire (live_sweeper E l cfg) c now (tick w) = (a, w2)" by fastforce
  have ok: "world_ok E (tick w)" using assms(1) by simp
  obtain ids w1 where e: "bodies_step E (expired_ids E now (tick w)) (set ids) (tick w) w1" "set ids \<subseteq> expired_ids E now (tick w)"
    "w_redis w2 = w_redis w1" "w_tick w1 \<le> w_tick w2" "world_ok E w2" "w_gate w2 = w_gate (tick w)"
    "\<And>i. paste_row w2 i = paste_row (tick w) i \<or> i \<in> set ids \<and> paste_row w2 i = map_option (mark_expired E now) (paste_row (tick w) i)"
    using sweep_expire_step [OF ok ex] by blast
  have first: "bodies_step E (expired_ids E now w) (set ids) w w1"
    using bodies_step_trans [OF world_okD(1) [OF assms(1)] bodies_step_quiet [where w = w and w' = "tick w"] e(1)] by simp
  note ids = e(2) [unfolded paste_row_tick] and rows = e(7) [unfolded paste_row_tick]
  consider "quiet w2 w'" | retry where "quiet (snd (sweep_metadata (live_sweeper E l cfg) c now retry w2)) w'"
    using RunOnce_tail [OF assms(2) ex [unfolded assms(3)]] assms(3) by blast
  then show thesis
  proof cases
    case 1
    then have same: "paste_row w' = paste_row w2" by (simp add: quiet_def paste_row_def fun_eq_iff)
    show thesis
      by (rule that [OF first ids _ _ _ _ rows])
        (use 1 e quiet_world_ok [OF 1, of E] in \<open>simp_all add: quiet_def same\<close>)
  next
    case (2 retry)
    let ?w3 = "snd (sweep_metadata (live_sweeper E l cfg) c now retry w2)"
    note m = sweep_metadata_step [OF e(5) refl, where l = l and cfg = cfg and c = c and now = now and retry = retry]
    have same: "paste_row w' = paste_row ?w3" using 2 by (simp add: quiet_def paste_row_def fun_eq_iff)
    show thesis
    proof (rule that [OF first ids _ _ _ _ rows])
      show "w_redis w' = w_redis w1" "w_tick w1 \<le> w_tick w'" "w_gate w' = w_gate w" "world_ok E w'"
        using 2 e(3,4,6) m(1-4) quiet_world_ok [OF 2, of E] by (simp_all add: quiet_def)
    qed (simp add: same m(5))
  qed
qed

section \<open>A pass while the services answer\<close>

lemma healthy_quiet: "healthy E w \<Longrightarrow> quiet w w' \<Longrightarrow> healthy E w'"
  by (rule healthy_later) (simp_all add: quiet_def)

lemma sweep_bodies_healthy:
  "healthy E w \<Longrightarrow> \<exists>w'. sweep_bodies (live_sweeper E l cfg) c now ms w = ((map pm_ID ms, False), w') \<and> healthy E w'"
proof (induction ms arbitrary: w)
  case (Cons m ms)
  define ev where "ev = sweep_event now PasteExpired (Some (pm_ID m))
    [(''expires_at'', DTime (pm_ExpiresAt m)), (''password_protected'', DBool (pm_PasswordProtected m))]"
  obtain w1 where del: "BodyStore_Delete E (pm_ID m) w = (Inr (), w1)"
    using body_ops_healthy(6) [OF Cons.prems] by (metis prod.collapse)
  then have "healthy E w1" using body_ops_healthy(3) [OF Cons.prems, of "pm_ID m"] by simp
  then have "healthy E (live_sink E l c ev w1)" by (rule healthy_quiet) simp
  from Cons.IH [OF this] del show ?case by (auto simp: NewBodyStore_def ev_def)
qed simp

lemma healthy_mark:
  assumes "healthy E w"
  shows "fst (PasteStore_MarkExpiredAudited E ids now w) = Inr ()" "healthy E (snd (PasteStore_MarkExpiredAudited E ids now w))"
    "i \<in> set ids \<Longrightarrow> paste_row (snd (PasteStore_MarkExpiredAudited E ids now w)) i = map_option (mark_expired E now) (paste_row w i)"
proof -
  let ?u = "update_pastes (\<lambda>m. pm_ID m \<in> set ids \<and> pm_ExpiredAuditedAt m = None) (\<lambda>_. None)
             (\<lambda>m. m\<lparr>pm_ExpiredAuditedAt := Some (e_pg_time E now)\<rparr>) (tick w)"
  have u: "fst ?u = Inr ()" by (simp add: update_pastes_def map_filter_def)
  have mark: "PasteStore_MarkExpiredAudited E ids now w = (if ids = [] then (Inr (), w) else ?u)"
    by (simp add: PasteStore_MarkExpiredAudited_def db_call_healthy [OF assms])
  show "fst (PasteStore_MarkExpiredAudited E ids now w) = Inr ()" by (simp add: mark u)
  show "healthy E (snd (PasteStore_MarkExpiredAudited E ids now w))"
    using assms healthy_later [OF assms, of "snd ?u"] by (simp add: mark)
  assume i: "i \<in> set ids"
  have "?u = (Inr (), snd ?u)" using u by (simp add: prod_eq_iff)
  then have "paste_row (snd ?u) i = map_option (\<lambda>m. if pm_ID m \<in> set ids \<and> pm_ExpiredAuditedAt m = None
      then m\<lparr>pm_ExpiredAuditedAt := Some (e_pg_time E now)\<rparr> else m) (paste_row (tick w) i)"
    by (rule paste_row_update_Inr) simp
  with i show "paste_row (snd (PasteStore_MarkExpiredAudited E ids now w)) i = map_option (mark_expired E now) (paste_row w i)"
    by (cases "paste_row w i") (auto simp: mark mark_expired_def dest: paste_row_ID)
qed
lemma healthy_purges:
  assumes "healthy E w"
  shows "\<exists>n. fst (PasteStore_PurgeCompletedOlderThan E t w) = Inr n" "\<exists>n. fst (AuditStore_PurgeOlderThan E t w) = Inr n"
  by (simp_all add: PasteStore_PurgeCompletedOlderThan_def AuditStore_PurgeOlderThan_def db_call_healthy [OF assms] delete_pastes_def)

lemma sweep_recorded_fst: "fst (sweep_recorded S c now ev purge w) = fst (purge w)"
  by (auto simp: sweep_recorded_def bindR_def split: prod.splits sum.splits)

lemma healthy_phases:
  assumes "healthy E w"
  shows "\<exists>n. fst (sweep_metadata (live_sweeper E l cfg) c now retry w) = Inr n"
    "\<exists>n. fst (sweep_audit (live_sweeper E l cfg) c now w) = Inr n"
  using healthy_purges [OF assms]
  by (auto simp: sweep_metadata_def sweep_audit_def sweep_recorded_fst NewPasteStore_def Let_def)

definition sweep_batch :: "'r env \<Rightarrow> sweeper_Config \<Rightarrow> gtime \<Rightarrow> 'r world \<Rightarrow> PasteMeta list" where
  "sweep_batch E cfg now w =
     take (if 0 < sc_Batch cfg then nat (sc_Batch cfg) else 500)
       (soonest_expiry_first (filter (expired_row E now) (w_pastes w)))"

lemma ListExpired_healthy:
  assumes "healthy E w"
  shows "PasteStore_ListExpiredUnaudited E now (sc_Batch (sw_cfg (live_sweeper E l cfg))) w = (Inr (sweep_batch E cfg now w), tick w)"
proof -
  have "(\<lambda>m. pm_ExpiresAt m \<le> e_pg_time E now \<and> pm_DeletedAt m = None \<and> pm_ExpiredAuditedAt m = None) = expired_row E now"
    by (simp add: expired_row_def fun_eq_iff)
  then show ?thesis
    by (simp add: PasteStore_ListExpiredUnaudited_def db_call_healthy [OF assms] select_page_def sweep_batch_def
        live_sweeper_def sweeper_New_def Let_def)
qed

lemma sweep_expire_healthy:
  assumes "world_ok E w" and "healthy E w"
  obtains retry w' where "sweep_expire (live_sweeper E l cfg) c now w = (Inr (int (length (sweep_batch E cfg now w)), retry), w')"
    "world_ok E w'" "healthy E w'" "w_tick w \<le> w_tick w'"
    "\<And>m t. m \<in> set (sweep_batch E cfg now w) \<Longrightarrow> rnow E w' \<le> t \<Longrightarrow>
       body_held E w' t (pm_ID m) = None \<and> paste_row w' (pm_ID m) = Some (mark_expired E now m)"
proof -
  let ?S = "live_sweeper E l cfg" and ?b = "sweep_batch E cfg now w"
  note list = ListExpired_healthy [OF assms(2), of now l cfg]
  have ok0: "world_ok E (tick w)" "healthy E (tick w)" using assms healthy_tick by auto
  obtain w1 where b: "sweep_bodies ?S c now ?b (tick w) = ((map pm_ID ?b, False), w1)" "healthy E w1"
    using sweep_bodies_healthy [OF ok0(2)] by blast
  note step = sweep_bodies_step [OF ok0(1) b(1)]
  define w' where "w' = snd (PasteStore_MarkExpiredAudited E (map pm_ID ?b) now w1)"
  have mark: "PasteStore_MarkExpiredAudited E (map pm_ID ?b) now w1 = (Inr (), w')"
    using healthy_mark(1) [OF b(2)] by (simp add: w'_def prod_eq_iff)
  have ok1: "world_ok E w1" using ok0(1) bodies_stepD(1,2) [OF step] by (metis world_ok_cong)
  have rows: "paste_row w1 (pm_ID m) = Some m" if "m \<in> set ?b" for m
  proof -
    have "m \<in> set (w_pastes w)"
      using in_set_takeD [OF that [unfolded sweep_batch_def]] by (simp add: soonest_expiry_first_def)
    moreover have "distinct (map pm_ID (w_pastes w))" using world_okD(3) [OF assms(1)] by (simp add: pastes_ok_def)
    ultimately show ?thesis using bodies_stepD(1) [OF step] by (simp add: paste_row_def find_ID)
  qed
  note keeps = Mark_keeps [where E = E and ids = "map pm_ID ?b" and now = now and w = w1, folded w'_def]
  show thesis
  proof (rule that)
    show "sweep_expire ?S c now w = (Inr (int (length ?b), sc_Batch (sw_cfg ?S) \<le> int (length ?b)), w')"
      using list b(1) mark
      by (cases "?b = []") (simp_all add: sweep_expire_def bindR_def NewPasteStore_def PasteStore_MarkExpiredAudited_def)
    show "world_ok E w'" "healthy E w'" using PasteStore_world_ok(4) [OF ok1] healthy_mark(2) [OF b(2)] by (simp_all add: w'_def)
    show "w_tick w \<le> w_tick w'" using bodies_stepD(4) [OF step] keeps(3) by simp
    show "body_held E w' t (pm_ID m) = None \<and> paste_row w' (pm_ID m) = Some (mark_expired E now m)"
      if "m \<in> set ?b" "rnow E w' \<le> t" for m t
    proof
      have "rnow E w1 \<le> t" using rnow_mono [OF world_okD(1) [OF assms(1)] keeps(3)] that(2) by simp
      then show "body_held E w' t (pm_ID m) = None"
        using bodies_stepD(7) [OF step, of t "pm_ID m"] that(1) keeps(1) by (simp add: body_held_def)
      show "paste_row w' (pm_ID m) = Some (mark_expired E now m)"
        using healthy_mark(3) [OF b(2), of "pm_ID m" "map pm_ID ?b" now] rows that(1) by (simp add: w'_def)
    qed
  qed
qed
section \<open>Properties\<close>

text \<open>
  C39. A pass of the sweeper is safe, whatever becomes of its calls. The body of a paste is touched only
  when the paste has expired; a row changes only to record the expiry of a paste whose body is gone by
  then, or to be removed; and a row is removed only when retention is on, the row is older than it, and
  the paste was deleted or its expiry was recorded. So no live paste loses its body or its row.
\<close>

theorem sweep_safe:
  assumes "world_ok E w" and "RunOnce (live_sweeper E l cfg) c w = (r, w')" and "now = e_clock E (w_tick w)"
    and "paste_row w i = Some m" and "rnow E w' \<le> t"
  shows "(\<not> expired_row E now m \<longrightarrow> body_held E w' t i = body_held E w t i) \<and>
    (paste_row w' i = Some m \<or>
     expired_row E now m \<and> body_held E w' t i = None \<and> paste_row w' i \<in> {Some (mark_expired E now m), None} \<or>
     completed m \<and> paste_row w' i = None) \<and>
    (paste_row w' i = None \<longrightarrow> 0 < sc_MetadataRetentionDays cfg \<and>
       pm_CreatedAt m < e_pg_time E (days_before now (sc_MetadataRetentionDays cfg))) \<and>
    world_ok E w'"
proof (cases rule: RunOnce_step [OF assms(1-3)])
  case (1 ids w1 row)
  note b = bodies_stepD [OF 1(1)]
  have t: "rnow E w1 \<le> t" using rnow_mono [OF world_okD(1) [OF assms(1)] 1(4)] assms(5) by simp
  have held: "body_held E w' t i = body_held E w1 t i" using 1(3) by (simp add: body_held_def)
  have created: "pm_CreatedAt (mark_expired E now m) = pm_CreatedAt m" by (simp add: mark_expired_def)
  have live: "\<not> expired_row E now m \<Longrightarrow> body_held E w' t i = body_held E w t i" "i \<in> set ids \<Longrightarrow> body_held E w' t i = None"
    "i \<in> set ids \<Longrightarrow> expired_row E now m"
    using b(6,7) [OF t] held 1(2) assms(4) by auto
  from 1(7) [of i] assms(4) consider "row i = Some m" | "i \<in> set ids" "row i = Some (mark_expired E now m)" by auto
  then show ?thesis
    using 1(8) [of i] 1(5) live by cases (auto simp: created)
qed

definition swept_row :: "uuid \<Rightarrow> gtime \<Rightarrow> PasteMeta" where
  "swept_row i x =
     \<lparr>pm_ID = i, pm_OwnerID = 7, pm_CreatedAt = 0, pm_ExpiresAt = x, pm_TTLSeconds = 3600, pm_SizeBytes = 3,
      pm_HashAlgo = ''sha256'', pm_ContentHash = [], pm_PasswordProtected = False, pm_KEKID = [], pm_ViewCount = 0,
      pm_ExpiredAuditedAt = None, pm_DeletedAt = None, pm_DeletedBy = None\<rparr>"

definition swept_world :: "mem world" where
  "swept_world = sample_world1\<lparr>w_pastes := [swept_row 1 3600000000000, swept_row 2 0]\<rparr>"

definition sample_sweep :: sweeper_Config where
  "sample_sweep = \<lparr>sc_Interval = 0, sc_MetadataRetentionDays = 1, sc_AuditRetentionDays = 1, sc_Batch = 0\<rparr>"

lemma swept_world_ok: "world_ok sample_env swept_world" "healthy sample_env swept_world"
  using sample_world1_ok
  by (auto simp: world_ok_def swept_world_def pastes_ok_def paste_row_ok_def int4_def sample_world1_def sample_user_def healthy_def swept_row_def)

lemma swept_world_live: "paste_row swept_world 1 = Some (swept_row 1 3600000000000)" "\<not> completed (swept_row 1 3600000000000)"
  "\<not> expired_row sample_env (e_clock sample_env (w_tick swept_world)) (swept_row 1 3600000000000)"
  by (simp_all add: paste_row_def swept_world_def swept_row_def completed_def expired_row_def sample_env_def sample_world1_def sample_world_def)

theorem sweep_safe_witness:
  "paste_row (snd (RunOnce (live_sweeper sample_env sample_live sample_sweep) background swept_world)) 1 = Some (swept_row 1 3600000000000)"
  using sweep_safe [OF swept_world_ok(1) prod.collapse [symmetric] refl swept_world_live(1) order.refl, of sample_live sample_sweep background]
    swept_world_live(2,3) by simp


text \<open>
  C40. While the services answer, a pass succeeds and makes progress: it handles the first batch of the
  expired pastes, soonest expiry first, after it their bodies are gone and their rows are marked (or
  already past retention and removed), and it reports how many they were and how many pastes are live.
\<close>

theorem sweep_completes:
  assumes "world_ok E w" and "healthy E w" and "now = e_clock E (w_tick w)"
  shows "\<exists>st w'. RunOnce (live_sweeper E l cfg) c w = ((st, None), w') \<and>
    ss_Expired st = int (length (sweep_batch E cfg now w)) \<and>
    ss_Active st = int (length (filter (\<lambda>m. e_pg_time E now < pm_ExpiresAt m \<and> pm_DeletedAt m = None) (w_pastes w'))) \<and>
    (\<forall>m t. m \<in> set (sweep_batch E cfg now w) \<longrightarrow> rnow E w' \<le> t \<longrightarrow>
       body_held E w' t (pm_ID m) = None \<and> paste_row w' (pm_ID m) \<in> {Some (mark_expired E now m), None})"
proof -
  let ?S = "live_sweeper E l cfg"
  have ok: "world_ok E (tick w)" "healthy E (tick w)" using assms healthy_tick by auto
  have same: "sweep_batch E cfg now (tick w) = sweep_batch E cfg now w" by (simp add: sweep_batch_def)
  obtain retry w2 where 2: "sweep_expire ?S c now (tick w) = (Inr (int (length (sweep_batch E cfg now w)), retry), w2)"
    "world_ok E w2" "healthy E w2"
    "\<And>m t. m \<in> set (sweep_batch E cfg now w) \<Longrightarrow> rnow E w2 \<le> t \<Longrightarrow>
       body_held E w2 t (pm_ID m) = None \<and> paste_row w2 (pm_ID m) = Some (mark_expired E now m)"
    using sweep_expire_healthy [OF ok, of l cfg c now] unfolding same by metis
  obtain p w3 where 3: "sweep_metadata ?S c now retry w2 = (Inr p, w3)"
    using healthy_phases(1) [OF 2(3), of l cfg c now retry] by (metis prod.collapse)
  note m = sweep_metadata_step [OF 2(2) refl, where l = l and cfg = cfg and c = c and now = now and retry = retry, unfolded 3 snd_conv]
  have h3: "healthy E w3" using healthy_later [OF 2(3) m(3,2)] .
  obtain q w4 where 4: "sweep_audit ?S c now w3 = (Inr q, w4)"
    using healthy_phases(2) [OF h3, of l cfg c now] by (metis prod.collapse)
  have q4: "quiet w3 w4" using sweep_audit_quiet [of w3 E l cfg c now] 4 by simp
  have 5: "PasteStore_CountActive E now w4 =
      (Inr (int (length (filter (\<lambda>m. e_pg_time E now < pm_ExpiresAt m \<and> pm_DeletedAt m = None) (w_pastes w4)))), tick w4)"
    by (simp add: PasteStore_CountActive_def db_call_healthy [OF healthy_quiet [OF h3 q4]])
  have run: "RunOnce ?S c w = ((\<lparr>ss_Expired = int (length (sweep_batch E cfg now w)), ss_MetadataPurged = p, ss_AuditPurged = q,
      ss_Active = int (length (filter (\<lambda>m. e_pg_time E now < pm_ExpiresAt m \<and> pm_DeletedAt m = None) (w_pastes w4)))\<rparr>, None), tick w4)"
    using 2(1) 3 4 5 by (simp add: RunOnce_def clock_Now_def NewPasteStore_def zero_stats_def assms(3))
  have "body_held E (tick w4) t (pm_ID r) = None \<and> paste_row (tick w4) (pm_ID r) \<in> {Some (mark_expired E now r), None}"
    if "r \<in> set (sweep_batch E cfg now w)" "rnow E (tick w4) \<le> t" for r t
  proof
    have "w_tick w2 \<le> w_tick (tick w4)" using m(3) q4 by (simp add: quiet_def)
    then have "rnow E w2 \<le> t" using rnow_mono [OF world_okD(1) [OF assms(1)], of w2 "tick w4"] that(2) by simp
    note r = 2(4) [OF that(1) this]
    show "body_held E (tick w4) t (pm_ID r) = None" using r q4 m(1) by (simp add: body_held_def quiet_def)
    show "paste_row (tick w4) (pm_ID r) \<in> {Some (mark_expired E now r), None}"
      using r q4 m(5) [of "pm_ID r"] by (auto simp: quiet_def paste_row_def)
  qed
  then show ?thesis unfolding run by auto
qed

theorem sweep_completes_witness:
  "ss_Expired (fst (fst (RunOnce (live_sweeper sample_env sample_live sample_sweep) background swept_world))) = 1 \<and>
   snd (fst (RunOnce (live_sweeper sample_env sample_live sample_sweep) background swept_world)) = None"
proof -
  have "sweep_batch sample_env sample_sweep (e_clock sample_env (w_tick swept_world)) swept_world = [swept_row 2 0]"
    by (simp add: sweep_batch_def swept_world_def soonest_expiry_first_def expired_row_def swept_row_def sample_env_def
        sample_sweep_def sample_world1_def sample_world_def)
  then show ?thesis
    using sweep_completes [OF swept_world_ok refl, of sample_live sample_sweep background] by auto
qed

end
