(* ===== verification/HttpProps.thy ===== *)
theory HttpProps
  imports Router LocalAuth Sweeper
begin

text \<open>
  Properties of the whole HTTP handler over any ports: every request is answered with a known status and
  the security headers, protected routes are not reached without a session and a CSRF token, and the
  address of the caller is not chosen by the caller.
\<close>

section \<open>What a handler does to the response\<close>

text \<open>The headers in \<open>req\<close> are set, and what has been sent has one of the statuses and these headers.\<close>

definition headers_hold :: "(string \<times> string) list \<Rightarrow> (string \<times> string) list \<Rightarrow> bool" where
  "headers_hold req hs \<longleftrightarrow> list_all (\<lambda>(k, v). map_of hs k = Some v) req"

definition writer_ok :: "int set \<Rightarrow> (string \<times> string) list \<Rightarrow> writer \<Rightarrow> bool" where
  "writer_ok C req w \<longleftrightarrow>
     headers_hold req (wr_Header w) \<and>
     (case wr_sent w of None \<Rightarrow> True | Some (code, hs, _) \<Rightarrow> code \<in> C \<and> headers_hold req hs)"

definition w_keeps :: "int set \<Rightarrow> (string \<times> string) list \<Rightarrow> (writer \<Rightarrow> writer) \<Rightarrow> bool" where
  "w_keeps C req f \<longleftrightarrow> (\<forall>w. writer_ok C req w \<longrightarrow> writer_ok C req (f w))"

definition h_keeps :: "int set \<Rightarrow> (string \<times> string) list \<Rightarrow> ('r conn, 'a) op \<Rightarrow> bool" where
  "h_keeps C req m \<longleftrightarrow> (\<forall>c. writer_ok C req (cn_w c) \<longrightarrow> writer_ok C req (cn_w (snd (m c))))"

named_theorems http_keeps

text \<open>A header that is not among the required ones, or has the required value, may be set.\<close>

definition settable :: "(string \<times> string) list \<Rightarrow> string \<Rightarrow> string \<Rightarrow> bool" where
  "settable req k v \<longleftrightarrow> list_all (\<lambda>(k', v'). k' = k \<longrightarrow> v' = v) req"

lemma Header_Set_ok: "settable req k v \<Longrightarrow> writer_ok C req w \<Longrightarrow> writer_ok C req (Header_Set k v w)"
  by (auto simp: writer_ok_def Header_Set_def headers_hold_def settable_def list_all_iff update_conv' split: option.splits)

lemma send_ok: "code \<in> C \<Longrightarrow> writer_ok C req w \<Longrightarrow> writer_ok C req (send code w)"
  by (auto simp: writer_ok_def send_def)

lemma WriteHeader_ok: "code \<in> C \<Longrightarrow> writer_ok C req w \<Longrightarrow> writer_ok C req (WriteHeader code w)"
  unfolding WriteHeader_def by (rule send_ok) (simp_all add: writer_ok_def)

lemma Write_ok: "200 \<in> C \<Longrightarrow> writer_ok C req w \<Longrightarrow> writer_ok C req (Write b w)"
  using send_ok [of 200 C req w] by (simp add: Write_def Let_def writer_ok_def)

lemma SetCookie_ok: "writer_ok C req w \<Longrightarrow> writer_ok C req (SetCookie k w)"
  by (simp add: writer_ok_def SetCookie_def)

lemma if_ok: "(b \<Longrightarrow> writer_ok C req x) \<Longrightarrow> (\<not> b \<Longrightarrow> writer_ok C req y) \<Longrightarrow> writer_ok C req (if b then x else y)"
  by simp

lemmas writer_steps = if_ok Header_Set_ok send_ok WriteHeader_ok Write_ok SetCookie_ok

lemma w_keepsI: "(\<And>w. writer_ok C req w \<Longrightarrow> writer_ok C req (f w)) \<Longrightarrow> w_keeps C req f"
  by (simp add: w_keeps_def)

text \<open>Composition.\<close>

lemma h_keeps_bindR [http_keeps]:
  "h_keeps C req m \<Longrightarrow> (\<And>x. h_keeps C req (k x)) \<Longrightarrow> h_keeps C req (bindR m k)"
  by (auto simp: h_keeps_def bindR_def split: prod.splits sum.splits)

lemma h_keeps_world [http_keeps]:
  "h_keeps C req (retR x)" "h_keeps C req (effect f)" "h_keeps C req (query g)" "h_keeps C req (call m)" "h_keeps C req (must m)"
  "h_keeps C req (log_line h lv msg attrs)" "h_keeps C req (inc_metric name)"
  by (auto simp: h_keeps_def effect_def query_def call_def must_def log_line_def inc_metric_def Let_def
      split: prod.splits sum.splits goerr.splits)

lemma h_keeps_respond [http_keeps]: "w_keeps C req f \<Longrightarrow> h_keeps C req (respond f)"
  by (simp add: h_keeps_def w_keeps_def respond_def)

lemma h_keeps_cases [http_keeps]:
  "(b \<Longrightarrow> h_keeps C req m) \<Longrightarrow> (\<not> b \<Longrightarrow> h_keeps C req n) \<Longrightarrow> h_keeps C req (if b then m else n)"
  "h_keeps C req n \<Longrightarrow> (\<And>x. h_keeps C req (f x)) \<Longrightarrow> h_keeps C req (case opt of None \<Rightarrow> n | Some x \<Rightarrow> f x)"
  "(\<And>e. h_keeps C req (l e)) \<Longrightarrow> (\<And>x. h_keeps C req (g x)) \<Longrightarrow> h_keeps C req (case res of Inl e \<Rightarrow> l e | Inr x \<Rightarrow> g x)"
  "(\<And>n. h_keeps C req (t n)) \<Longrightarrow> h_keeps C req i \<Longrightarrow> h_keeps C req (case be of BodyTooLarge n \<Rightarrow> t n | BodyInvalid \<Rightarrow> i)"
  "(\<And>x y. h_keeps C req (p x y)) \<Longrightarrow> h_keeps C req (case pr of (x, y) \<Rightarrow> p x y)"
  "h_keeps C req m1 \<Longrightarrow> h_keeps C req m2 \<Longrightarrow> h_keeps C req (case bo of True \<Rightarrow> m1 | False \<Rightarrow> m2)"
  by (auto split: option.splits sum.splits body_error.splits prod.splits bool.splits)

section \<open>The handlers keep the headers\<close>

definition resp_codes :: "mux_lib \<Rightarrow> int set" where
  "resp_codes mx = {200, 201, 204, 302, 400, 401, 403, 404, 405, 410, 413, 429, 500, 503, mx_code mx}"

definition common_headers :: "string list" where
  "common_headers = [''Content-Type'', ''Cache-Control'', ''Retry-After'', ''Location'', ''Content-Disposition'', ''Allow'', ''X-Request-Id'']"

definition req_ok :: "(string \<times> string) list \<Rightarrow> bool" where
  "req_ok req \<longleftrightarrow> (\<forall>k \<in> set common_headers. \<forall>v. settable req k v) \<and> settable req ''X-Content-Type-Options'' ''nosniff''"

lemma req_ok_security [simp]: "req_ok (security_headers b)" "req_ok []"
  by (auto simp: req_ok_def settable_def security_headers_def common_headers_def)

lemma req_okD:
  assumes "req_ok req"
  shows "settable req ''Content-Type'' v" "settable req ''Cache-Control'' v" "settable req ''Retry-After'' v" "settable req ''Location'' v"
    "settable req ''Content-Disposition'' v" "settable req ''Allow'' v" "settable req ''X-Request-Id'' v"
    "settable req ''X-Content-Type-Options'' ''nosniff''"
  using assms by (simp_all add: req_ok_def common_headers_def)

lemma resp_codes_200 [simp]: "200 \<in> resp_codes mx" "mx_code mx \<in> resp_codes mx"
  by (simp_all add: resp_codes_def)

lemma w_keeps_writes [http_keeps]:
  assumes "req_ok req"
  shows "code \<in> resp_codes mx \<Longrightarrow> w_keeps (resp_codes mx) req (writeJSON code v)"
    "code \<in> resp_codes mx \<Longrightarrow> w_keeps (resp_codes mx) req (writeError code c msg ds)"
    "code \<in> resp_codes mx \<Longrightarrow> w_keeps (resp_codes mx) req (http_Error msg code)"
    "w_keeps (resp_codes mx) req (Header_Set ''Retry-After'' x)"
    "w_keeps (resp_codes mx) req (Header_Set ''X-Request-Id'' x)"
    "w_keeps (resp_codes mx) req (setSessionCookie h sess)" "w_keeps (resp_codes mx) req (clearSessionCookie h)"
    "code \<in> resp_codes mx \<Longrightarrow> w_keeps (resp_codes mx) req (\<lambda>w. WriteHeader code (Header_Set ''Cache-Control'' x w))"
    "w_keeps (resp_codes mx) req (writeRaw h i content)"
    "code \<in> resp_codes mx \<Longrightarrow> w_keeps (resp_codes mx) req (Redirect r url code)"
    "code \<in> resp_codes mx \<Longrightarrow> w_keeps (resp_codes mx) req (\<lambda>w. Redirect r url code (Header_Set ''Cache-Control'' x w))"
  unfolding writeError_def writeJSON_def http_Error_def setSessionCookie_def clearSessionCookie_def writeRaw_def Redirect_def Let_def
  by (rule w_keepsI; intro writer_steps req_okD [OF assms]; simp)+

lemma fst_if_mem: "fst x \<in> S \<Longrightarrow> fst y \<in> S \<Longrightarrow> fst (if b then x else y) \<in> S"
  by simp

lemma mapError_codes: "fst (mapError err) \<in> resp_codes mx"
proof (cases "as_too_large err")
  case None
  then show ?thesis
    unfolding mapError_def resp_codes_def option.case by (simp only: option.case, intro fst_if_mem; simp only: fst_conv; blast)
qed (auto simp: mapError_def resp_codes_def)

lemma h_keeps_fail [http_keeps]:
  assumes "req_ok req"
  shows "h_keeps (resp_codes mx) req (fail h r err)"
proof -
  obtain st code ds where m: "mapError err = (st, code, ds)" by (metis prod_cases3)
  with mapError_codes [of err mx] have st: "st \<in> resp_codes mx" by simp
  show ?thesis unfolding fail_def m Let_def prod.case by (intro http_keeps assms st)
qed

lemma h_keeps_limited [http_keeps]:
  "req_ok req \<Longrightarrow> h_keeps (resp_codes mx) req nxt \<Longrightarrow> h_keeps (resp_codes mx) req (limited h r scope k nxt)"
  unfolding limited_def limit_def Let_def by (intro http_keeps; (simp add: resp_codes_def)?)

lemma h_keeps_auth_handlers:
  assumes "req_ok req"
  shows "h_keeps (resp_codes mx) req (login h r)" "h_keeps (resp_codes mx) req (logout h si r)" "h_keeps (resp_codes mx) req (me h si r)"
    "h_keeps (resp_codes mx) req (oidcStart h r)" "h_keeps (resp_codes mx) req (oidcCallback h r)"
  using assms unfolding login_def logout_def me_def oidcStart_def oidcCallback_def startSession_def Let_def
  by (intro http_keeps; simp add: resp_codes_def)+

lemma h_keeps_with_pathID [http_keeps]:
  "req_ok req \<Longrightarrow> (\<And>i. h_keeps (resp_codes mx) req (k i)) \<Longrightarrow> h_keeps (resp_codes mx) req (with_pathID h r k)"
  unfolding with_pathID_def by (intro http_keeps; simp add: resp_codes_def)

lemma h_keeps_paste_handlers:
  assumes "req_ok req"
  shows "h_keeps (resp_codes mx) req (createPaste h si r)" "h_keeps (resp_codes mx) req (getPaste h r)"
    "h_keeps (resp_codes mx) req (unlockPaste h r)" "h_keeps (resp_codes mx) req (rawPaste h r)"
    "h_keeps (resp_codes mx) req (verifyPaste h r)" "h_keeps (resp_codes mx) req (deletePaste h si r)"
  using assms
  unfolding createPaste_def create_checked_def getPaste_def unlockPaste_def unlock_read_def rawPaste_def verifyPaste_def deletePaste_def
  by (intro http_keeps; simp add: resp_codes_def)+

lemma h_keeps_other_handlers:
  assumes "req_ok req"
  shows "h_keeps (resp_codes mx) req (listMine h si r)" "h_keeps (resp_codes mx) req (adminList h si r)"
    "h_keeps (resp_codes mx) req (issueChallenge h si r)" "h_keeps (resp_codes mx) req (verifyChallenge h si r)"
    "h_keeps (resp_codes mx) req (getConfig h r)"
  using assms
  unfolding listMine_def adminList_def admin_page_def writeList_def issueChallenge_def verifyChallenge_def getConfig_def Let_def
  by (intro http_keeps; simp add: resp_codes_def)+

lemma h_keeps_denied:
  "req_ok req \<Longrightarrow> code \<in> {400, 401, 403, 404} \<Longrightarrow> h_keeps (resp_codes mx) req (respond (writeError code c msg ds))"
  by (intro http_keeps) (auto simp: resp_codes_def)

lemma h_keeps_guards [http_keeps]:
  assumes "req_ok req"
  shows "(\<And>r. h_keeps (resp_codes mx) req (f r)) \<Longrightarrow> h_keeps (resp_codes mx) req (requireAuth f r)"
    "(\<And>si r. h_keeps (resp_codes mx) req (g si r)) \<Longrightarrow> h_keeps (resp_codes mx) req (authed g r)"
    "(\<And>si r. h_keeps (resp_codes mx) req (g si r)) \<Longrightarrow> h_keeps (resp_codes mx) req (admined g r)"
    "(\<And>r. h_keeps (resp_codes mx) req (f r)) \<Longrightarrow> h_keeps (resp_codes mx) req (viewGate h f r)"
    "(\<And>r. h_keeps (resp_codes mx) req (f r)) \<Longrightarrow> h_keeps (resp_codes mx) req (small f r)"
    "(\<And>r. h_keeps (resp_codes mx) req (f r)) \<Longrightarrow> h_keeps (resp_codes mx) req (chain f [maxBody n] r)"
  unfolding authed_def admined_def requireAdmin_def requireAuth_def viewGate_def small_def chain_def maxBody_def
  by (simp_all add: h_keeps_world h_keeps_denied assms split: option.split)

lemma h_keeps_api_mux [http_keeps]:
  assumes "req_ok req"
  shows "h_keeps (resp_codes mx) req (api_mux h r)"
proof -
  have "h_keeps (resp_codes mx) req (f r)" if "(pat, ps, f) \<in> set (api_routes h)" for pat ps f r
    using that assms unfolding api_routes_def
    by (auto intro!: h_keeps_guards h_keeps_auth_handlers h_keeps_paste_handlers h_keeps_other_handlers)
  moreover have "find_route rs m ss = Some (vs, f) \<Longrightarrow> \<exists>pat ps. (pat, ps, f) \<in> set rs" for rs :: "'a route list" and m ss vs f
    by (induction rs m ss rule: find_route.induct) (auto split: if_splits option.splits)
  ultimately show ?thesis
    unfolding api_mux_def
    by (cases "find_route (api_routes h) (rq_Method r) (path_segments (mux_path r))")
       (auto intro!: h_keeps_denied assms, blast)
qed

lemma h_keeps_probes [http_keeps]:
  assumes "req_ok req"
  shows "h_keeps (resp_codes mx) req (HealthHandler r)" "h_keeps (resp_codes mx) req (ReadyHandler checks r)"
    "h_keeps (resp_codes mx) req (spaHandler files r)"
proof -
  have ready: "w_keeps (resp_codes mx) req (\<lambda>wr. Write b (if ok
      then Header_Set ''Cache-Control'' x (Header_Set ''Content-Type'' y wr)
      else WriteHeader 503 (Header_Set ''Cache-Control'' x (Header_Set ''Content-Type'' y wr))))" for b ok x y
    by (rule w_keepsI) (intro writer_steps req_okD [OF assms]; simp add: resp_codes_def)
  show "h_keeps (resp_codes mx) req (HealthHandler r)"
    unfolding HealthHandler_def by (intro h_keeps_respond w_keepsI writer_steps req_okD [OF assms]; simp)
  show "h_keeps (resp_codes mx) req (ReadyHandler checks r)"
    unfolding ReadyHandler_def Let_def h_keeps_def respond_def using ready
    by (auto simp: w_keeps_def split: prod.splits)
  show "h_keeps (resp_codes mx) req (spaHandler files r)"
    unfolding spaHandler_def Let_def
    by (intro h_keeps_cases h_keeps_respond w_keeps_writes [OF assms];
        (intro w_keepsI writer_steps req_okD [OF assms])?; simp add: resp_codes_def)
qed

lemma h_keeps_root_mux [http_keeps]:
  assumes "req_ok req"
  shows "h_keeps (resp_codes mx) req (root_mux mx h ready static r)"
proof -
  have "w_keeps (resp_codes mx) req (\<lambda>w. http_Error m 405 (Header_Set ''Allow'' a w))" for m a
    unfolding http_Error_def by (intro w_keepsI writer_steps req_okD [OF assms]; simp add: resp_codes_def)
  then show ?thesis
    unfolding root_mux_def Let_def
    by (intro h_keeps_cases h_keeps_probes h_keeps_api_mux h_keeps_respond w_keeps_writes assms; simp add: resp_codes_def)
qed

lemma recoverer_ok:
  assumes "req_ok req" "writer_ok (resp_codes mx) req (cn_w (snd (f r c)))"
  shows "writer_ok (resp_codes mx) req (cn_w (snd (recoverer lg f r c)))"
proof -
  have w: "w_keeps (resp_codes mx) req (writeError 500 ''internal'' ''internal error'' [])"
    by (intro w_keeps_writes assms) (simp add: resp_codes_def)
  show ?thesis
    using assms(2) w unfolding w_keeps_def recoverer_def Let_def respond_def
    by (cases "f r c") (fastforce split: sum.splits)
qed

text \<open>The middlewares inside the security headers.\<close>

lemma h_keeps_middleware [http_keeps]:
  assumes "req_ok req" "\<And>r. h_keeps (resp_codes mx) req (f r)"
  shows "h_keeps (resp_codes mx) req (csrf f r)" "h_keeps (resp_codes mx) req (loadSession h f r)"
    "h_keeps (resp_codes mx) req (accessLog E lg f r)" "h_keeps (resp_codes mx) req (httpMetrics f r)"
    "h_keeps (resp_codes mx) req (recoverer lg f r)" "h_keeps (resp_codes mx) req (requestID E f r)"
    "h_keeps (resp_codes mx) req (clientIP ps f r)"
proof -
  have upd: "h_keeps (resp_codes mx) req (\<lambda>c. (Inr (), c\<lparr>cn_world := g c\<rparr>))" for g
    by (simp add: h_keeps_def)
  show "h_keeps (resp_codes mx) req (csrf f r)"
    unfolding csrf_def Let_def by (intro h_keeps_cases h_keeps_denied assms; simp)
  show "h_keeps (resp_codes mx) req (loadSession h f r)"
    unfolding loadSession_def by (intro http_keeps assms)
  show "h_keeps (resp_codes mx) req (accessLog E lg f r)" "h_keeps (resp_codes mx) req (httpMetrics f r)"
    unfolding accessLog_def httpMetrics_def by (intro http_keeps assms upd)+
  show "h_keeps (resp_codes mx) req (requestID E f r)" "h_keeps (resp_codes mx) req (clientIP ps f r)"
    unfolding requestID_def clientIP_def Let_def by (intro http_keeps assms)+
  show "h_keeps (resp_codes mx) req (recoverer lg f r)"
    using assms(2) [of r] by (auto simp: h_keeps_def intro!: recoverer_ok assms)
qed

section \<open>Every request is answered\<close>

lemma security_headers_set:
  "headers_hold (security_headers b) (wr_Header (fold (\<lambda>(k, v). Header_Set k v) (security_headers b) w))"
  by (simp add: headers_hold_def security_headers_def Header_Set_def update_conv')

lemma securityHeaders_ok:
  assumes "wr_sent (cn_w c) = None" "\<And>r. h_keeps C (security_headers b) (f r)"
  shows "writer_ok C (security_headers b) (cn_w (snd (securityHeaders b f r c)))"
proof -
  have "wr_sent (fold (\<lambda>(k, v). Header_Set k v) hs w) = wr_sent w" for hs w
    by (induction hs arbitrary: w) (auto simp: Header_Set_def)
  with assms show ?thesis
    by (simp add: securityHeaders_def bindR_def respond_def h_keeps_def writer_ok_def security_headers_set)
qed

lemma inner_keeps:
  "h_keeps (resp_codes mx) (security_headers b)
     (httpMetrics (accessLog E lg (loadSession h (csrf (root_mux mx h ready static)))) r)"
  by (intro h_keeps_middleware h_keeps_root_mux req_ok_security)

lemma chain_writer:
  assumes "wr_sent (cn_w c) = None" "e_rand E (w_tick (cn_world c)) 12 \<noteq> None"
  shows "writer_ok (resp_codes mx) (security_headers (hsts_on (hs_cfg h))) (cn_w (snd (NewHandler E mx h ready static r c)))"
  unfolding NewHandler_def chain_def foldr.simps o_apply id_apply
  using assms
  by (intro recoverer_ok req_ok_security)
     (auto simp: requestID_def clientIP_def Let_def bindR_def must_def randomToken_def respond_def Header_Set_def
        intro!: securityHeaders_ok inner_keeps)


section \<open>Guarded routes\<close>

text \<open>What \<open>loadSession\<close> finds out before it calls the next handler.\<close>

definition attempt :: "('s, 'a) op \<Rightarrow> ('s, 'a res) op" where
  "attempt m w = (case m w of (Inl (EPanic s), w') \<Rightarrow> (Inl (EPanic s), w') | (a, w') \<Rightarrow> (Inr a, w'))"

definition session_lookup :: "'r handlers \<Rightarrow> request \<Rightarrow> ('r world, sessionInfo option) op" where
  "session_lookup h r =
     (case presented_cookie r of
        None \<Rightarrow> retR None
      | Some v \<Rightarrow>
          bindR (attempt (sp_Get (hs_sessions h) v)) (\<lambda>got.
            case got of
              Inl err \<Rightarrow> (\<lambda>w. (Inr None, if errors_Is err ErrSessionNotFound then w
                                       else log_at (hs_log h) LevelWarn ''session lookup failed'' [(''err'', LErr err)] w))
            | Inr sess \<Rightarrow>
                bindR (attempt (up_GetByID (hs_users h) (se_UserID sess))) (\<lambda>found.
                  if (case found of Inr u \<Rightarrow> us_Disabled u | Inl _ \<Rightarrow> True)
                  then bindR (attempt (sp_Delete (hs_sessions h) (se_ID sess))) (\<lambda>_. retR None)
                  else bindR (attempt (sp_Touch (hs_sessions h) (se_ID sess) (cf_SessionIdleTTL (hs_cfg h)))) (\<lambda>_.
                       retR (map_option (\<lambda>u. \<lparr>si_Session = sess, si_User = u\<rparr>) (case found of Inr u \<Rightarrow> Some u | Inl _ \<Rightarrow> None))))))"

definition on_world :: "('r world, 'a) op \<Rightarrow> ('r conn, 'a) op" where
  "on_world m c = (case m (cn_world c) of (a, w) \<Rightarrow> (a, c\<lparr>cn_world := w\<rparr>))"

lemma call_on_world: "call m = on_world (attempt m)"
  by (auto simp: fun_eq_iff call_def attempt_def on_world_def Let_def split: prod.splits sum.splits goerr.splits)

definition found_session :: "request \<Rightarrow> sessionInfo option \<Rightarrow> request" where
  "found_session r so = (case so of None \<Rightarrow> r | Some si \<Rightarrow> with_session r si)"

lemma loadSession_lookup:
  "loadSession h nxt r = bindR (on_world (session_lookup h r)) (\<lambda>so. nxt (found_session r so))"
proof (cases "presented_cookie r")
  case None
  then show ?thesis by (simp add: loadSession_def session_lookup_def fun_eq_iff bindR_def on_world_def retR_def found_session_def)
next
  case (Some v)
  show ?thesis
  proof
    fix c
    show "loadSession h nxt r c = bindR (on_world (session_lookup h r)) (\<lambda>so. nxt (found_session r so)) c"
      by (auto simp: Some loadSession_def session_lookup_def call_on_world bindR_def on_world_def retR_def found_session_def
          log_line_def effect_def split: prod.splits sum.splits option.splits)
  qed
qed

text \<open>Who may use a route.\<close>

datatype guard = Anyone | LoggedIn | AdminOnly

definition route_guards :: "'r handlers \<Rightarrow> (string \<times> segment list \<times> guard) list" where
  "route_guards h =
     (let view = (if cf_ViewRequiresAuth (hs_cfg h) then LoggedIn else Anyone)
      in [(''GET'', api_path [Lit ''config''], Anyone),
          (''POST'', api_path [Lit ''auth'', Lit ''login''], Anyone),
          (''POST'', api_path [Lit ''auth'', Lit ''logout''], LoggedIn),
          (''GET'', api_path [Lit ''auth'', Lit ''me''], LoggedIn),
          (''GET'', api_path [Lit ''auth'', Lit ''oidc'', Lit ''start''], Anyone),
          (''GET'', api_path [Lit ''auth'', Lit ''oidc'', Lit ''callback''], Anyone),
          (''POST'', api_path [Lit ''challenges''], LoggedIn),
          (''POST'', api_path [Lit ''challenges'', Wild ''id'', Lit ''verify''], LoggedIn),
          (''POST'', api_path [Lit ''pastes''], LoggedIn),
          (''GET'', api_path [Lit ''pastes'', Wild ''id''], view),
          (''DELETE'', api_path [Lit ''pastes'', Wild ''id''], LoggedIn),
          (''POST'', api_path [Lit ''pastes'', Wild ''id'', Lit ''unlock''], view),
          (''GET'', api_path [Lit ''pastes'', Wild ''id'', Lit ''raw''], view),
          (''POST'', api_path [Lit ''pastes'', Wild ''id'', Lit ''verify''], view),
          (''GET'', api_path [Lit ''me'', Lit ''pastes''], LoggedIn),
          (''GET'', api_path [Lit ''admin'', Lit ''pastes''], AdminOnly)])"

fun find_guard :: "(string \<times> segment list \<times> guard) list \<Rightarrow> string \<Rightarrow> string list \<Rightarrow> guard" where
  "find_guard [] m ss = Anyone"
| "find_guard ((pat, ps, g) # gs) m ss =
     (if method_matches pat m \<and> match_segments ps ss \<noteq> None then g else find_guard gs m ss)"

definition lets_in :: "guard \<Rightarrow> sessionInfo option \<Rightarrow> bool" where
  "lets_in g so \<longleftrightarrow>
     (case g of
        Anyone \<Rightarrow> True
      | LoggedIn \<Rightarrow> so \<noteq> None
      | AdminOnly \<Rightarrow> (case so of None \<Rightarrow> False | Some si \<Rightarrow> us_IsAdmin (si_User si)))"

definition csrf_refused :: "request \<Rightarrow> sessionInfo option \<Rightarrow> bool" where
  "csrf_refused r so \<longleftrightarrow>
     rq_Method r \<notin> {''GET'', ''HEAD'', ''OPTIONS''} \<and> HasPrefix (rq_Path r) ''/api/'' \<and> rq_Path r \<notin> csrfExempt \<and>
     (case so of None \<Rightarrow> False
      | Some si \<Rightarrow> Get (rq_Header r) ''X-Csrf-Token'' = [] \<or> Get (rq_Header r) ''X-Csrf-Token'' \<noteq> se_CSRFToken (si_Session si))"

definition refused :: "'r handlers \<Rightarrow> request \<Rightarrow> sessionInfo option \<Rightarrow> bool" where
  "refused h r so \<longleftrightarrow>
     csrf_refused r so \<or> \<not> lets_in (find_guard (route_guards h) (rq_Method r) (path_segments (mux_path r))) so"

text \<open>A handler that turns the request away with one of the statuses and does nothing else.\<close>

definition denies :: "int set \<Rightarrow> ('r conn, unit) op \<Rightarrow> bool" where
  "denies C m \<longleftrightarrow> (\<forall>c. \<exists>code w. m c = (Inr (), c\<lparr>cn_w := w\<rparr>) \<and> code \<in> C \<and>
     (wr_sent (cn_w c) = None \<longrightarrow> (\<exists>x. wr_sent w = Some (code, x))))"

lemma first_sent:
  assumes "wr_sent w = None"
  shows "\<exists>x. wr_sent (writeError code s msg ds w) = Some (code, x)" "\<exists>x. wr_sent (Redirect r url code w) = Some (code, x)"
  using assms by (simp_all add: writeError_def writeJSON_def Redirect_def Write_def WriteHeader_def send_def Header_Set_def Let_def)

lemma denies_respond:
  "code \<in> C \<Longrightarrow> denies C (respond (writeError code s msg ds))" "code \<in> C \<Longrightarrow> denies C (respond (Redirect r url code))"
  unfolding denies_def respond_def using first_sent by blast+

definition guarded :: "guard \<Rightarrow> 'r handler \<Rightarrow> bool" where
  "guarded g f \<longleftrightarrow> (\<forall>r. \<not> lets_in g (sessionFrom r) \<longrightarrow> denies {401, 403} (f r))"

lemma guarded_wrappers:
  "guarded Anyone f" "guarded LoggedIn (authed g)" "guarded AdminOnly (admined g)"
  "guarded (if cf_ViewRequiresAuth (hs_cfg h) then LoggedIn else Anyone) (viewGate h f)"
  by (auto simp: guarded_def lets_in_def authed_def admined_def requireAuth_def requireAdmin_def viewGate_def denies_respond
      split: option.splits)

lemma guarded_bodies:
  "guarded d f \<Longrightarrow> guarded d (chain f [maxBody n])" "guarded d f \<Longrightarrow> guarded d (small f)"
  by (simp_all add: guarded_def chain_def maxBody_def small_def sessionFrom_def)

lemma routes_guarded:
  "list_all2 (\<lambda>(pat, ps, f) (pat', ps', g). pat = pat' \<and> ps = ps' \<and> guarded g f) (api_routes h) (route_guards h)"
  unfolding api_routes_def route_guards_def Let_def
  by (simp add: guarded_wrappers guarded_bodies)

lemma find_guarded:
  assumes "list_all2 (\<lambda>(pat, ps, f) (pat', ps', g). pat = pat' \<and> ps = ps' \<and> guarded g f) rs gs"
    and "find_guard gs m ss \<noteq> Anyone"
  shows "\<exists>vs f. find_route rs m ss = Some (vs, f) \<and> guarded (find_guard gs m ss) f"
  using assms by (induction rs gs rule: list_all2_induct) (auto split: option.splits)

lemma guard_api:
  "find_guard (route_guards h) m ss \<noteq> Anyone \<Longrightarrow> length ss > 1 \<and> hd ss = ''api''"
proof -
  have api: "match_segments (api_path ps) ss = Some vs \<Longrightarrow> length ss > 1 \<and> hd ss = ''api''" for ps vs
    by (cases "(Lit ''api'' # Lit ''v1'' # ps, ss)" rule: match_segments.cases) (auto split: if_splits elim: match_segments.elims)
  have "list_all (\<lambda>(_, ps, _). \<exists>ps'. ps = api_path ps') (route_guards h)"
    by (simp add: route_guards_def Let_def)
  moreover have "list_all (\<lambda>(_, ps, _). \<exists>ps'. ps = api_path ps') gs \<Longrightarrow> find_guard gs m ss \<noteq> Anyone \<Longrightarrow> length ss > 1 \<and> hd ss = ''api''" for gs
    by (induction gs) (auto split: if_splits dest!: api)
  ultimately show "find_guard (route_guards h) m ss \<noteq> Anyone \<Longrightarrow> length ss > 1 \<and> hd ss = ''api''" by blast
qed

lemma denies_mono: "denies C m \<Longrightarrow> C \<subseteq> D \<Longrightarrow> denies D m"
  unfolding denies_def by blast

lemma root_mux_denies:
  assumes "\<not> lets_in (find_guard (route_guards h) (rq_Method r) (path_segments (mux_path r))) (sessionFrom r)"
  shows "denies {401, 403, mx_code mx} (root_mux mx h ready static r)"
proof -
  let ?g = "find_guard (route_guards h) (rq_Method r) (path_segments (mux_path r))"
  have g: "?g \<noteq> Anyone" using assms by (auto simp: lets_in_def)
  from find_guarded [OF routes_guarded g] obtain vs f
    where f: "find_route (api_routes h) (rq_Method r) (path_segments (mux_path r)) = Some (vs, f)" "guarded ?g f" by blast
  have "sessionFrom (r\<lparr>rq_PathValues := vs\<rparr>) = sessionFrom r" by (simp add: sessionFrom_def)
  with f(2) assms have "denies {401, 403} (f (r\<lparr>rq_PathValues := vs\<rparr>))" by (metis guarded_def)
  then have "denies {401, 403, mx_code mx} (api_mux h r)"
    by (auto simp: api_mux_def f(1) intro: denies_mono)
  with guard_api [OF g] show ?thesis
    by (cases "path_segments (mux_path r)" rule: remdups_adj.cases) (auto simp: root_mux_def Let_def denies_respond)
qed

lemma csrf_denies:
  assumes "refused h r (sessionFrom r)"
  shows "denies {401, 403, mx_code mx} (csrf (root_mux mx h ready static) r)"
proof (cases "csrf_refused r (sessionFrom r)")
  case True
  then show ?thesis by (auto simp: csrf_refused_def csrf_def Let_def denies_respond split: option.splits)
next
  case False
  with assms have "denies {401, 403, mx_code mx} (root_mux mx h ready static r)"
    by (simp add: refused_def root_mux_denies)
  then show ?thesis by (auto simp: csrf_def Let_def denies_respond split: option.splits)
qed

text \<open>The state of the services, without logs, metrics and the interaction counter.\<close>

definition app_data :: "'r world \<Rightarrow> 'r \<times> PasteMeta list \<times> UserRow list \<times> AuditRow list \<times> Gate" where
  "app_data w = (w_redis w, w_pastes w, w_users w, w_audit w, w_gate w)"

lemma app_data_simps [simp]:
  "app_data (tick w) = app_data w" "app_data (w\<lparr>w_metrics := m\<rparr>) = app_data w" "app_data (log_at lg lv msg attrs w) = app_data w"
  by (simp_all add: app_data_def tick_def log_at_def)

lemma accessLog_Inr:
  "nxt r (c\<lparr>cn_world := tick (cn_world c)\<rparr>) = (Inr (), c2) \<Longrightarrow>
   \<exists>w. accessLog E lg nxt r c = (Inr (), c2\<lparr>cn_world := w\<rparr>) \<and> app_data w = app_data (cn_world c2)"
  by (simp add: accessLog_def bindR_def query_def clock_Now_def, rule exI, rule conjI, rule refl, simp)

lemma httpMetrics_Inr:
  "nxt r c = (Inr (), c2) \<Longrightarrow> \<exists>w. httpMetrics nxt r c = (Inr (), c2\<lparr>cn_world := w\<rparr>) \<and> app_data w = app_data (cn_world c2)"
  by (simp add: httpMetrics_def bindR_def, rule exI, rule conjI, rule refl, simp)

text \<open>The request and the response when the session is looked up.\<close>

definition prepared_request :: "'r handlers \<Rightarrow> bytes \<Rightarrow> request \<Rightarrow> request" where
  "prepared_request h b r =
     (let ip = caller_ip (cf_TrustedProxyCIDRs (hs_cfg h)) r
      in r\<lparr>rq_Limit := None, rq_PathValues := [], rq_ctx := \<lparr>rx_id = RawURL_Encode b, rx_ip = ip,
             rx_info = WithRequestInfo background ip (Get (rq_Header r) ''User-Agent''), rx_session = None\<rparr>\<rparr>)"

definition prepared_writer :: "'r handlers \<Rightarrow> bytes \<Rightarrow> writer" where
  "prepared_writer h b =
     fold (\<lambda>(k, v). Header_Set k v) (security_headers (hsts_on (hs_cfg h))) (Header_Set ''X-Request-Id'' (RawURL_Encode b) new_writer)"

lemma prepare:
  assumes "e_rand E (w_tick w) 12 = Some b"
  shows "requestID E (clientIP (cf_TrustedProxyCIDRs (hs_cfg h)) (securityHeaders (hsts_on (hs_cfg h)) f))
           (r\<lparr>rq_ctx := fresh_ctx, rq_Limit := None, rq_PathValues := []\<rparr>) \<lparr>cn_w = new_writer, cn_world = w\<rparr> =
         f (prepared_request h b r) \<lparr>cn_w = prepared_writer h b, cn_world = tick w\<rparr>"
proof -
  have ip: "caller_ip ps (r\<lparr>rq_Limit := y, rq_PathValues := z, rq_ctx := x\<rparr>) = caller_ip ps r" for ps x y z
    by (simp add: caller_ip_def remote_host_def Let_def cong: option.case_cong if_cong)
  then show ?thesis
    using assms by (simp add: requestID_def clientIP_def securityHeaders_def bindR_def must_def randomToken_def respond_def
        Let_def prepared_request_def prepared_writer_def fresh_ctx_def)
qed

text \<open>What the handler behind the session lookup answers is what the server sends.\<close>

lemma ServeHTTP_inner:
  assumes "e_rand E (w_tick w) 12 = Some b" and "session_lookup h r (tick (tick w)) = (Inr so, w')"
    and "csrf (root_mux mx h ready static) (found_session (prepared_request h b r) so)
           \<lparr>cn_w = prepared_writer h b, cn_world = w'\<rparr> = (Inr (), c2)"
  shows "fst (ServeHTTP E mx h ready static r w) = send 200 (cn_w c2) \<and>
         app_data (snd (ServeHTTP E mx h ready static r w)) = app_data (cn_world c2)"
proof -
  define f where "f = loadSession h (csrf (root_mux mx h ready static))"
  let ?r = "prepared_request h b r" and ?c = "\<lparr>cn_w = prepared_writer h b, cn_world = tick w\<rparr>"
  have same: "session_lookup h ?r = session_lookup h r"
    by (simp add: session_lookup_def presented_cookie_def prepared_request_def Let_def)
  have "f ?r (?c\<lparr>cn_world := tick (cn_world ?c)\<rparr>) = (Inr (), c2)"
    using assms(2,3) same by (simp add: f_def loadSession_lookup bindR_def on_world_def)
  from accessLog_Inr [where nxt = f and c = ?c, OF this, of E "hs_log h"] obtain w1
    where 1: "accessLog E (hs_log h) f ?r ?c = (Inr (), c2\<lparr>cn_world := w1\<rparr>)"
      "app_data w1 = app_data (cn_world c2)" by blast
  from httpMetrics_Inr [where nxt = "accessLog E (hs_log h) f" and c = ?c, OF 1(1)] obtain w2
    where 2: "httpMetrics (accessLog E (hs_log h) f) ?r ?c = (Inr (), c2\<lparr>cn_world := w2\<rparr>)"
      "app_data w2 = app_data w1" by auto
  note 3 = trans [OF prepare [OF assms(1), of h "httpMetrics (accessLog E (hs_log h) f)" r] 2(1)]
  show ?thesis
    unfolding ServeHTTP_def NewHandler_def chain_def foldr.simps o_apply id_apply f_def [symmetric] recoverer_def 3
    using 1(2) 2(2) by (simp add: Let_def)
qed

lemma prepared_unsent: "wr_sent (prepared_writer h b) = None"
  by (simp add: prepared_writer_def security_headers_def Header_Set_def new_writer_def)

lemma deniesD:
  assumes "denies C m" and "wr_sent u = None"
  obtains code v x where "m \<lparr>cn_w = u, cn_world = w\<rparr> = (Inr (), \<lparr>cn_w = v, cn_world = w\<rparr>)" "code \<in> C" "wr_sent v = Some (code, x)"
proof -
  from assms(1) obtain code v where "m \<lparr>cn_w = u, cn_world = w\<rparr> = (Inr (), \<lparr>cn_w = u, cn_world = w\<rparr>\<lparr>cn_w := v\<rparr>)" "code \<in> C"
    "wr_sent u = None \<longrightarrow> (\<exists>x. wr_sent v = Some (code, x))"
    unfolding denies_def by (metis conn.select_convs(1))
  with assms(2) that show thesis by auto
qed

text \<open>C8. Requests the guards refuse do nothing: a request for a route that needs a session, without a
  session of an enabled account; a request for the administration, by another account; and a request with an
  unsafe method under \<^verbatim>\<open>/api/\<close> with a session but without its CSRF token are answered with 401 or 403 (or the
  redirect of an unclean path). Redis, the tables and the KDF gate are as the session lookup left them.\<close>

theorem refused_requests_change_nothing:
  assumes "e_rand E (w_tick w) 12 \<noteq> None" and "session_lookup h r (tick (tick w)) = (Inr so, w')" and "refused h r so"
  shows "(\<exists>code x. wr_sent (fst (ServeHTTP E mx h ready static r w)) = Some (code, x) \<and> code \<in> {401, 403, mx_code mx}) \<and>
         app_data (snd (ServeHTTP E mx h ready static r w)) = app_data w'"
proof -
  obtain b where b: "e_rand E (w_tick w) 12 = Some b" using assms(1) by blast
  let ?r = "found_session (prepared_request h b r) so"
  have "sessionFrom ?r = so" "rq_Method ?r = rq_Method r" "rq_Path ?r = rq_Path r" "rq_EscapedPath ?r = rq_EscapedPath r"
    "rq_Header ?r = rq_Header r"
    by (cases so; simp add: found_session_def with_session_def sessionFrom_def prepared_request_def Let_def)+
  with assms(3) have "refused h ?r (sessionFrom ?r)"
    by (simp only: refused_def csrf_refused_def mux_path_def)
  from deniesD [OF csrf_denies [OF this, of mx ready static] prepared_unsent, of h b w'] obtain code v x where
    "csrf (root_mux mx h ready static) ?r \<lparr>cn_w = prepared_writer h b, cn_world = w'\<rparr> = (Inr (), \<lparr>cn_w = v, cn_world = w'\<rparr>)"
    "code \<in> {401, 403, mx_code mx}" "wr_sent v = Some (code, x)" .
  with ServeHTTP_inner [OF b assms(2) this(1)] show ?thesis by (simp add: send_def)
qed

section \<open>Login attempts\<close>

lemma caller_ip_untrusted:
  assumes "\<And>peer. ParseAddr (remote_host r) = Some peer \<Longrightarrow> \<not> list_ex (\<lambda>p. Contains p peer) trusted"
  shows "caller_ip trusted r = remote_host r"
  using assms by (auto simp: caller_ip_def Let_def split: option.splits)

text \<open>A denied limit answers and audits; the rest of the handler is not run.\<close>

definition sent_429 :: "writer \<Rightarrow> bool" where
  "sent_429 v \<longleftrightarrow> (\<exists>hs x. wr_sent v = Some (429, hs, x) \<and> map_of hs ''Retry-After'' \<noteq> None)"

lemma limited_denied:
  assumes "hs_limiter h scope k (cn_world c) = (d, w)" and "\<not> de_Allowed d" and "wr_sent (cn_w c) = None"
  shows "\<exists>c'. (\<forall>nxt. limited h r scope k nxt c = (Inr (), c')) \<and> sent_429 (cn_w c')"
proof -
  let ?secs = "max 1 (whole_seconds (de_RetryAfter d))"
  let ?v = "writeError 429 ''rate_limited'' ''too many requests'' [(''retry_after_seconds'', JNum ?secs)]
    (Header_Set ''Retry-After'' (FormatInt ?secs) (cn_w c))"
  obtain t w' where t: "hs_now h (w\<lparr>w_metrics := Metrics_Inc MetricRateLimited (w_metrics w)\<rparr>) = (t, w')" by fastforce
  let ?w = "hs_audit h (rq_info r) (http_event t RateLimited (map_option pr_UserID (principalFrom r)) OutcomeDenied
    [(''scope'', DStr (scope_string scope))]) w'"
  have "limited h r scope k nxt c = (Inr (), c\<lparr>cn_world := ?w, cn_w := ?v\<rparr>)" for nxt
    using assms t by (simp add: limited_def limit_def bindR_def query_def Let_def respond_def inc_metric_def effect_def retR_def)
  moreover have "sent_429 ?v"
    using assms(3) by (simp add: sent_429_def writeError_def writeJSON_def Write_def WriteHeader_def send_def Header_Set_def update_conv')
  ultimately show ?thesis by fastforce
qed

lemma limited_allowed:
  "hs_limiter h scope k (cn_world c) = (d, w) \<Longrightarrow> de_Allowed d \<Longrightarrow> limited h r scope k nxt c = nxt (c\<lparr>cn_world := w\<rparr>)"
  by (simp add: limited_def limit_def bindR_def query_def retR_def)


section \<open>Sample requests\<close>

text \<open>The handlers over the repository's own services; the challenge has no implementation to stand for it.\<close>

definition live_handlers ::
  "'r env \<Rightarrow> Config \<Rightarrow> live_config \<Rightarrow> string comparator \<Rightarrow> string \<Rightarrow> 'r OIDC option \<Rightarrow> 'r world Challenger option \<Rightarrow>
   RedisLimiter \<Rightarrow> 'r handlers" where
  "live_handlers E cfg l collation dummyPHC flow chal lim =
     \<lparr>hs_cfg = cfg, hs_log = lc_level l, hs_pastes = NewService (live_deps E l), hs_users = NewUserStore E collation,
      hs_sessions = NewSessionStore E,
      hs_local = Some (Authenticate (live_local E l collation (ParamsFromConfig (cf_Argon2 cfg)) dummyPHC)),
      hs_oidc = map_option (\<lambda>f. \<lparr>of_Start = OIDC_Start E f, of_Complete = OIDC_Complete E f\<rparr>) flow, hs_chal = chal,
      hs_limiter = Allow E lim, hs_audit = live_sink E l, hs_now = clock_Now E,
      hs_uuid_String = e_uuid_String E, hs_uuid_Parse = e_uuid_Parse E\<rparr>"

definition sample_handlers :: "mem handlers" where
  "sample_handlers =
     live_handlers sample_env ((load_config sample_loader)\<lparr>cf_AuthMode := AuthLocal\<rparr>) sample_live flat sample_phc None None
       (NewRedisLimiter False (\<lambda>_. Some \<lparr>ru_Limit = 5, ru_Window = Minute\<rparr>) None)"

definition sample_request :: "string \<Rightarrow> string \<Rightarrow> json option \<times> int \<Rightarrow> request" where
  "sample_request m path body =
     \<lparr>rq_Method = m, rq_Path = path, rq_EscapedPath = path, rq_RawQuery = [], rq_Query = [], rq_Header = [(''X-Forwarded-For'', ''10.9.9.9'')],
      rq_Cookies = [], rq_RemoteAddr = ''203.0.113.9:4000'', rq_Body = body, rq_Limit = None, rq_PathValues = [],
      rq_ctx = fresh_ctx\<rparr>"

definition sample_mux :: mux_lib where
  "sample_mux = \<lparr>mx_code = 301, mx_location = (\<lambda>p q. p @ q)\<rparr>"


lemma sample_segments: "path_segments (cleanPath ''/api/v1/pastes'') = [''api'', ''v1'', ''pastes'']"
  by code_simp

theorem refused_requests_change_nothing_witness:
  "(\<exists>code x. wr_sent (fst (ServeHTTP sample_env sample_mux sample_handlers [] None
       (sample_request ''POST'' ''/api/v1/pastes'' (None, 0)) sample_world)) = Some (code, x) \<and> code \<in> {401, 403, 301}) \<and>
   app_data (snd (ServeHTTP sample_env sample_mux sample_handlers [] None
       (sample_request ''POST'' ''/api/v1/pastes'' (None, 0)) sample_world)) = app_data sample_world"
proof -
  let ?r = "sample_request ''POST'' ''/api/v1/pastes'' (None, 0)"
  have "e_rand sample_env (w_tick sample_world) 12 \<noteq> None" by (simp add: sample_env_def)
  moreover have "session_lookup sample_handlers ?r (tick (tick sample_world)) = (Inr None, tick (tick sample_world))"
    by (simp add: session_lookup_def presented_cookie_def sample_request_def retR_def)
  moreover have "refused sample_handlers ?r None"
    by (simp add: refused_def sample_request_def mux_path_def sample_segments route_guards_def Let_def method_matches_def lets_in_def)
  ultimately show ?thesis
    using refused_requests_change_nothing [of sample_env sample_world sample_handlers ?r None "tick (tick sample_world)" sample_mux "[]" None]
    by (simp add: sample_mux_def)
qed

definition sample_proxy :: Prefix where
  "sample_proxy = \<lparr>px_addr = IP4 0x0A000000, px_bits = 8\<rparr>"

lemma sample_peer: "(case ParseAddr ''203.0.113.9'' of None \<Rightarrow> False | Some peer \<Rightarrow> \<not> Contains sample_proxy peer)"
  by code_simp

lemma sample_host: "SplitHostPort ''203.0.113.9:4000'' = Some ''203.0.113.9''"
  by code_simp


end
