(* ===== verification/Durable.thy ===== *)
theory Durable
  imports HttpProps
begin

text \<open>
  What holds of the database through any operation of the program. An invariant of the tables that the
  statements of the stores keep is kept by the services, the HTTP handlers and the sweeper, whatever the
  requests are and whatever becomes of the calls.
\<close>

section \<open>Operations that keep a predicate\<close>

definition kept :: "('s \<Rightarrow> bool) \<Rightarrow> ('s \<Rightarrow> 'x \<times> 's) \<Rightarrow> bool" where
  "kept Q m \<longleftrightarrow> (\<forall>s. Q s \<longrightarrow> Q (snd (m s)))"

definition kept_by :: "('s \<Rightarrow> bool) \<Rightarrow> ('s \<Rightarrow> 's) \<Rightarrow> bool" where
  "kept_by Q f \<longleftrightarrow> (\<forall>s. Q s \<longrightarrow> Q (f s))"

named_theorems keep

lemma keptD: "kept Q m \<Longrightarrow> Q s \<Longrightarrow> Q (snd (m s))" "kept_by Q f \<Longrightarrow> Q s \<Longrightarrow> Q (f s)"
  by (simp_all add: kept_def kept_by_def)

lemma kept_results [keep]: "kept Q (retR x)" "kept Q (failR e)" "kept Q (liftR r)" "kept Q (Pair x)"
  by (simp_all add: kept_def retR_def failR_def liftR_def)

lemma kept_bindR [keep]: "kept Q m \<Longrightarrow> (\<And>x. kept Q (k x)) \<Longrightarrow> kept Q (bindR m k)"
  by (fastforce simp: kept_def bindR_def split: prod.splits sum.splits)

lemma kept_mapE [keep]: "kept Q m \<Longrightarrow> kept Q (mapE f m)"
  by (simp add: kept_def snd_mapE)

lemma kept_cases [keep]:
  "(b \<Longrightarrow> kept Q m) \<Longrightarrow> (\<not> b \<Longrightarrow> kept Q n) \<Longrightarrow> kept Q (if b then m else n)"
  "kept Q n \<Longrightarrow> (\<And>x. kept Q (f x)) \<Longrightarrow> kept Q (case opt of None \<Rightarrow> n | Some x \<Rightarrow> f x)"
  "(\<And>e. kept Q (l e)) \<Longrightarrow> (\<And>x. kept Q (g x)) \<Longrightarrow> kept Q (case res of Inl e \<Rightarrow> l e | Inr x \<Rightarrow> g x)"
  "(\<And>x y. kept Q (p x y)) \<Longrightarrow> kept Q (case pr of (x, y) \<Rightarrow> p x y)"
  by (auto split: option.splits sum.splits prod.splits)

text \<open>Operations written with the state in the open.\<close>

lemma kept_open:
  "kept Q m \<Longrightarrow> (\<And>a. kept Q (k a)) \<Longrightarrow> kept Q (\<lambda>s. case m s of (a, s') \<Rightarrow> k a s')"
  "kept Q m \<Longrightarrow> kept Q n \<Longrightarrow> kept Q (\<lambda>s. if b s then m s else n s)"
  "kept Q n \<Longrightarrow> (\<And>x. kept Q (f x)) \<Longrightarrow> kept Q (\<lambda>s. case opt s of None \<Rightarrow> n s | Some x \<Rightarrow> f x s)"
  "(\<And>e. kept Q (l e)) \<Longrightarrow> (\<And>x. kept Q (g x)) \<Longrightarrow> kept Q (\<lambda>s. case res s of Inl e \<Rightarrow> l e s | Inr x \<Rightarrow> g x s)"
  "(\<And>x y. kept Q (p x y)) \<Longrightarrow> kept Q (\<lambda>s. case pr s of (x, y) \<Rightarrow> p x y s)"
  "kept_by Q h \<Longrightarrow> kept Q (\<lambda>s. (z s, h s))"
  by (fastforce simp: kept_def kept_by_def split: prod.splits sum.splits option.splits)+

lemma kept_after: "kept_by Q h \<Longrightarrow> kept Q m \<Longrightarrow> kept Q (\<lambda>s. m (h s))"
  by (simp add: kept_def kept_by_def)

lemma kept_by_simps:
  "kept_by Q (\<lambda>s. s)" "kept Q m \<Longrightarrow> kept_by Q (\<lambda>s. snd (m s))"
  "kept_by Q h \<Longrightarrow> kept_by Q h' \<Longrightarrow> kept_by Q (\<lambda>s. if b s then h s else h' s)"
  by (auto simp: kept_def kept_by_def)

section \<open>Invariants of the stores\<close>

text \<open>
  The laws of an invariant: it depends on the accounts, the pastes and the interaction counter only, it
  survives the passing of time, and each operation of the two stores that writes keeps it. A new row has an
  identifier generated in a state where the invariant held.
\<close>

locale store_invariant =
  fixes E :: "'r env" and Q :: "'r world \<Rightarrow> bool"
  assumes frame: "Q w \<Longrightarrow> w_users w' = w_users w \<Longrightarrow> w_pastes w' = w_pastes w \<Longrightarrow> w_tick w \<le> w_tick w' \<Longrightarrow> Q w'"
    and create: "Q v \<Longrightarrow> pm_ID m = e_uuid_New E (w_tick v) \<Longrightarrow> pm_DeletedAt m = None \<Longrightarrow> kept Q (PasteStore_Create E m)"
    and paste_writes: "kept Q (PasteStore_IncrementViews E i)" "kept Q (PasteStore_MarkDeleted E i by at)"
      "kept Q (PasteStore_MarkExpiredAudited E ids at)" "kept Q (PasteStore_PurgeCompletedOlderThan E cutoff)"
    and user_writes: "kept Q (UserStore_Create E u)" "kept Q (UserStore_UpsertOIDC E u)"
      "kept Q (UserStore_SetPasswordHash E i phc)" "kept Q (UserStore_SetDisabled E i d)" "kept Q (UserStore_TouchLogin E i at)"
begin

lemma kept_frame:
  "(\<And>w. w_users (snd (m w)) = w_users w \<and> w_pastes (snd (m w)) = w_pastes w \<and> w_tick w \<le> w_tick (snd (m w))) \<Longrightarrow> kept Q m"
  unfolding kept_def using frame by blast

lemma kept_by_frame:
  "(\<And>w. w_users (f w) = w_users w \<and> w_pastes (f w) = w_pastes w \<and> w_tick w \<le> w_tick (f w)) \<Longrightarrow> kept_by Q f"
  unfolding kept_by_def using frame by blast

lemma kept_redis: "kept Q (redis_call E cmd)"
  by (rule kept_frame) simp

lemma kept_select: "(\<And>w. snd (stmt w) = w) \<Longrightarrow> kept Q (db_call E stmt)"
proof (rule kept_frame)
  fix w assume "\<And>w. snd (stmt w) = (w :: 'r world)"
  then show "w_users (snd (db_call E stmt w)) = w_users w \<and> w_pastes (snd (db_call E stmt w)) = w_pastes w \<and>
      w_tick w \<le> w_tick (snd (db_call E stmt w))"
    by (cases rule: db_call_snd [of E stmt w]) simp_all
qed

lemma kept_reads:
  "kept Q (PasteStore_Get E i)" "kept Q (PasteStore_ListByOwner E u page)" "kept Q (PasteStore_ListAll E uo page)"
  "kept Q (PasteStore_ListExpiredUnaudited E now n)" "kept Q (PasteStore_CountActive E now)" "kept Q (PasteStore_Ping E)"
  "kept Q (UserStore_GetByID E j)" "kept Q (UserStore_GetByUsername E name)" "kept Q (UserStore_GetByOIDC E a b)"
  "kept Q (UserStore_List E collation)"
  unfolding PasteStore_Get_def PasteStore_ListByOwner_def PasteStore_ListAll_def PasteStore_ListExpiredUnaudited_def
    PasteStore_CountActive_def PasteStore_Ping_def UserStore_GetByID_def UserStore_GetByUsername_def UserStore_GetByOIDC_def
    UserStore_List_def Let_def
  by (intro kept_mapE kept_select; simp)+

lemma kept_silent: "(\<And>w. silent w (snd (m w))) \<Longrightarrow> kept Q m"
  by (rule kept_frame) (meson silentD)

lemma kept_crypto:
  "kept Q (randomBytes E n)" "kept Q (DeriveKey E pw salt p)" "kept Q (Seal E en i x plain pw)" "kept Q (Open E en i x r pw)"
  by (intro kept_silent randomBytes_silent DeriveKey_silent Seal_silent Open_silent)+

lemma kept_steps:
  "kept Q (clock_Now E)" "kept Q (RandomToken E n)" "kept Q (randomToken E n)" "kept Q (oidc_now E)" "kept Q (idp_call f)"
  "kept Q (session_now E)" "kept_by Q tick" "kept_by Q (log_at lg lv msg attrs)" "kept_by Q (\<lambda>w. w\<lparr>w_metrics := g w\<rparr>)"
  by (auto intro!: kept_frame kept_by_frame
      simp: clock_Now_def RandomToken_def randomToken_def oidc_now_def idp_call_def session_now_def split: option.splits)

lemma kept_sink: "kept_by Q (live_sink E l c e)"
  by (rule kept_by_frame) (intro conjI live_sink_keeps)

lemma kept_audit_purge: "kept Q (AuditStore_PurgeOlderThan E t)"
  by (rule kept_frame) (use quiet_audit_purge in \<open>auto simp: quiet_def\<close>)

text \<open>The stores in Redis.\<close>

lemma kept_bodies:
  "kept Q (BodyStore_Put E i r d)" "kept Q (BodyStore_Get E i)" "kept Q (BodyStore_Delete E i)"
  "kept Q (BodyStore_MarkUnavailableOnce E i d)" "kept Q (BodyStore_Ping E)"
  unfolding BodyStore_Put_def BodyStore_Get_def BodyStore_Delete_def BodyStore_MarkUnavailableOnce_def BodyStore_Ping_def Let_def
  by (intro keep kept_redis)+

lemma kept_scripts: "kept Q (run_script E what script)" "kept Q (drop_session E i e)"
  unfolding run_script_def
  by (intro keep kept_redis) (simp add: kept_def drop_session_def session_del_def keptD(1) [OF kept_redis])

lemma kept_create_rounds: "kept Q (create_rounds E u now absolute deadline n)"
  by (induction n) (simp_all add: Let_def keep kept_scripts kept_steps)

lemma kept_sessions:
  "kept Q (SessionStore_Create E u idle absolute)" "kept Q (SessionStore_Get E i)" "kept Q (SessionStore_Touch E i idle)"
  "kept Q (SessionStore_Delete E i)"
  unfolding SessionStore_Create_def SessionStore_Get_def SessionStore_Touch_def SessionStore_Delete_def session_get_def
    session_del_def Let_def
  by (intro keep kept_redis kept_scripts kept_steps kept_create_rounds)+

lemma kept_states: "kept Q (OIDCStateStore_Save E st v ttl)" "kept Q (OIDCStateStore_Take E st)"
  unfolding OIDCStateStore_Save_def OIDCStateStore_Take_def by (intro keep kept_redis)+

lemma kept_limiter: "kept Q (Allow E lim scope k)"
proof -
  have warn: "kept_by Q (warnAllowOnce lim scope msg)" for msg
    by (rule kept_by_frame) (simp add: warnAllowOnce_def)
  have deny: "kept Q (rl_deny lim scope msg)" for msg
    by (rule kept_frame) (simp add: rl_deny_def)
  show ?thesis
    unfolding Allow_def [abs_def] by (intro kept_open warn deny kept_redis kept_by_simps)
qed

end

section \<open>The services keep an invariant\<close>

context store_invariant
begin

lemma kept_Now: "kept Q (Now (live_deps E l))"
  using keptD(1) [OF kept_steps(1)] by (simp add: kept_def live_deps_def)

lemma kept_record: "kept_by Q (service_record (live_deps E l) c ev a i out ds)"
  using keptD(1) [OF kept_steps(1)] keptD(2) [OF kept_sink]
  by (simp add: kept_by_def service_record_def live_deps_def clock_Now_def Let_def)

lemma kept_unless_expired: "kept Q k \<Longrightarrow> kept Q (unless_expired (live_deps E l) res k)"
  unfolding unless_expired_def by (intro keep kept_Now)

lemma kept_read_release: "kept Q (read_release (live_deps E l) c p res i plain)"
proof -
  have "kept_by Q (\<lambda>s. snd (ms_IncrementViews (d_Metas (live_deps E l)) i s))"
    using paste_writes(1) by (simp add: live_deps_def NewPasteStore_def kept_by_simps)
  then show ?thesis
    unfolding read_release_def Let_def
    by (intro kept_unless_expired keep kept_after [OF _ kept_unless_expired] kept_after [OF kept_record])
qed

end

context store_invariant
begin

lemma live_ports:
  "d_Metas (live_deps E l) = NewPasteStore E" "d_Bodies (live_deps E l) = NewBodyStore E"
  "d_Envelope (live_deps E l) = NewEnvelopePort E (lc_envelope l)"
  "ms_Create (NewPasteStore E) = PasteStore_Create E" "ms_Get (NewPasteStore E) = PasteStore_Get E"
  "ms_MarkDeleted (NewPasteStore E) = PasteStore_MarkDeleted E" "ms_ListByOwner (NewPasteStore E) = PasteStore_ListByOwner E"
  "ms_ListAll (NewPasteStore E) = PasteStore_ListAll E"
  "bs_Put (NewBodyStore E) = BodyStore_Put E" "bs_Get (NewBodyStore E) = BodyStore_Get E" "bs_Delete (NewBodyStore E) = BodyStore_Delete E"
  "bs_MarkUnavailableOnce (NewBodyStore E) = BodyStore_MarkUnavailableOnce E"
  "es_Seal (NewEnvelopePort E en) = Seal E en" "es_Open (NewEnvelopePort E en) = Open E en"
  by (simp_all add: live_deps_def NewPasteStore_def NewBodyStore_def NewEnvelopePort_def)

lemma kept_read_missing: "kept Q (read_missing (live_deps E l) c p res now i)"
proof -
  have "read_missing (live_deps E l) c p res now i = (\<lambda>s. case BodyStore_MarkUnavailableOnce E i
      (wrap64 (time_Sub (pm_ExpiresAt (rr_Meta (res\<lparr>rr_Status := StatusUnavailable\<rparr>))) now + Hour)) s of
      (a, s1) \<Rightarrow> if a = Inr True
        then (Inr (res\<lparr>rr_Status := StatusUnavailable\<rparr>), service_record (live_deps E l) c PasteUnavailable (actorOf p) (Some i) OutcomeFailure [] s1)
        else (Inr (res\<lparr>rr_Status := StatusUnavailable\<rparr>), s1))"
    by (auto simp: read_missing_def live_ports Let_def fun_eq_iff split: prod.splits sum.splits bool.splits)
  then show ?thesis by (simp only:) (intro kept_open kept_bodies kept_record kept_by_simps)
qed

lemma kept_read_open: "kept Q (read_open (live_deps E l) c p res i r pw)"
  unfolding read_open_def [abs_def] live_ports
  by (intro kept_open kept_crypto kept_record kept_read_release kept_by_simps)

lemma kept_service_Read: "kept Q (service_Read (live_deps E l) c p i pw)"
  unfolding service_Read_def live_ports Let_def
  by (intro keep kept_open(1) kept_reads kept_Now kept_bodies kept_read_missing kept_read_open)

lemma kept_service_small:
  "kept Q (service_Verify (live_deps E l) c i hex)" "kept Q (service_Delete (live_deps E l) c pr i)"
  "kept Q (service_ListMine (live_deps E l) pr page)" "kept Q (service_ListAll (live_deps E l) pr uo page)"
  unfolding service_Verify_def service_Delete_def service_ListMine_def service_ListAll_def live_ports Let_def
  by (intro keep kept_open(6) kept_reads kept_Now kept_bodies kept_record paste_writes)+

lemma kept_create_store:
  assumes "Q v" and "pm_ID m = e_uuid_New E (w_tick v)" and "pm_DeletedAt m = None"
  shows "kept Q (create_store (live_deps E l) c p m r)"
proof -
  have "kept Q (create_store_meta (live_deps E l) c p m)"
    unfolding create_store_meta_def [abs_def] live_ports
    by (intro kept_open create [OF assms] kept_record kept_by_simps kept_bodies)
  then show ?thesis
    unfolding create_store_def live_ports Let_def by (intro keep kept_Now kept_bodies)
qed

text \<open>The identifier of a new row is generated in the state after the clock was read.\<close>

lemma kept_service_Create: "kept Q (service_Create (live_deps E l) c p inp)"
proof -
  have core: "kept Q (bindR (uuid_New (live_deps E l)) (\<lambda>i.
          bindR (Seal E en i (x i) plain pw) (\<lambda>r. create_store (live_deps E l) c p (m i r) r)))"
    if m: "\<And>i r. pm_ID (m i r) = i \<and> pm_DeletedAt (m i r) = None" for en x plain pw m
  proof (unfold kept_def, intro allI impI)
    fix s assume s: "Q s"
    let ?i = "e_uuid_New E (w_tick s)"
    have "kept Q (bindR (Seal E en ?i (x ?i) plain pw) (\<lambda>r. create_store (live_deps E l) c p (m ?i r) r))"
      using m by (intro keep kept_crypto kept_create_store [OF s]) simp_all
    from keptD(1) [OF this keptD(2) [OF kept_steps(7) s]]
    show "Q (snd (bindR (uuid_New (live_deps E l)) (\<lambda>i.
          bindR (Seal E en i (x i) plain pw) (\<lambda>r. create_store (live_deps E l) c p (m i r) r)) s))"
      by (simp add: bindR_def live_deps_def)
  qed
  show ?thesis
    unfolding service_Create_def live_ports Let_def
    by (intro kept_cases kept_results kept_bindR [OF kept_results(3)] kept_bindR [OF kept_Now] core) (auto simp: create_meta_def)
qed

end

section \<open>Logins and the sweeper keep an invariant\<close>

context store_invariant
begin

lemma live_login_ports:
  "la_users (live_local E l collation ps d) = NewUserStore E collation" "la_hasher (live_local E l collation ps d) = NewArgon2Hasher E ps"
  "la_sink (live_local E l collation ps d) = live_sink E l" "la_now (live_local E l collation ps d) = clock_Now E"
  "up_GetByUsername (NewUserStore E collation) = UserStore_GetByUsername E" "up_TouchLogin (NewUserStore E collation) = UserStore_TouchLogin E"
  "up_GetByID (NewUserStore E collation) = UserStore_GetByID E" "up_UpsertOIDC (NewUserStore E collation) = UserStore_UpsertOIDC E"
  "up_Create (NewUserStore E collation) = UserStore_Create E" "up_SetPasswordHash (NewUserStore E collation) = UserStore_SetPasswordHash E"
  "up_SetDisabled (NewUserStore E collation) = UserStore_SetDisabled E" "up_List (NewUserStore E collation) = UserStore_List E collation"
  "ph_Hash (NewArgon2Hasher E ps) = Argon2Hasher_Hash E ps" "ph_Verify (NewArgon2Hasher E ps) = Argon2Hasher_Verify E"
  by (simp_all add: live_local_def NewUserStore_def NewArgon2Hasher_def)

lemma kept_hasher: "kept Q (Argon2Hasher_Hash E ps pw)" "kept Q (Argon2Hasher_Verify E phc pw)"
  unfolding Argon2Hasher_Hash_def Argon2Hasher_Verify_def HashPassword_def VerifyPassword_def
  by (intro keep kept_crypto)+

lemma kept_Authenticate: "kept Q (Authenticate (live_local E l collation ps d) c u pw)"
proof -
  let ?l = "live_local E l collation ps d"
  have "kept Q (LocalAuth_fail ?l c n reason)" "kept Q (LocalAuth_succeed ?l c user)" for n reason user
    unfolding LocalAuth_fail_def [abs_def] LocalAuth_succeed_def [abs_def] live_login_ports Let_def
    by (intro kept_open kept_steps kept_sink user_writes)+
  note ends = this
  then have "kept Q (LocalAuth_decoy ?l c n pw reason)" for n reason
    unfolding LocalAuth_decoy_def live_login_ports by (intro keep kept_hasher)
  with ends show ?thesis
    unfolding Authenticate_def [abs_def] live_login_ports
    by (intro kept_open kept_reads kept_by_simps keep kept_hasher)
qed

lemma kept_oidc:
  "kept Q (OIDC_Start E (live_oidc E l collation cfg P))" "kept Q (OIDC_Complete E (live_oidc E l collation cfg P) c st code)"
proof -
  let ?f = "live_oidc E l collation cfg P"
  have ports: "od_states ?f = NewOIDCStateStore E" "od_users ?f = NewUserStore E collation" "od_sink ?f = live_sink E l"
    "st_Save (NewOIDCStateStore E) = OIDCStateStore_Save E" "st_Take (NewOIDCStateStore E) = OIDCStateStore_Take E"
    by (simp_all add: live_oidc_def NewOIDCStateStore_def)
  have deny: "kept Q (deny E ?f c sub reason e)" for sub reason e
    unfolding deny_def [abs_def] recordDenied_def ports Let_def kept_def
    using keptD(2) [OF kept_sink] keptD(1) [OF kept_steps(1)] by (auto simp: split_beta)
  have accept: "kept Q (oidc_accept E ?f c now tok claims)" for now tok claims
  proof -
    have core: "kept Q (\<lambda>w. bindR (UserStore_UpsertOIDC E (u (w_tick w))) k (tick w))"
      if "\<And>x. kept Q (k x)" for u and k :: "User \<Rightarrow> ('r world, User) op"
      using keptD(1) [OF kept_bindR [OF user_writes(2) that]] keptD(2) [OF kept_steps(7)] by (simp add: kept_def)
    show ?thesis
      unfolding oidc_accept_def ports live_login_ports by (rule core) (intro keep deny kept_open(6) kept_sink)
  qed
  show "kept Q (OIDC_Start E ?f)" "kept Q (OIDC_Complete E ?f c st code)"
    unfolding OIDC_Start_def OIDC_Complete_def oidc_check_token_def ports
    by (intro keep kept_steps kept_states deny accept)+
qed

lemma live_sweeper_ports:
  "sw_metas (live_sweeper E l cfg) = NewPasteStore E" "sw_bodies (live_sweeper E l cfg) = NewBodyStore E"
  "sw_sink (live_sweeper E l cfg) = live_sink E l" "sw_now (live_sweeper E l cfg) = clock_Now E"
  "sw_purger (live_sweeper E l cfg) = Some (AuditStore_PurgeOlderThan E)" "sw_onActive (live_sweeper E l cfg) = []"
  by (simp_all add: live_sweeper_def sweeper_New_def Let_def)

lemma kept_sweep_bodies: "kept Q (sweep_bodies (live_sweeper E l cfg) c now ms)"
proof (induction ms)
  case (Cons m ms)
  let ?S = "live_sweeper E l cfg"
  have "sweep_bodies ?S c now (m # ms) = (\<lambda>w. case BodyStore_Delete E (pm_ID m) w of (a, w1) \<Rightarrow>
     (case a of Inl err \<Rightarrow> (\<lambda>w1. case sweep_bodies ?S c now ms (log_at (sw_log ?S) LevelWarn ''defensive body delete failed''
                   [(''paste_id'', LID (pm_ID m)), (''err'', LErr err)] w1) of ((ids, _), w) \<Rightarrow> ((ids, True), w))
      | Inr _ \<Rightarrow> (\<lambda>w1. case sweep_bodies ?S c now ms (live_sink E l c (sweep_event now PasteExpired (Some (pm_ID m))
                   [(''expires_at'', DTime (pm_ExpiresAt m)), (''password_protected'', DBool (pm_PasswordProtected m))]) w1) of
                    ((ids, retry), w) \<Rightarrow> ((pm_ID m # ids, retry), w))) w1)"
    by (auto simp: fun_eq_iff live_sweeper_ports live_ports Let_def split: prod.splits sum.splits)
  then show ?case
    by (simp only:) (intro kept_open kept_cases kept_bodies kept_by_simps kept_after [OF _ Cons] kept_steps kept_sink)
qed (simp add: keep)

lemma kept_sweeper: "kept Q (RunOnce (live_sweeper E l cfg) c)"
proof -
  let ?S = "live_sweeper E l cfg"
  have recorded: "kept Q purge \<Longrightarrow> kept Q (sweep_recorded ?S c now ev purge)" for now ev purge
    unfolding sweep_recorded_def live_sweeper_ports by (intro keep kept_open(6) kept_by_simps kept_sink)
  have purge: "ms_PurgeCompletedOlderThan (NewPasteStore E) = Some (PasteStore_PurgeCompletedOlderThan E)"
    "ms_ListExpiredUnaudited (NewPasteStore E) = PasteStore_ListExpiredUnaudited E"
    "ms_MarkExpiredAudited (NewPasteStore E) = PasteStore_MarkExpiredAudited E" "ms_CountActive (NewPasteStore E) = PasteStore_CountActive E"
    by (simp_all add: NewPasteStore_def)
  have expire: "kept Q (sweep_expire ?S c now)" for now
    unfolding sweep_expire_def live_sweeper_ports Let_def purge
    by (intro keep kept_open kept_by_simps kept_reads paste_writes kept_sweep_bodies)
  have metadata: "kept Q (sweep_metadata ?S c now b)" for now b
    unfolding sweep_metadata_def live_sweeper_ports Let_def purge option.case by (intro keep recorded paste_writes)
  have audit: "kept Q (sweep_audit ?S c now)" for now
    unfolding sweep_audit_def live_sweeper_ports option.case by (intro keep recorded kept_audit_purge)
  show ?thesis
    unfolding RunOnce_def [abs_def] live_sweeper_ports Let_def purge fold.simps id_apply
    by (intro kept_open kept_by_simps kept_steps kept_reads expire metadata audit)
qed

end

section \<open>The handlers keep what their ports keep\<close>

abbreviation on_conn :: "('r world \<Rightarrow> bool) \<Rightarrow> 'r conn \<Rightarrow> bool" where
  "on_conn Q \<equiv> (\<lambda>c. Q (cn_world c))"

lemma kept_conn [keep]:
  "kept (on_conn Q) (respond f)"
  "kept_by Q h \<Longrightarrow> kept (on_conn Q) (effect h)"
  "kept Q g \<Longrightarrow> kept (on_conn Q) (query g)"
  "kept Q m \<Longrightarrow> kept (on_conn Q) (call m)"
  "kept Q m \<Longrightarrow> kept (on_conn Q) (must m)"
  by (fastforce simp: kept_def kept_by_def respond_def effect_def query_def call_def must_def Let_def
      split: prod.splits sum.splits goerr.splits)+

lemma kept_body_error [keep]:
  "(\<And>n. kept Q (t n)) \<Longrightarrow> kept Q i \<Longrightarrow> kept Q (case be of BodyTooLarge n \<Rightarrow> t n | BodyInvalid \<Rightarrow> i)"
  "kept Q m1 \<Longrightarrow> kept Q m2 \<Longrightarrow> kept Q (case bo of True \<Rightarrow> m1 | False \<Rightarrow> m2)"
  by (auto split: body_error.splits bool.splits)

locale handler_ports =
  fixes Q :: "'r world \<Rightarrow> bool" and h :: "'r handlers"
  assumes pastes: "kept Q (pv_Create (hs_pastes h) c p inp)" "kept Q (pv_Read (hs_pastes h) c po i pw)" "kept Q (pv_Verify (hs_pastes h) c i hex)"
      "kept Q (pv_Delete (hs_pastes h) c p i)" "kept Q (pv_ListMine (hs_pastes h) p page)" "kept Q (pv_ListAll (hs_pastes h) p uo page)"
    and accounts: "kept Q (up_GetByID (hs_users h) u)"
    and sessions: "kept Q (sp_Create (hs_sessions h) u idle absolute)" "kept Q (sp_Get (hs_sessions h) t)"
      "kept Q (sp_Touch (hs_sessions h) t idle)" "kept Q (sp_Delete (hs_sessions h) t)"
    and logins: "hs_local h = Some authenticate \<Longrightarrow> kept Q (authenticate c name pw)"
      "hs_oidc h = Some flow \<Longrightarrow> kept Q (of_Start flow)" "hs_oidc h = Some flow \<Longrightarrow> kept Q (of_Complete flow c st code)"
    and challenge: "hs_chal h = Some chal \<Longrightarrow> kept Q (ch_Issue chal c u)" "hs_chal h = Some chal \<Longrightarrow> kept Q (ch_Verify chal c u tok x)"
      "hs_chal h = Some chal \<Longrightarrow> kept Q (ch_Consume chal c u tok)"
    and environment: "kept Q (hs_limiter h scope k)" "kept_by Q (hs_audit h c ev)" "kept Q (hs_now h)"
    and logging: "kept_by Q (log_at lg lv msg attrs)" "kept_by Q (\<lambda>w. w\<lparr>w_metrics := g w\<rparr>)"
begin

lemmas ports = pastes accounts sessions environment

lemma lines: "kept (on_conn Q) (log_line h lv msg attrs)" "kept (on_conn Q) (inc_metric name)"
  unfolding log_line_def inc_metric_def by (intro keep logging)+

lemma fails: "kept (on_conn Q) (fail h r err)"
  unfolding fail_def Let_def by (intro keep lines)

lemma limits: "kept (on_conn Q) nxt \<Longrightarrow> kept (on_conn Q) (limited h r scope k nxt)"
  unfolding limited_def limit_def Let_def by (intro keep lines ports)

lemma starts: "kept (on_conn Q) (startSession h r u)"
  unfolding startSession_def by (intro keep ports)

lemma auth_handlers:
  "kept (on_conn Q) (login h r)" "kept (on_conn Q) (logout h si r)" "kept (on_conn Q) (me h si r)"
  "kept (on_conn Q) (oidcStart h r)" "kept (on_conn Q) (oidcCallback h r)"
proof -
  show "kept (on_conn Q) (login h r)"
    unfolding login_def
    by (cases "hs_local h"; cases "LocalEnabled (hs_cfg h)"; simp only: prod.case option.case bool.case)
       (intro keep logins(1) limits fails starts; assumption?)+
  show "kept (on_conn Q) (logout h si r)" "kept (on_conn Q) (me h si r)"
    unfolding logout_def me_def by (intro keep ports)+
  show "kept (on_conn Q) (oidcStart h r)" "kept (on_conn Q) (oidcCallback h r)"
    unfolding oidcStart_def oidcCallback_def Let_def
    by (cases "hs_oidc h"; simp only: option.case; (intro keep logins fails starts lines; assumption?))+
qed

end

context handler_ports
begin

lemma paste_handlers:
  "kept (on_conn Q) (createPaste h si r)" "kept (on_conn Q) (getPaste h r)" "kept (on_conn Q) (unlockPaste h r)"
  "kept (on_conn Q) (rawPaste h r)" "kept (on_conn Q) (verifyPaste h r)" "kept (on_conn Q) (deletePaste h si r)"
proof -
  have create: "kept (on_conn Q) (create_checked h si r q)" for q
    unfolding create_checked_def by (intro keep ports limits fails lines)
  have consume: "kept (on_conn Q) (case hs_chal h of None \<Rightarrow> n | Some chal \<Rightarrow> bindR (call (ch_Consume chal c u tok)) k)"
    if "kept (on_conn Q) n" "\<And>x. kept (on_conn Q) (k x)" for n k c u tok
    using that by (cases "hs_chal h") (auto intro!: keep challenge)
  show "kept (on_conn Q) (createPaste h si r)"
    unfolding createPaste_def Let_def by (intro keep consume create ports limits fails lines)
  show "kept (on_conn Q) (getPaste h r)" "kept (on_conn Q) (unlockPaste h r)" "kept (on_conn Q) (rawPaste h r)"
    "kept (on_conn Q) (verifyPaste h r)" "kept (on_conn Q) (deletePaste h si r)"
    unfolding getPaste_def unlockPaste_def unlock_read_def rawPaste_def verifyPaste_def deletePaste_def with_pathID_def Let_def
    by (intro keep ports limits fails lines)+
qed

lemma other_handlers:
  "kept (on_conn Q) (listMine h si r)" "kept (on_conn Q) (adminList h si r)" "kept (on_conn Q) (issueChallenge h si r)"
  "kept (on_conn Q) (verifyChallenge h si r)" "kept (on_conn Q) (getConfig h r)"
proof -
  show "kept (on_conn Q) (listMine h si r)" "kept (on_conn Q) (adminList h si r)" "kept (on_conn Q) (getConfig h r)"
    unfolding listMine_def adminList_def admin_page_def writeList_def getConfig_def Let_def by (intro keep ports fails)+
  show "kept (on_conn Q) (issueChallenge h si r)" "kept (on_conn Q) (verifyChallenge h si r)"
    unfolding issueChallenge_def verifyChallenge_def Let_def
    by (cases "hs_chal h"; simp only: option.case; (intro keep challenge limits fails lines ports; assumption?))+
qed

end

context handler_ports
begin

lemma guard_wrappers:
  "(\<And>r. kept (on_conn Q) (f r)) \<Longrightarrow> kept (on_conn Q) (requireAuth f r)"
  "(\<And>si r. kept (on_conn Q) (g si r)) \<Longrightarrow> kept (on_conn Q) (authed g r)"
  "(\<And>si r. kept (on_conn Q) (g si r)) \<Longrightarrow> kept (on_conn Q) (admined g r)"
  "(\<And>r. kept (on_conn Q) (f r)) \<Longrightarrow> kept (on_conn Q) (viewGate h f r)"
  "(\<And>r. kept (on_conn Q) (f r)) \<Longrightarrow> kept (on_conn Q) (small f r)"
  "(\<And>r. kept (on_conn Q) (f r)) \<Longrightarrow> kept (on_conn Q) (chain f [maxBody n] r)"
  unfolding authed_def admined_def requireAdmin_def requireAuth_def viewGate_def small_def chain_def maxBody_def
  by (simp_all add: kept_conn kept_results split: option.split)

lemma api: "kept (on_conn Q) (api_mux h r)"
proof -
  have "kept (on_conn Q) (f r)" if "(pat, ps, f) \<in> set (api_routes h)" for pat ps f r
    using that unfolding api_routes_def
    by (auto intro!: guard_wrappers auth_handlers paste_handlers other_handlers)
  moreover have "find_route rs m ss = Some (vs, f) \<Longrightarrow> \<exists>pat ps. (pat, ps, f) \<in> set rs" for rs :: "'r route list" and m ss vs f
    by (induction rs m ss rule: find_route.induct) (auto split: if_splits option.splits)
  ultimately show ?thesis
    unfolding api_mux_def
    by (cases "find_route (api_routes h) (rq_Method r) (path_segments (mux_path r))") (auto intro!: keep, blast)
qed

lemma checks: "(\<And>n m. (n, m) \<in> set ready \<Longrightarrow> kept Q m) \<Longrightarrow> Q w \<Longrightarrow> Q (snd (snd (run_checks ready w)))"
  by (induction ready w rule: run_checks.induct)
     (fastforce simp: Let_def kept_def split: prod.splits sum.splits)+

lemma root:
  assumes "\<And>n m. (n, m) \<in> set ready \<Longrightarrow> kept Q m"
  shows "kept (on_conn Q) (root_mux mx h ready static r)"
proof -
  have "Q w \<Longrightarrow> Q (snd (snd (run_checks ready w)))" for w
    using assms by (rule checks)
  then have "kept (on_conn Q) (ReadyHandler ready r)"
    by (fastforce simp: kept_def ReadyHandler_def Let_def respond_def split: prod.splits)
  then show ?thesis
    unfolding root_mux_def HealthHandler_def spaHandler_def Let_def by (intro keep api)
qed

lemma serves:
  assumes "kept Q (randomToken E 12)" and "kept Q (clock_Now E)" and "\<And>n m. (n, m) \<in> set ready \<Longrightarrow> kept Q m" and "Q w"
  shows "Q (snd (ServeHTTP E mx h ready static r w))"
proof -
  have load: "kept (on_conn Q) (loadSession h f r)" if "\<And>r. kept (on_conn Q) (f r)" for f r
    unfolding loadSession_def by (intro keep ports lines that)
  have check: "kept (on_conn Q) (csrf f r)" if "\<And>r. kept (on_conn Q) (f r)" for f r
    unfolding csrf_def Let_def by (intro keep that)
  have upd: "kept (on_conn Q) (\<lambda>c. (Inr (), c\<lparr>cn_world := k c (cn_world c)\<rparr>))" if "\<And>c. kept_by Q (k c)" for k :: "'r conn \<Rightarrow> 'r world \<Rightarrow> 'r world"
    using that by (simp add: kept_def kept_by_def)
  have access: "kept (on_conn Q) (accessLog E lg f r)" if "\<And>r. kept (on_conn Q) (f r)" for f r lg
    unfolding accessLog_def by (intro keep assms(2) that upd logging)
  have metrics: "kept (on_conn Q) (httpMetrics f r)" if "\<And>r. kept (on_conn Q) (f r)" for f r
    unfolding httpMetrics_def using keptD(2) [OF logging(2) [of "\<lambda>_. x" for x]] by (intro keep that) (simp add: kept_def)
  have outer: "kept (on_conn Q) (requestID E (clientIP ps (securityHeaders b f)) r)" if "\<And>r. kept (on_conn Q) (f r)" for f r ps b
    unfolding requestID_def clientIP_def securityHeaders_def Let_def by (intro keep assms(1) that)
  have recov: "kept (on_conn Q) (recoverer lg f r)" if "\<And>r. kept (on_conn Q) (f r)" for f r lg
    using that [of r] logging(1) unfolding kept_def kept_by_def recoverer_def Let_def respond_def
    by (fastforce split: prod.splits sum.splits)
  have "kept (on_conn Q) (NewHandler E mx h ready static r)" for r
    unfolding NewHandler_def chain_def foldr.simps o_apply id_apply
    by (intro recov outer metrics access load check root assms(3))
  from keptD(1) [OF this, of "\<lparr>cn_w = new_writer, cn_world = w\<rparr>"] assms(4) show ?thesis
    by (simp add: ServeHTTP_def Let_def)
qed

end

end
