(* ===== verification/Cli.thy ===== *)
theory Cli
  imports Http LocalAuth
begin

text \<open>
  The command line, \<^verbatim>\<open>internal/cli\<close>: the registry of commands and the administration of accounts,
  \<^verbatim>\<open>pastebin user\<close>. A command is a function on a process, the world with what was written to the two output
  streams, and returns the exit code. The parsing of flags is that of the package \<^verbatim>\<open>flag\<close>.
\<close>

section \<open>Processes\<close>

text \<open>The texts of configuration errors and of a quoted name are left as what they describe.\<close>

datatype out_item = OText string | OConfig "cfg_error list" | OUnknownCommand string

record 'r proc =
  pc_world :: "'r world"
  pc_out :: "out_item list"
  pc_err :: "out_item list"

text \<open>
  Standard input: absent, a terminal with what its two password reads return, or anything else with the
  bytes it delivers before the end or an error.
\<close>

datatype stdin = NoStdin | Terminal "bytes res" "bytes res" | Piped bytes

record cli_env =
  ce_Getenv :: loader
  ce_Stdin :: stdin

type_synonym 'r command = "cli_env \<Rightarrow> string list \<Rightarrow> 'r proc \<Rightarrow> int \<times> 'r proc"

definition nl :: string where "nl = [CHR 0x0A]"

definition say :: "out_item \<Rightarrow> 'r proc \<Rightarrow> 'r proc" where
  "say x p = p\<lparr>pc_out := pc_out p @ [x]\<rparr>"

definition complain :: "out_item \<Rightarrow> 'r proc \<Rightarrow> 'r proc" where
  "complain x p = p\<lparr>pc_err := pc_err p @ [x]\<rparr>"

definition in_world :: "('r world, 'a) op \<Rightarrow> ('r proc, 'a) op" where
  "in_world m p = (case m (pc_world p) of (a, w) \<Rightarrow> (a, p\<lparr>pc_world := w\<rparr>))"

definition in_proc :: "('r proc \<Rightarrow> 'r proc) \<Rightarrow> ('r proc, unit) op" where
  "in_proc f p = (Inr (), f p)"

section \<open>The registry\<close>

type_synonym 'r registry = "(string \<times> 'r command) list"

definition Register :: "string \<Rightarrow> 'r command \<Rightarrow> 'r registry \<Rightarrow> goerr + 'r registry" where
  "Register name fn registry =
     (if map_of registry name \<noteq> None then Inl (EPanic (''cli: duplicate command '' @ name))
      else Inr ((name, fn) # registry))"

definition version_command :: "string \<Rightarrow> 'r command" where
  "version_command version env args p = (0, say (OText (''pastebin '' @ version @ nl)) p)"

definition usage :: "'r registry \<Rightarrow> 'r proc \<Rightarrow> 'r proc" where
  "usage registry p =
     fold complain (map OText ([''usage: pastebin <command> [flags]'' @ nl, ''commands:'' @ nl] @
       map (\<lambda>(n, _). ''  '' @ n @ nl) (sort_names registry))) p"

definition cli_Run :: "'r registry \<Rightarrow> cli_env \<Rightarrow> string list \<Rightarrow> 'r proc \<Rightarrow> int \<times> 'r proc" where
  "cli_Run registry env args p =
     (case args of
        [] \<Rightarrow> (2, usage registry p)
      | name # rest \<Rightarrow>
          (case map_of registry name of
             None \<Rightarrow> (2, usage registry (complain (OUnknownCommand name) p))
           | Some cmd \<Rightarrow> cmd env rest p))"

section \<open>Flags\<close>

text \<open>
  A flag is a name with a setter that may refuse its value; a flag without an argument takes none from the
  next word. \<open>parse_flags\<close> returns the values and the words after the flags.
\<close>

datatype 'a flag = BoolFlag "bool \<Rightarrow> 'a \<Rightarrow> 'a" | StringFlag "string \<Rightarrow> 'a \<Rightarrow> 'a"

definition ParseBool :: "string \<Rightarrow> bool option" where
  "ParseBool s =
     (if s \<in> {''1'', ''t'', ''T'', ''true'', ''TRUE'', ''True''} then Some True
      else if s \<in> {''0'', ''f'', ''F'', ''false'', ''FALSE'', ''False''} then Some False
      else None)"

text \<open>The name and the value after the first equals sign, which is not the first character.\<close>

definition split_flag :: "string \<Rightarrow> string \<times> string option" where
  "split_flag s =
     (let n = hd s # takeWhile (\<lambda>c. c \<noteq> CHR ''='') (tl s)
      in (n, if length n < length s then Some (drop (Suc (length n)) s) else None))"

definition flag_word :: "string \<Rightarrow> string" where
  "flag_word s = (if take 2 s = ''--'' then drop 2 s else drop 1 s)"

fun parse_flags :: "(string \<times> 'a flag) list \<Rightarrow> string list \<Rightarrow> 'a \<Rightarrow> ('a \<times> string list) option" where
  "parse_flags formal [] x = Some (x, [])"
| "parse_flags formal (s # args) x =
     (if length s < 2 \<or> hd s \<noteq> CHR ''-'' then Some (x, s # args)
      else if s = ''--'' then Some (x, args)
      else
        (let w = flag_word s
         in if w = [] \<or> hd w = CHR ''-'' \<or> hd w = CHR ''='' then None
            else
              (let (name, val) = split_flag w
               in case map_of formal name of
                    None \<Rightarrow> None
                  | Some (BoolFlag upd) \<Rightarrow>
                      (case val of
                         None \<Rightarrow> parse_flags formal args (upd True x)
                       | Some v \<Rightarrow>
                           (case ParseBool v of None \<Rightarrow> None | Some b \<Rightarrow> parse_flags formal args (upd b x)))
                  | Some (StringFlag upd) \<Rightarrow>
                      (case val of
                         Some v \<Rightarrow> parse_flags formal args (upd v x)
                       | None \<Rightarrow> (case args of [] \<Rightarrow> None | v # rest \<Rightarrow> parse_flags formal rest (upd v x))))))"

section \<open>Arguments of the user command\<close>

record userOptions =
  uo_username :: string
  uo_displayName :: string
  uo_admin :: bool

definition no_options :: userOptions where
  "no_options = \<lparr>uo_username = [], uo_displayName = [], uo_admin = False\<rparr>"

definition userUsage :: "'r proc \<Rightarrow> 'r proc" where
  "userUsage p =
     fold complain (map (\<lambda>s. OText (s @ nl))
       [''usage: pastebin user <create|set-password|disable|enable|list> [flags]'',
        ''  create --username U [--admin] [--display-name N]'', ''  set-password --username U'', ''  disable --username U'',
        ''  enable --username U'', ''  list'', ''passwords are read from stdin; never pass them as arguments'']) p"

definition invalidUserArgs :: "string \<Rightarrow> 'r proc \<Rightarrow> 'r proc" where
  "invalidUserArgs subcommand p = userUsage (complain (OText (''invalid arguments for user '' @ subcommand @ nl)) p)"

definition isUserSubcommand :: "string \<Rightarrow> bool" where
  "isUserSubcommand name \<longleftrightarrow> name \<in> {''create'', ''set-password'', ''disable'', ''enable'', ''list''}"

definition user_flags :: "string \<Rightarrow> (string \<times> userOptions flag) list" where
  "user_flags subcommand =
     (let username = (''username'', StringFlag (\<lambda>v x. x\<lparr>uo_username := v\<rparr>))
      in if subcommand = ''create''
         then [username, (''display-name'', StringFlag (\<lambda>v x. x\<lparr>uo_displayName := v\<rparr>)),
               (''admin'', BoolFlag (\<lambda>v x. x\<lparr>uo_admin := v\<rparr>))]
         else if subcommand = ''list'' then []
         else [username])"

definition parseUserOptions :: "string \<Rightarrow> string list \<Rightarrow> 'r proc \<Rightarrow> userOptions option \<times> 'r proc" where
  "parseUserOptions subcommand args p =
     (if \<not> isUserSubcommand subcommand then (None, p)
      else case parse_flags (user_flags subcommand) args no_options of
             None \<Rightarrow> (None, invalidUserArgs subcommand p)
           | Some (opts, rest) \<Rightarrow>
               if rest \<noteq> [] \<or> (subcommand \<noteq> ''list'' \<and> uo_username opts = []) then (None, invalidUserArgs subcommand p)
               else (Some opts, p))"

section \<open>Passwords\<close>

definition minLocalPasswordLen :: nat where "minLocalPasswordLen = 12"

definition trim_line :: "bytes \<Rightarrow> bytes" where
  "trim_line line =
     (if line \<noteq> [] \<and> last line = 0x0A
      then (let l = butlast line in if l \<noteq> [] \<and> last l = 0x0D then butlast l else l)
      else line)"

text \<open>\<^verbatim>\<open>ReadBytes\<close>: up to and including the first newline, or all there is.\<close>

definition ReadBytes :: "bytes \<Rightarrow> bytes" where
  "ReadBytes b = (let l = takeWhile (\<lambda>x. x \<noteq> 0x0A) b in if length l < length b then l @ [0x0A] else l)"

definition readUserPassword :: "cli_env \<Rightarrow> ('r proc, bytes) op" where
  "readUserPassword env =
     (case ce_Stdin env of
        Terminal first second \<Rightarrow>
          bindR (in_proc (complain (OText ''Password: ''))) (\<lambda>_.
          bindR (in_proc (complain (OText nl))) (\<lambda>_.
          bindR (mapE (EWrap ''read password'') (liftR first)) (\<lambda>a.
          bindR (in_proc (complain (OText ''Confirm password: ''))) (\<lambda>_.
          bindR (in_proc (complain (OText nl))) (\<lambda>_.
          bindR (mapE (EWrap ''read password confirmation'') (liftR second)) (\<lambda>b.
          if a \<noteq> b then failR (EText ''passwords do not match'') else retR a))))))
      | NoStdin \<Rightarrow> failR (EText ''no password on stdin'')
      | Piped b \<Rightarrow>
          (let line = ReadBytes b
           in if line = [] then failR (EText ''no password on stdin'') else retR (trim_line line)))"

definition validateUserPassword :: "bytes \<Rightarrow> unit res" where
  "validateUserPassword password =
     (if \<not> Valid password then Inl (EText ''password must be valid UTF-8'')
      else if RuneCount password < minLocalPasswordLen
      then Inl (EText (''password must be at least '' @ show_nat minLocalPasswordLen @ '' characters''))
      else Inr ())"

section \<open>The user command\<close>

record 'r userDeps =
  ud_users :: "'r world UserStore"
  ud_hasher :: "'r world PasswordHasher"
  ud_sink :: "ctx \<Rightarrow> Event \<Rightarrow> 'r world \<Rightarrow> 'r world"

definition cli_event :: "gtime \<Rightarrow> audit_event \<Rightarrow> uuid \<Rightarrow> (string \<times> dval) list \<Rightarrow> Event" where
  "cli_event now ev actor details =
     \<lparr>ev_At = now, ev_Event = ev, ev_ActorID = Some actor, ev_PasteID = None, ev_IP = [], ev_UserAgent = [],
      ev_Outcome = OutcomeSuccess, ev_Details = details\<rparr>"

definition cli_record :: "'r userDeps \<Rightarrow> Event \<Rightarrow> ('r proc, unit) op" where
  "cli_record D ev = in_world (\<lambda>w. (Inr (), ud_sink D background ev w))"

text \<open>The part \<^verbatim>\<open>create\<close> and \<^verbatim>\<open>set-password\<close> share: read, validate and hash a password.\<close>

definition new_password_hash :: "'r userDeps \<Rightarrow> cli_env \<Rightarrow> ('r proc, string) op" where
  "new_password_hash D env =
     bindR (readUserPassword env) (\<lambda>password.
     bindR (liftR (validateUserPassword password)) (\<lambda>_.
     in_world (ph_Hash (ud_hasher D) (string_of password))))"

definition user_create :: "'r env \<Rightarrow> 'r userDeps \<Rightarrow> cli_env \<Rightarrow> userOptions \<Rightarrow> gtime \<Rightarrow> ('r proc, unit) op" where
  "user_create E D env opts now =
     bindR (new_password_hash D env) (\<lambda>passwordHash.
     bindR (in_world (\<lambda>w. (Inr (e_uuid_New E (w_tick w)), tick w))) (\<lambda>i.
     let user = \<lparr>us_ID = i, us_Username = uo_username opts, us_DisplayName = uo_displayName opts,
                 us_Provider = ProviderLocal, us_OIDCIssuer = [], us_OIDCSubject = [], us_PasswordHash = passwordHash,
                 us_IsAdmin = uo_admin opts, us_Disabled = False, us_CreatedAt = now, us_LastLoginAt = None\<rparr>
     in bindR (in_world (up_Create (ud_users D) user)) (\<lambda>_.
        bindR (cli_record D (cli_event now UserCreated i
                 [(''username'', DStr (us_Username user)), (''admin'', DBool (us_IsAdmin user)), (''via'', DStr ''cli'')])) (\<lambda>_.
        in_proc (say (OText (''created user '' @ us_Username user @ '' ('' @ e_uuid_String E i @ '')'' @ nl)))))))"

definition user_set_password :: "'r userDeps \<Rightarrow> cli_env \<Rightarrow> userOptions \<Rightarrow> ('r proc, unit) op" where
  "user_set_password D env opts =
     bindR (in_world (up_GetByUsername (ud_users D) (uo_username opts))) (\<lambda>user.
     if us_Provider user \<noteq> ProviderLocal then failR (EText ''passwords can only be set for local users'')
     else bindR (new_password_hash D env) (\<lambda>passwordHash.
          bindR (in_world (up_SetPasswordHash (ud_users D) (us_ID user) passwordHash)) (\<lambda>_.
          in_proc (say (OText (''password updated for '' @ us_Username user @ nl))))))"

definition bool_text :: "bool \<Rightarrow> string" where
  "bool_text b = (if b then ''true'' else ''false'')"

definition user_set_disabled :: "'r userDeps \<Rightarrow> userOptions \<Rightarrow> gtime \<Rightarrow> bool \<Rightarrow> ('r proc, unit) op" where
  "user_set_disabled D opts now disabled =
     bindR (in_world (up_GetByUsername (ud_users D) (uo_username opts))) (\<lambda>user.
     bindR (in_world (up_SetDisabled (ud_users D) (us_ID user) disabled)) (\<lambda>_.
     bindR (if disabled
            then cli_record D (cli_event now UserDisabled (us_ID user)
                   [(''username'', DStr (us_Username user)), (''via'', DStr ''cli'')])
            else retR ()) (\<lambda>_.
     in_proc (say (OText (us_Username user @ '': disabled='' @ bool_text disabled @ nl))))))"

text \<open>Columns are padded to a number of runes.\<close>

definition pad :: "nat \<Rightarrow> string \<Rightarrow> string" where
  "pad n s = s @ replicate (n - RuneCountInString s) CHR '' ''"

definition list_row :: "string \<Rightarrow> string \<Rightarrow> string \<Rightarrow> string \<Rightarrow> string \<Rightarrow> string \<Rightarrow> string" where
  "list_row i name provider admin disabled login =
     pad 36 i @ '' '' @ pad 24 name @ '' '' @ pad 8 provider @ '' '' @ pad 5 admin @ '' '' @ pad 8 disabled @ '' '' @ login @ nl"

definition user_list :: "'r env \<Rightarrow> 'r userDeps \<Rightarrow> ('r proc, unit) op" where
  "user_list E D =
     bindR (in_world (up_List (ud_users D))) (\<lambda>users.
     in_proc (fold say (map OText (list_row ''ID'' ''USERNAME'' ''PROVIDER'' ''ADMIN'' ''DISABLED'' ''LAST_LOGIN'' #
       map (\<lambda>u. list_row (e_uuid_String E (us_ID u)) (us_Username u)
              (case us_Provider u of ProviderLocal \<Rightarrow> ''local'' | ProviderOIDC \<Rightarrow> ''oidc'')
              (bool_text (us_IsAdmin u)) (bool_text (us_Disabled u))
              (case us_LastLoginAt u of None \<Rightarrow> ''-'' | Some t \<Rightarrow> Format_RFC3339 t)) users))))"

text \<open>The switch over the subcommands, and the exit code: an error is printed.\<close>

definition user_subcommand :: "'r env \<Rightarrow> 'r userDeps \<Rightarrow> cli_env \<Rightarrow> string \<Rightarrow> userOptions \<Rightarrow> gtime \<Rightarrow> ('r proc, unit) op" where
  "user_subcommand E D env subcommand opts now =
     (if subcommand = ''create'' then user_create E D env opts now
      else if subcommand = ''set-password'' then user_set_password D env opts
      else if subcommand = ''disable'' \<or> subcommand = ''enable'' then user_set_disabled D opts now (subcommand = ''disable'')
      else user_list E D)"

definition runUserWith :: "'r env \<Rightarrow> 'r userDeps \<Rightarrow> 'r command" where
  "runUserWith E D env args p =
     (case args of
        [] \<Rightarrow> (2, userUsage p)
      | subcommand # rest \<Rightarrow>
          (case parseUserOptions subcommand rest p of
             (None, p) \<Rightarrow> (2, if isUserSubcommand subcommand then p else userUsage p)
           | (Some opts, p) \<Rightarrow>
               (case bindR (in_world (\<lambda>w. case clock_Now E w of (t, w) \<Rightarrow> (Inr t, w)))
                       (user_subcommand E D env subcommand opts) p of
                  (Inl err, p) \<Rightarrow> (1, complain (OText (''error: '' @ error_text err @ nl)) p)
                | (Inr _, p) \<Rightarrow> (0, p))))"

section \<open>Connecting\<close>

text \<open>
  What the clients do with a URL is theirs (\<^verbatim>\<open>pgxpool\<close>, \<^verbatim>\<open>go-redis\<close>): whether it parses and whether a pool can
  be made of it. The connection is then tried with a ping.
\<close>

record clients =
  cl_pg_Parse :: "string \<Rightarrow> unit res"
  cl_pg_New :: "string \<Rightarrow> unit res"
  cl_redis_Parse :: "string \<Rightarrow> unit res"

definition postgres_Connect :: "'r env \<Rightarrow> clients \<Rightarrow> string \<Rightarrow> ('r world, unit) op" where
  "postgres_Connect E X url =
     bindR (mapE (EWrap ''postgres: parse url'') (liftR (cl_pg_Parse X url))) (\<lambda>_.
     bindR (mapE (EWrap ''postgres: connect'') (liftR (cl_pg_New X url))) (\<lambda>_.
     mapE (EWrap ''postgres: ping'') (PasteStore_Ping E)))"

definition redis_Connect :: "'r env \<Rightarrow> clients \<Rightarrow> string \<Rightarrow> ('r world, unit) op" where
  "redis_Connect E X url =
     bindR (mapE (\<lambda>_. EText ''redis: parse url: invalid configuration'') (liftR (cl_redis_Parse X url))) (\<lambda>_.
     mapE (EWrap ''redis: ping'') (BodyStore_Ping E))"

definition cli_sinks :: "'r env \<Rightarrow> Config \<Rightarrow> ctx \<Rightarrow> Event \<Rightarrow> 'r world \<Rightarrow> 'r world" where
  "cli_sinks E cfg =
     (let log = logging_New (cf_LogLevel cfg)
      in Multi_Record (logSink_Record E log # (if cf_AuditDBEnabled cfg then [AuditStore_Record E log] else [])))"

definition cli_deps :: "'r env \<Rightarrow> string comparator \<Rightarrow> Config \<Rightarrow> 'r userDeps" where
  "cli_deps E collation cfg =
     \<lparr>ud_users = NewUserStore E collation, ud_hasher = NewArgon2Hasher E (ParamsFromConfig (cf_Argon2 cfg)),
      ud_sink = cli_sinks E cfg\<rparr>"

definition runUser :: "'r env \<Rightarrow> clients \<Rightarrow> string comparator \<Rightarrow> 'r command" where
  "runUser E X collation env args p =
     (case args of
        [] \<Rightarrow> (2, userUsage p)
      | subcommand # rest \<Rightarrow>
          (case parseUserOptions subcommand rest p of
             (None, p) \<Rightarrow> (2, if isUserSubcommand subcommand then p else userUsage p)
           | (Some _, p) \<Rightarrow>
               (case Load (ce_Getenv env) of
                  Inl errs \<Rightarrow> (1, complain (OConfig errs) p)
                | Inr cfg \<Rightarrow>
                    (case in_world (postgres_Connect E X (cf_DatabaseURL cfg)) p of
                       (Inl err, p) \<Rightarrow> (1, complain (OText (error_text err @ nl)) p)
                     | (Inr _, p) \<Rightarrow>
                         (let gate = NewGate (ac_MaxConcurrent (cf_Argon2 cfg)) (ac_QueueTimeout (cf_Argon2 cfg));
                              p = p\<lparr>pc_world := (pc_world p)\<lparr>w_gate := gate\<rparr>\<rparr>
                          in runUserWith E (cli_deps E collation cfg) env args p)))))"

section \<open>A created account can log in\<close>

lemma in_world_Inr: "in_world m p = (Inr a, p') \<longleftrightarrow> (\<exists>w. m (pc_world p) = (Inr a, w) \<and> p' = p\<lparr>pc_world := w\<rparr>)"
  by (auto simp: in_world_def split: prod.splits)

lemma in_proc_Inr: "in_proc f p = (Inr x, p') \<longleftrightarrow> p' = f p"
  by (auto simp: in_proc_def)

lemma Authenticate_accepts:
  assumes "healthy E w" and "pg_text (ur_Username r)" and "find (\<lambda>q. ur_Username q = ur_Username r) (w_users w) = Some r"
    and "ur_Provider r = ProviderLocal" and "ur_PasswordHash r = Some phc" and "phc \<noteq> []" and "phc_ok phc" and "phc_accepts E phc pw"
    and "\<not> ur_Disabled r"
  shows "fst (Authenticate (live_local E l collation ps d) c (ur_Username r) pw w) = Inr (scanUser r)"
proof -
  have found: "UserStore_GetByUsername E (ur_Username r) w = (Inr (scanUser r), tick w)"
    using assms(2,3) by (simp add: UserStore_GetByUsername_def db_call_healthy [OF assms(1)] select_user_def)
  have "fst (Acquire (e_select E (w_tick (tick w))) (w_gate (tick w))) = None"
    using healthy_now(2) [OF healthy_tick [OF assms(1)]] assms(1) by (simp add: Acquire_def healthy_def)
  then have "fst (Argon2Hasher_Verify E phc pw (tick w)) = Inr True"
    using Verify_outcome [OF assms(7), of E pw "tick w"] assms(8) by (simp only: option.case)
  with found assms(4-6,9) show ?thesis
    by (simp add: Authenticate_def live_local_def NewUserStore_def NewArgon2Hasher_def fst_bindR userColumn_or_empty_def)
qed

lemma Hash_silent: "silent w (snd (Argon2Hasher_Hash E ps pw w))"
  unfolding Argon2Hasher_Hash_def HashPassword_def snd_mapE by (intro bindR_silent envelope_silent) simp

lemma Hash_usable:
  assumes "Argon2Hasher_Hash E ps pw w = (Inr phc, w')"
  shows "phc \<noteq> []" "phc_ok phc" "phc_accepts E phc pw"
proof -
  have h: "HashPassword E pw ps w = (Inr phc, w')"
    using assms by (simp add: Argon2Hasher_Hash_def mapE_Inr)
  then obtain salt where phc: "phc = phc_string ps salt (e_argon2 E (bytes_of pw) salt (ap_Time ps) (ap_MemoryKiB ps) (ap_Threads ps) keyLen)"
    using HashPassword_Inr(3) by blast
  then show "phc \<noteq> []" by (simp add: phc_string_def)
  show "phc_ok phc" using HashPassword_Inr(1,2) [OF h] by (simp add: phc_ok_def phc parse_phc_string)
  show "phc_accepts E phc pw" using argon2.hash_accepted [of E ps pw w phc w'] assms by (simp add: NewArgon2Hasher_def)
qed

lemma cli_sinks_keep:
  "w_users (cli_sinks E cfg c e w) = w_users w" "w_pastes (cli_sinks E cfg c e w) = w_pastes w" "w_gate (cli_sinks E cfg c e w) = w_gate w"
  "w_tick w \<le> w_tick (cli_sinks E cfg c e w)"
  by (simp_all add: cli_sinks_def Let_def le_trans [OF logSink_keeps(6) AuditStore_Record_keeps(5)])

text \<open>What is read does not depend on what was written.\<close>

lemma readUserPassword_same: "fst (readUserPassword env p) = fst (readUserPassword env q)"
  by (auto simp: readUserPassword_def bindR_def mapE_def in_proc_def liftR_def Let_def split: stdin.splits sum.splits)

text \<open>What a successful \<^verbatim>\<open>create\<close> did: the account is the last row.\<close>

lemma user_create_Inr:
  assumes "user_create E (cli_deps E collation cfg) env opts now p = (Inr (), p')"
  obtains password phc r where "fst (readUserPassword env p) = Inr password" "minLocalPasswordLen \<le> RuneCount password"
    "phc \<noteq> []" "phc_ok phc" "phc_accepts E phc (string_of password)"
    "w_users (pc_world p') = w_users (pc_world p) @ [r]" "\<not> list_ex (conflicts r) (w_users (pc_world p))" "user_columns_text r"
    "ur_Username r = uo_username opts" "ur_Provider r = ProviderLocal" "ur_PasswordHash r = Some phc" "ur_IsAdmin r = uo_admin opts"
    "\<not> ur_Disabled r"
proof -
  have read: "pc_world q = pc_world p" if "readUserPassword env p = (Inr pw, q)" for pw q
    using that by (auto simp: readUserPassword_def bindR_Inr in_proc_Inr complain_def Let_def mapE_Inr split: stdin.splits if_splits)
  from assms obtain password p1 phc w2 i w3 where
    1: "readUserPassword env p = (Inr password, p1)" "validateUserPassword password = Inr ()"
      "Argon2Hasher_Hash E (ParamsFromConfig (cf_Argon2 cfg)) (string_of password) (pc_world p1) = (Inr phc, w2)"
    and 2: "UserStore_Create E \<lparr>us_ID = i, us_Username = uo_username opts, us_DisplayName = uo_displayName opts,
        us_Provider = ProviderLocal, us_OIDCIssuer = [], us_OIDCSubject = [], us_PasswordHash = phc,
        us_IsAdmin = uo_admin opts, us_Disabled = False, us_CreatedAt = now, us_LastLoginAt = None\<rparr> (tick w2) = (Inr (), w3)"
    and 3: "w_users (pc_world p') = w_users w3"
    by (auto simp: user_create_def new_password_hash_def bindR_Inr in_world_Inr in_proc_Inr Let_def cli_deps_def NewArgon2Hasher_def
        NewUserStore_def cli_record_def say_def cli_sinks_keep)
  have w2: "w_users w2 = w_users (pc_world p)"
    using silentD(3) [OF Hash_silent, of E "ParamsFromConfig (cf_Argon2 cfg)" "string_of password" "pc_world p1"] 1(3) read [OF 1(1)]
    by simp
  from 2 obtain r where r: "insert_user r (tick (tick w2)) = (Inr (), w3)" "ur_Username r = uo_username opts" "ur_Provider r = ProviderLocal"
    "ur_PasswordHash r = nullableString phc" "ur_IsAdmin r = uo_admin opts" "\<not> ur_Disabled r"
    by (fastforce simp: UserStore_Create_def mapE_Inr db_call_Inr)
  note h = Hash_usable [OF 1(3)]
  show thesis
    using 1(1,2) 3 r h w2
    by (intro that [of password phc r]) (auto simp: validateUserPassword_def insert_user_def nullableString_def split: if_splits)
qed

text \<open>C28. An account made with \<^verbatim>\<open>pastebin user create\<close> can log in: when the command returns 0, the password that was
  read has at least twelve characters, and a login with the given username and that password is accepted from
  then on while the services answer, for an enabled local account with the administrator flag that was asked for.\<close>

theorem user_create_then_login:
  assumes "runUserWith E (cli_deps E collation cfg) env (''create'' # args) p = (0, p')" and "healthy E (pc_world p')"
  shows "\<exists>opts password u. parse_flags (user_flags ''create'') args no_options = Some (opts, []) \<and>
     12 \<le> RuneCount password \<and>
     fst (readUserPassword env p) = Inr password \<and>
     fst (Authenticate (live_local E l collation ps d) c (uo_username opts) (string_of password) (pc_world p')) = Inr u \<and>
     us_Username u = uo_username opts \<and> us_Provider u = ProviderLocal \<and> us_IsAdmin u = uo_admin opts \<and> \<not> us_Disabled u"
proof -
  from assms(1) obtain opts now q where opts: "parse_flags (user_flags ''create'') args no_options = Some (opts, [])"
    and run: "user_create E (cli_deps E collation cfg) env opts now q = (Inr (), p')"
    by (auto simp: runUserWith_def parseUserOptions_def isUserSubcommand_def user_subcommand_def bindR_Inr split: prod.splits sum.splits
        option.splits if_splits)
  from run show ?thesis
  proof (cases rule: user_create_Inr)
    case (1 password phc r)
    have "find (\<lambda>x. ur_Username x = ur_Username r) (w_users (pc_world q)) = None"
      using 1(7) by (auto simp: find_None_iff list_ex_iff conflicts_def)
    then have "find (\<lambda>x. ur_Username x = ur_Username r) (w_users (pc_world p')) = Some r"
      by (simp add: 1(6) find_append)
    moreover have "pg_text (ur_Username r)" using 1(8) by (simp add: user_columns_text_def)
    ultimately have "fst (Authenticate (live_local E l collation ps d) c (ur_Username r) (string_of password) (pc_world p')) = Inr (scanUser r)"
      using 1(3-5,10,11,13) by (intro Authenticate_accepts [OF assms(2)])
    with 1 opts readUserPassword_same [of env q p] show ?thesis
      by (intro exI [of _ opts] exI [of _ password] exI [of _ "scanUser r"]) (auto simp: minLocalPasswordLen_def)
  qed
qed

section \<open>A sample command\<close>

definition sample_cli_config :: Config where
  "sample_cli_config = (load_config sample_loader)\<lparr>cf_Argon2 := \<lparr>ac_MaxConcurrent = 4, ac_QueueTimeout = 2 * Second,
     ac_MemoryKiB = 32768, ac_Time = 3, ac_Threads = 2\<rparr>, cf_AuditDBEnabled := False, cf_LogLevel := ''error''\<rparr>"

definition sample_password :: string where "sample_password = ''correct horse battery''"

definition sample_cli_env :: cli_env where
  "sample_cli_env = \<lparr>ce_Getenv = sample_loader, ce_Stdin = Piped (bytes_of sample_password @ [0x0A])\<rparr>"

definition sample_proc :: "mem proc" where
  "sample_proc = \<lparr>pc_world = sample_world, pc_out = [], pc_err = []\<rparr>"

lemma RuneCount_ascii: "list_all (\<lambda>b. b < 0x80) s \<Longrightarrow> RuneCount s = length s"
  by (induction s) (simp_all add: RuneCount.simps [of "_ # _"] rune_size_ascii)

text \<open>A printed hash is text the database accepts.\<close>

lemma phc_text: "pg_text (phc_string p salt k)"
proof -
  let ?ok = "\<lambda>c. 0 < (of_char c :: nat) \<and> (of_char c :: nat) < 128"
  have "list_all ?ok (CHR ''='' # std_alphabet)" by code_simp
  then have b64: "list_all ?ok (RawStd_Encode b)" for b
    using std64.set_EncodeToString by (fastforce simp: list_all_iff)
  have "?ok c" if "char_digit c \<noteq> None" for c
    using that by (auto simp: char_digit_def Let_def split: if_splits)
  then have digits: "list_all ?ok (show_nat n)" for n
    using show_nat_digits unfolding list_all_iff by blast
  show ?thesis
    unfolding phc_string_def by (rule pg_text_ascii) (simp add: b64 digits)
qed

lemma sample_input:
  "trim_line (ReadBytes (bytes_of sample_password @ [0x0A])) = bytes_of sample_password"
  "ReadBytes (bytes_of sample_password @ [0x0A]) \<noteq> []"
  "validateUserPassword (bytes_of sample_password) = Inr ()"
  by (simp_all add: sample_password_def bytes_of_def ReadBytes_def trim_line_def validateUserPassword_def Valid_ascii RuneCount_ascii
      minLocalPasswordLen_def)

lemma Hash_healthy:
  assumes "healthy E w" and "ap_Time ps \<noteq> 0" and "ap_Threads ps \<noteq> 0"
  shows "\<exists>phc w'. Argon2Hasher_Hash E ps pw w = (Inr phc, w') \<and> pg_text phc \<and> silent w w'"
proof -
  have "slot_free E (tick w)" "e_rand E (w_tick w) 16 \<noteq> None"
    using assms(1) healthy_now(3) [OF assms(1)] healthy_now(2) [OF healthy_tick [OF assms(1)]] by (auto simp: slot_free_def healthy_def)
  from HashPassword_healthy [OF this assms(2,3)] obtain phc w' where h: "HashPassword E pw ps w = (Inr phc, w')" by blast
  then have "pg_text phc" using HashPassword_Inr(3) phc_text by blast
  moreover have "Argon2Hasher_Hash E ps pw w = (Inr phc, w')"
    using h by (simp add: Argon2Hasher_Hash_def mapE_Inr)
  ultimately show ?thesis using Hash_silent [of w E ps pw] by auto
qed

text \<open>With services that answer, an acceptable account is created.\<close>

lemma user_create_succeeds:
  assumes "healthy E (pc_world p)" and "readUserPassword env p = (Inr password, p)" and "validateUserPassword password = Inr ()"
    and "ap_Time (ParamsFromConfig (cf_Argon2 cfg)) \<noteq> 0" and "ap_Threads (ParamsFromConfig (cf_Argon2 cfg)) \<noteq> 0"
    and "pg_text (uo_username opts)" and "uo_displayName opts = []" and "uo_username opts \<notin> ur_Username ` set (w_users (pc_world p))"
    and fresh: "\<And>n. w_tick (pc_world p) \<le> n \<Longrightarrow> e_uuid_New E n \<notin> ur_ID ` set (w_users (pc_world p))"
  shows "\<exists>p'. user_create E (cli_deps E collation cfg) env opts now p = (Inr (), p') \<and> healthy E (pc_world p')"
proof -
  let ?D = "cli_deps E collation cfg"
  from Hash_healthy [OF assms(1,4,5)] obtain phc w2
    where 2: "Argon2Hasher_Hash E (ParamsFromConfig (cf_Argon2 cfg)) (string_of password) (pc_world p) = (Inr phc, w2)" "pg_text phc"
      "silent (pc_world p) w2" by blast
  have h2: "healthy E (tick w2)" using healthy_tick [OF healthy_silent [OF assms(1) 2(3)]] .
  let ?i = "e_uuid_New E (w_tick w2)"
  let ?u = "\<lparr>us_ID = ?i, us_Username = uo_username opts, us_DisplayName = uo_displayName opts,
        us_Provider = ProviderLocal, us_OIDCIssuer = [], us_OIDCSubject = [], us_PasswordHash = phc,
        us_IsAdmin = uo_admin opts, us_Disabled = False, us_CreatedAt = now, us_LastLoginAt = None\<rparr>"
  have users: "w_users w2 = w_users (pc_world p)" "?i \<notin> ur_ID ` set (w_users w2)"
    using silentD(3,7) [OF 2(3)] fresh by auto
  have "\<exists>w3. UserStore_Create E ?u (tick w2) = (Inr (), w3) \<and> w_gate w3 = w_gate w2 \<and> Suc (w_tick w2) \<le> w_tick w3"
    using users assms(6-8) 2(2)
    by (auto simp: UserStore_Create_def mapE_def db_call_healthy [OF h2] insert_user_def user_columns_text_def nullableString_def
        list_ex_iff conflicts_def oidc_key_def image_iff)
  then obtain w3 where 3: "UserStore_Create E ?u (tick w2) = (Inr (), w3)" "w_gate w3 = w_gate w2" "Suc (w_tick w2) \<le> w_tick w3" by blast
  have h3: "healthy E (cli_sinks E cfg background e w3)" for e
    using healthy_later [OF h2, of "cli_sinks E cfg background e w3"] 3(2,3) silentD(6) [OF 2(3)] cli_sinks_keep(3) [of E cfg background e w3]
      cli_sinks_keep(4) [of w3 E cfg background e]
    by simp
  show ?thesis
    using assms(2,3) 2(1) 3(1) h3
    by (simp add: user_create_def new_password_hash_def bindR_def in_world_def in_proc_def cli_deps_def NewArgon2Hasher_def NewUserStore_def
        cli_record_def Let_def say_def)
qed

lemma sample_options:
  "parse_flags (user_flags ''create'') [''--username'', ''grace''] no_options =
     Some (\<lparr>uo_username = ''grace'', uo_displayName = [], uo_admin = False\<rparr>, [])"
  by (simp add: user_flags_def no_options_def flag_word_def split_flag_def Let_def)

declare parse_flags.simps [simp del]

lemma sample_create:
  "\<exists>p'. runUserWith sample_env (cli_deps sample_env flat sample_cli_config) sample_cli_env [''create'', ''--username'', ''grace'']
     sample_proc = (0, p') \<and> healthy sample_env (pc_world p')"
proof -
  let ?opts = "\<lparr>uo_username = ''grace'', uo_displayName = [], uo_admin = False\<rparr>" and ?p = "sample_proc\<lparr>pc_world := tick sample_world\<rparr>"
  have "healthy sample_env (pc_world ?p)"
    by (simp add: healthy_def sample_env_def sample_world_def NewGate_def)
  moreover have "readUserPassword sample_cli_env ?p = (Inr (bytes_of sample_password), ?p)"
    using sample_input(1,2) by (simp add: readUserPassword_def sample_cli_env_def)
  moreover have "pg_text ''grace''" by (rule pg_text_ascii) simp
  ultimately obtain p' where
    "user_create sample_env (cli_deps sample_env flat sample_cli_config) sample_cli_env ?opts (fst (clock_Now sample_env sample_world)) ?p = (Inr (), p')"
    "healthy sample_env (pc_world p')"
    using user_create_succeeds [where p = ?p and E = sample_env and env = sample_cli_env and cfg = sample_cli_config and opts = ?opts
        and collation = flat] sample_input(3)
    by (fastforce simp: sample_cli_config_def ParamsFromConfig_def sample_world_def)
  then show ?thesis
    by (simp add: runUserWith_def parseUserOptions_def isUserSubcommand_def sample_options user_subcommand_def bindR_def in_world_def clock_Now_def
        sample_proc_def)
qed

theorem user_create_then_login_witness:
  "\<exists>p' u. runUserWith sample_env (cli_deps sample_env flat sample_cli_config) sample_cli_env [''create'', ''--username'', ''grace'']
       sample_proc = (0, p') \<and>
     fst (Authenticate (live_local sample_env sample_live flat sample_params sample_phc) background ''grace'' sample_password (pc_world p')) = Inr u \<and>
     us_Username u = ''grace'' \<and> \<not> us_IsAdmin u"
proof -
  obtain p' where p: "runUserWith sample_env (cli_deps sample_env flat sample_cli_config) sample_cli_env [''create'', ''--username'', ''grace'']
     sample_proc = (0, p')" "healthy sample_env (pc_world p')" using sample_create by blast
  have "fst (readUserPassword sample_cli_env sample_proc) = Inr (bytes_of sample_password)"
    using sample_input(1,2) by (simp add: readUserPassword_def sample_cli_env_def)
  then show ?thesis
    using user_create_then_login [OF p, of sample_live sample_params sample_phc background] p(1) sample_options by auto
qed

end
