(* ===== verification/System.thy ===== *)
theory System
  imports Durable Cli
begin

text \<open>
  The running system: requests to the HTTP handler over the repository's stores, passes of the sweeper,
  administration commands, restarts and losses of Redis, in any order. The invariants of \<open>Durable\<close> hold in
  every state that can be reached.
\<close>

section \<open>The handlers over the repository's services\<close>

text \<open>The challenge is not part of the repository; what is used of it is that it leaves the tables alone.\<close>

definition leaves_tables :: "('r world \<Rightarrow> 'x \<times> 'r world) \<Rightarrow> bool" where
  "leaves_tables m \<longleftrightarrow>
     (\<forall>w. w_users (snd (m w)) = w_users w \<and> w_pastes (snd (m w)) = w_pastes w \<and> w_tick w \<le> w_tick (snd (m w)))"

definition chal_ok :: "'r world Challenger option \<Rightarrow> bool" where
  "chal_ok chal \<longleftrightarrow>
     (case chal of None \<Rightarrow> True
      | Some ch \<Rightarrow> (\<forall>c u tok x. leaves_tables (ch_Issue ch c u) \<and> leaves_tables (ch_Verify ch c u tok x) \<and>
                      leaves_tables (ch_Consume ch c u tok)))"

definition flow_of :: "'r env \<Rightarrow> live_config \<Rightarrow> string comparator \<Rightarrow> (OIDCConfig \<times> idp) option \<Rightarrow> 'r OIDC option" where
  "flow_of E l collation o' = map_option (\<lambda>(ocfg, P). live_oidc E l collation ocfg P) o'"

lemma proc_output [simp]:
  "pc_world (say x p) = pc_world p" "pc_world (complain x p) = pc_world p" "pc_world (fold say xs p) = pc_world p"
  "pc_world (fold complain xs p) = pc_world p"
proof -
  show "pc_world (say x p) = pc_world p" "pc_world (complain x p) = pc_world p" for x and p :: "'a proc"
    by (simp_all add: say_def complain_def)
  then show "pc_world (fold say xs p) = pc_world p" "pc_world (fold complain xs p) = pc_world p"
    by (induction xs arbitrary: p) simp_all
qed

context store_invariant
begin

lemma kept_leaves: "leaves_tables m \<Longrightarrow> kept Q m"
  by (rule kept_frame) (simp add: leaves_tables_def)

lemma live_served:
  assumes "chal_ok chal"
  shows "handler_ports Q (live_handlers E cfg l collation d (flow_of E l collation o') chal lim)"
proof -
  let ?h = "live_handlers E cfg l collation d (flow_of E l collation o') chal lim"
  note ports = live_handlers_def NewService_def NewSessionStore_def live_login_ports
  have chal: "kept Q (ch_Issue ch c u)" "kept Q (ch_Verify ch c u tok x)" "kept Q (ch_Consume ch c u tok)"
    if "hs_chal ?h = Some ch" for ch c u tok x
    using that assms by (auto simp: chal_ok_def live_handlers_def intro!: kept_leaves)
  have oidc: "kept Q (of_Start f)" "kept Q (of_Complete f c st code)" if "hs_oidc ?h = Some f" for f c st code
    using that kept_oidc by (auto simp: live_handlers_def flow_of_def)
  show ?thesis
    by unfold_locales
       (auto simp: ports intro: kept_service_Create kept_service_Read kept_service_small kept_reads kept_sessions kept_limiter kept_sink
          kept_steps kept_Authenticate chal oidc)
qed

lemma kept_password: "kept (\<lambda>p. Q (pc_world p)) (readUserPassword env)"
proof -
  have "kept (\<lambda>p. Q (pc_world p)) (in_proc (complain x))" for x
    by (simp add: kept_def in_proc_def complain_def)
  then show ?thesis
    unfolding readUserPassword_def Let_def by (cases "ce_Stdin env"; simp only: stdin.case; intro keep)
qed

lemma kept_user_subcommand:
  "kept (\<lambda>p. Q (pc_world p)) (user_subcommand E (cli_deps E collation cfg) env sub opts now)"
proof -
  have in_w: "kept (\<lambda>p. Q (pc_world p)) (in_world m)" if "kept Q m" for m
    using that by (auto simp: kept_def in_world_def split_beta)
  have out: "kept (\<lambda>p. Q (pc_world p)) (in_proc (say x))" "kept (\<lambda>p. Q (pc_world p)) (in_proc (fold say xs))" for x xs
    by (simp_all add: kept_def in_proc_def say_def proc_output)
  have sink: "kept_by Q (cli_sinks E cfg c e)" for c e
    by (rule kept_by_frame) (simp add: cli_sinks_keep)
  have ports: "ud_users (cli_deps E collation cfg) = NewUserStore E collation" "ud_sink (cli_deps E collation cfg) = cli_sinks E cfg"
    "ud_hasher (cli_deps E collation cfg) = NewArgon2Hasher E (ParamsFromConfig (cf_Argon2 cfg))"
    by (simp_all add: cli_deps_def)
  show ?thesis
    unfolding user_subcommand_def user_create_def user_set_password_def user_set_disabled_def user_list_def new_password_hash_def
      cli_record_def ports live_login_ports Let_def
    by (intro keep in_w out kept_password kept_hasher kept_open(6) sink kept_reads user_writes kept_steps)
qed

lemma kept_cli: "Q (pc_world p) \<Longrightarrow> Q (pc_world (snd (runUserWith E (cli_deps E collation cfg) env args p)))"
proof (cases args)
  case (Cons sub rest)
  assume Q: "Q (pc_world p)"
  let ?now = "in_world (\<lambda>w. case clock_Now E w of (t, w) \<Rightarrow> (Inr t, w))"
  have "kept (\<lambda>p. Q (pc_world p)) (bindR ?now (user_subcommand E (cli_deps E collation cfg) env sub opts))" for opts
    using keptD(2) [OF kept_steps(7)]
    by (intro keep kept_user_subcommand) (simp add: kept_def in_world_def clock_Now_def)
  note step = keptD(1) [OF this]
  have "pc_world (snd (parseUserOptions sub rest p)) = pc_world p"
    by (auto simp: parseUserOptions_def invalidUserArgs_def userUsage_def split: option.splits)
  then obtain o' p1 where p1: "parseUserOptions sub rest p = (o', p1)" "Q (pc_world p1)"
    using Q by (cases "parseUserOptions sub rest p") auto
  show ?thesis
  proof (cases o')
    case (Some opts)
    with step [OF p1(2), of opts] show ?thesis
      by (cases "bindR ?now (user_subcommand E (cli_deps E collation cfg) env sub opts) p1")
         (simp add: runUserWith_def Cons p1(1) split: sum.splits)
  qed (use p1 in \<open>simp add: runUserWith_def Cons userUsage_def\<close>)
qed (simp add: runUserWith_def userUsage_def proc_output)

end

section \<open>Two invariants\<close>

text \<open>The schema with its constraints.\<close>

interpretation schema: store_invariant E "world_ok E" for E :: "'r env"
proof unfold_locales
  fix w w' v :: "'r world" and m :: PasteMeta and i by' :: uuid and at :: gtime and ids u phc d
  show "world_ok E w'" if "world_ok E w" "w_users w' = w_users w" "w_pastes w' = w_pastes w" for w w'
    using that world_ok_cong by blast
  show "kept (world_ok E) (PasteStore_Create E m)" "kept (world_ok E) (PasteStore_IncrementViews E i)"
    "kept (world_ok E) (PasteStore_MarkDeleted E i by' at)" "kept (world_ok E) (PasteStore_MarkExpiredAudited E ids at)"
    "kept (world_ok E) (PasteStore_PurgeCompletedOlderThan E at)"
    by (simp_all add: kept_def PasteStore_world_ok)
  show "kept (world_ok E) (UserStore_Create E u)" "kept (world_ok E) (UserStore_UpsertOIDC E u)"
    "kept (world_ok E) (UserStore_SetPasswordHash E i phc)" "kept (world_ok E) (UserStore_SetDisabled E i d)"
    "kept (world_ok E) (UserStore_TouchLogin E i at)"
    unfolding kept_def UserStore_Create_def UserStore_UpsertOIDC_def UserStore_SetPasswordHash_def UserStore_SetDisabled_def
      UserStore_TouchLogin_def snd_mapE
    by (intro allI impI db_call_world_ok; simp add: insert_user_world_ok upsert_user_world_ok update_users_world_ok same_keys_def oidc_key_def)+
qed

text \<open>A paste is gone: its row is deleted or absent and its identifier will not be generated again.\<close>

definition gone :: "'r env \<Rightarrow> uuid \<Rightarrow> 'r world \<Rightarrow> bool" where
  "gone E i w \<longleftrightarrow>
     (\<forall>n \<ge> w_tick w. e_uuid_New E n \<noteq> i) \<and> (\<forall>m \<in> set (w_pastes w). pm_ID m = i \<longrightarrow> pm_DeletedAt m \<noteq> None)"

lemma gone_frame: "gone E i w \<Longrightarrow> w_pastes w' = w_pastes w \<Longrightarrow> w_tick w \<le> w_tick w' \<Longrightarrow> gone E i w'"
  by (auto simp: gone_def)

lemma gone_statement:
  assumes "gone E i w" and "w_tick (snd (stmt (tick w))) = Suc (w_tick w)"
    and "\<And>m. m \<in> set (w_pastes (snd (stmt (tick w)))) \<Longrightarrow> pm_ID m = i \<Longrightarrow>
      (\<And>q. q \<in> set (w_pastes w) \<Longrightarrow> pm_ID q = i \<Longrightarrow> pm_DeletedAt q \<noteq> None) \<Longrightarrow> pm_DeletedAt m \<noteq> None"
  shows "gone E i (snd (db_call E stmt w))"
  by (rule db_call_snd [of E stmt w]) (use assms in \<open>auto simp: gone_def\<close>)

lemma gone_update:
  assumes "gone E i w" and "\<And>m. pm_ID (f m) = pm_ID m" and "\<And>m. pm_DeletedAt m \<noteq> None \<Longrightarrow> pm_DeletedAt (f m) \<noteq> None"
  shows "gone E i (snd (db_call E (\<lambda>w. update_pastes P (bad w) f w) w))"
proof (rule gone_statement [OF assms(1)])
  fix m assume m: "m \<in> set (w_pastes (snd (update_pastes P (bad (tick w)) f (tick w))))" "pm_ID m = i"
    and old: "\<And>q. q \<in> set (w_pastes w) \<Longrightarrow> pm_ID q = i \<Longrightarrow> pm_DeletedAt q \<noteq> None"
  from m update_pastes_snd [of P "bad (tick w)" f "tick w"] consider "m \<in> set (w_pastes w)"
    | q where "q \<in> set (w_pastes w)" "m = (if P q then f q else q)" by auto
  then show "pm_DeletedAt m \<noteq> None"
    using m(2) old assms(2,3) by cases (auto split: if_splits)
qed simp

lemma upsert_user_keeps [simp]:
  "w_pastes (snd (upsert_user E r w)) = w_pastes w" "w_tick (snd (upsert_user E r w)) = w_tick w"
  by (auto simp: upsert_user_def insert_user_def Let_def split: option.splits prod.splits sum.splits if_splits)

interpretation deletion: store_invariant E "gone E i" for E :: "'r env" and i :: uuid
proof unfold_locales
  show "gone E i w'" if "gone E i w" "w_pastes w' = w_pastes w" "w_tick w \<le> w_tick w'" for w w' :: "'r world"
    using that by (rule gone_frame)
  show "kept (gone E i) (PasteStore_Create E m)" if v: "gone E i v" "pm_ID m = e_uuid_New E (w_tick v)" for v :: "'r world" and m
    unfolding kept_def PasteStore_Create_def
  proof (intro allI impI gone_statement)
    fix s :: "'r world" and q
    assume "q \<in> set (w_pastes (snd (insert_paste E m (tick s))))" "pm_ID q = i"
      "\<And>q. q \<in> set (w_pastes s) \<Longrightarrow> pm_ID q = i \<Longrightarrow> pm_DeletedAt q \<noteq> None"
    moreover have "pm_ID m \<noteq> i" using v by (auto simp: gone_def)
    ultimately show "pm_DeletedAt q \<noteq> None"
      using insert_paste_snd [of E m "tick s"] by auto
  qed simp_all
  show "kept (gone E i) (PasteStore_IncrementViews E j)" "kept (gone E i) (PasteStore_MarkDeleted E j u t)" for j u t
    unfolding kept_def PasteStore_IncrementViews_def PasteStore_MarkDeleted_def by (intro allI impI gone_update; simp)+
  show "kept (gone E i) (PasteStore_MarkExpiredAudited E ids t)" for ids t
    unfolding PasteStore_MarkExpiredAudited_def
    by (intro keep) (unfold kept_def, intro allI impI gone_update; simp)
  show "kept (gone E i) (PasteStore_PurgeCompletedOlderThan E t)" for t
    unfolding kept_def PasteStore_PurgeCompletedOlderThan_def
    by (intro allI impI gone_statement) (auto simp: delete_pastes_def)
  show "kept (gone E i) (UserStore_Create E u)" "kept (gone E i) (UserStore_UpsertOIDC E u)" "kept (gone E i) (UserStore_SetPasswordHash E j phc)"
    "kept (gone E i) (UserStore_SetDisabled E j b)" "kept (gone E i) (UserStore_TouchLogin E j t)" for u j phc b t
    unfolding kept_def UserStore_Create_def UserStore_UpsertOIDC_def UserStore_SetPasswordHash_def UserStore_SetDisabled_def
      UserStore_TouchLogin_def snd_mapE
    by (intro allI impI gone_statement; auto split: if_splits)+
qed

section \<open>Reachable states\<close>

record 'r deployment =
  dp_env :: "'r env"
  dp_live :: live_config
  dp_collation :: "string comparator"
  dp_cfg :: Config
  dp_dummy :: string
  dp_oidc :: "(OIDCConfig \<times> idp) option"
  dp_chal :: "'r world Challenger option"
  dp_limiter :: RedisLimiter
  dp_mux :: mux_lib
  dp_static :: "(string \<Rightarrow> bytes option) option"
  dp_sweeper :: sweeper_Config

definition dp_handlers :: "'r deployment \<Rightarrow> 'r handlers" where
  "dp_handlers D =
     live_handlers (dp_env D) (dp_cfg D) (dp_live D) (dp_collation D) (dp_dummy D)
       (flow_of (dp_env D) (dp_live D) (dp_collation D) (dp_oidc D)) (dp_chal D) (dp_limiter D)"

definition dp_ready :: "'r deployment \<Rightarrow> (string \<times> ('r world, unit) op) list" where
  "dp_ready D = [(''postgres'', PasteStore_Ping (dp_env D)), (''redis'', BodyStore_Ping (dp_env D))]"

text \<open>
  Steps: a request, a pass of the sweeper, a command of an administrator, and what may happen in between: the
  interaction counter advances, Redis loses or changes anything, the process restarts with a fresh gate, log and
  metrics.
\<close>

inductive sys_step :: "'r deployment \<Rightarrow> 'r world \<Rightarrow> 'r world \<Rightarrow> bool" for D where
  request: "sys_step D w (snd (ServeHTTP (dp_env D) (dp_mux D) (dp_handlers D) (dp_ready D) (dp_static D) r w))"
| sweep: "sys_step D w (snd (RunOnce (live_sweeper (dp_env D) (dp_live D) (dp_sweeper D)) c w))"
| admin: "sys_step D (pc_world p) (pc_world (snd (runUserWith (dp_env D) (cli_deps (dp_env D) (dp_collation D) (dp_cfg D)) env args p)))"
| other: "w_users w' = w_users w \<Longrightarrow> w_pastes w' = w_pastes w \<Longrightarrow> w_tick w \<le> w_tick w' \<Longrightarrow> sys_step D w w'"

context store_invariant
begin

lemma step_kept:
  assumes "sys_step D w w'" and "dp_env D = E" and "chal_ok (dp_chal D)" and "Q w"
  shows "Q w'"
  using assms(1)
proof cases
  case (request r)
  have "handler_ports Q (dp_handlers D)"
    using live_served [OF assms(3)] assms(2) by (simp add: dp_handlers_def)
  then have "Q (snd (ServeHTTP E (dp_mux D) (dp_handlers D) (dp_ready D) (dp_static D) r w))"
    by (rule handler_ports.serves) (use assms(2,4) kept_steps kept_reads kept_bodies in \<open>auto simp: dp_ready_def\<close>)
  with request assms(2) show ?thesis by simp
next
  case (sweep c)
  then show ?thesis using keptD(1) [OF kept_sweeper] assms(2,4) by simp
next
  case (admin p env args)
  then show ?thesis using kept_cli [of p] assms(2,4) by simp
next
  case other
  with assms(4) frame show ?thesis by blast
qed

lemma reachable_kept:
  "(sys_step D)\<^sup>*\<^sup>* w w' \<Longrightarrow> dp_env D = E \<Longrightarrow> chal_ok (dp_chal D) \<Longrightarrow> Q w \<Longrightarrow> Q w'"
  by (induction rule: rtranclp_induct) (auto intro: step_kept)

end

text \<open>The handlers of a deployment without a challenge, over the repository's services.\<close>

interpretation api: handler_ports "world_ok E" "live_handlers E cfg l collation d (flow_of E l collation o') None lim"
  for E :: "'r env" and cfg l collation d o' lim
  by (rule schema.live_served) (simp add: chal_ok_def)

lemma gone_read:
  assumes "gone E i w" and "service_Read (live_deps E l) c p i pw w = (Inr res, w')"
  shows "rr_Status res = StatusDeleted \<and> rr_Content res = None"
proof -
  from assms(2) obtain m u where m: "PasteStore_Get E i w = (Inr m, u)"
    by (auto simp: service_Read_def bindR_Inr live_deps_def NewPasteStore_def)
  then have "find (\<lambda>m. pm_ID m = i) (w_pastes w) = Some m"
    by (auto simp: PasteStore_Get_def db_call_Inr split: option.splits)
  with assms(1) find_row have "pm_DeletedAt m \<noteq> None" by (fastforce simp: gone_def)
  with assms(2) m show ?thesis
    by (auto simp: service_Read_def bindR_def schema.live_ports meta_Status_def Let_def)
qed

text \<open>C11. Deletion is final: once a paste is deleted (or purged) and as long as its identifier is not generated
  again, no sequence of requests, sweeps, administration commands, restarts and losses of Redis, whatever becomes
  of their calls, makes a read return its content, and all along the tables satisfy the schema.\<close>

theorem deletion_final:
  assumes "(sys_step D)\<^sup>*\<^sup>* w w'" and "chal_ok (dp_chal D)" and "world_ok (dp_env D) w"
    and "\<And>m. m \<in> set (w_pastes w) \<Longrightarrow> pm_ID m = i \<Longrightarrow> pm_DeletedAt m \<noteq> None"
    and "\<And>n. w_tick w \<le> n \<Longrightarrow> e_uuid_New (dp_env D) n \<noteq> i"
  shows "world_ok (dp_env D) w' \<and>
    (\<forall>l c p pw res w''. service_Read (live_deps (dp_env D) l) c p i pw w' = (Inr res, w'') \<longrightarrow>
       rr_Status res = StatusDeleted \<and> rr_Content res = None)"
proof -
  have "gone (dp_env D) i w" using assms(4,5) by (auto simp: gone_def)
  then have "gone (dp_env D) i w'" using deletion.reachable_kept [OF assms(1) refl assms(2)] by blast
  moreover have "world_ok (dp_env D) w'" using schema.reachable_kept [OF assms(1) refl assms(2,3)] .
  ultimately show ?thesis using gone_read by blast
qed

section \<open>A sample run\<close>

definition sample_deployment :: "mem deployment" where
  "sample_deployment =
     \<lparr>dp_env = sample_env\<lparr>e_uuid_New := (\<lambda>_. 3)\<rparr>, dp_live = sample_live, dp_collation = flat, dp_cfg = sample_cli_config,
      dp_dummy = sample_phc, dp_oidc = None, dp_chal = None,
      dp_limiter = NewRedisLimiter True (\<lambda>_. Some \<lparr>ru_Limit = 5, ru_Window = Minute\<rparr>) None, dp_mux = sample_mux, dp_static = None,
      dp_sweeper = sample_sweep\<rparr>"

definition deleted_world :: "mem world" where
  "deleted_world = sample_world1\<lparr>w_pastes := [(swept_row 1 3600000000000)\<lparr>pm_DeletedAt := Some 0, pm_DeletedBy := Some 7\<rparr>]\<rparr>"

lemma deleted_world_ok: "world_ok (dp_env sample_deployment) deleted_world"
proof -
  have "env_laws (dp_env sample_deployment)"
    using sample_env_laws by (simp add: env_laws_def sample_deployment_def crypto_laws_def uuid_laws_def pg_time_laws_def)
  then show ?thesis
    using sample_world1_ok(1)
    by (simp add: world_ok_def deleted_world_def pastes_ok_def paste_row_ok_def int4_def sample_world1_def sample_user_def swept_row_def)
qed

definition sample_swept :: "mem world" where
  "sample_swept = snd (RunOnce (live_sweeper (dp_env sample_deployment) (dp_live sample_deployment) (dp_sweeper sample_deployment))
     background deleted_world)"

lemma deleted_read_answers:
  assumes "e_fate E (w_tick w) = Served" and "paste_row w i = Some m" and "pm_DeletedAt m \<noteq> None"
  shows "\<exists>res w'. service_Read (live_deps E l) c p i pw w = (Inr res, w')"
proof -
  have "PasteStore_Get E i w = (Inr m, tick w)" using assms(1,2) by (simp add: Get_row)
  then show ?thesis
    using assms(3) by (auto simp: service_Read_def bindR_def schema.live_ports meta_Status_def Let_def split: prod.splits sum.splits)
qed

text \<open>The sweep of the sample keeps the deleted row, which is younger than the retention time.\<close>

lemma sample_swept_row: "\<exists>m. paste_row sample_swept 1 = Some m \<and> pm_DeletedAt m \<noteq> None"
proof (cases rule: RunOnce_step [OF deleted_world_ok prod.collapse [symmetric] refl,
      of "dp_live sample_deployment" "dp_sweeper sample_deployment" background])
  case (1 ids w1 row)
  have row: "paste_row deleted_world 1 = Some ((swept_row 1 3600000000000)\<lparr>pm_DeletedAt := Some 0, pm_DeletedBy := Some 7\<rparr>)"
    by (simp add: paste_row_def deleted_world_def swept_row_def)
  then obtain m where m: "row 1 = Some m" "pm_DeletedAt m \<noteq> None" "pm_CreatedAt m = 0"
    using 1(7) [of 1] by (auto simp: mark_expired_def swept_row_def)
  have "\<not> 0 < e_pg_time (dp_env sample_deployment)
      (days_before (e_clock (dp_env sample_deployment) (w_tick deleted_world)) (sc_MetadataRetentionDays (dp_sweeper sample_deployment)))"
    by (simp add: sample_deployment_def sample_env_def days_before_def sample_sweep_def deleted_world_def sample_world1_def sample_world_def time_units)
  with m 1(8) [of 1] show ?thesis by (auto simp: sample_swept_def)
qed

theorem deletion_final_witness:
  "world_ok (dp_env sample_deployment) sample_swept \<and>
     (\<exists>res w''. service_Read (live_deps (dp_env sample_deployment) sample_live) background None 1 [] sample_swept = (Inr res, w'') \<and>
        rr_Status res = StatusDeleted \<and> rr_Content res = None)"
proof -
  have "sys_step sample_deployment deleted_world sample_swept"
    unfolding sample_swept_def by (rule sys_step.sweep)
  then have run: "(sys_step sample_deployment)\<^sup>*\<^sup>* deleted_world sample_swept" by (rule r_into_rtranclp)
  have "chal_ok (dp_chal sample_deployment)" "e_uuid_New (dp_env sample_deployment) n \<noteq> 1" for n
    by (simp_all add: chal_ok_def sample_deployment_def)
  then have final: "world_ok (dp_env sample_deployment) sample_swept \<and>
     (\<forall>l c p pw res w''. service_Read (live_deps (dp_env sample_deployment) l) c p 1 pw sample_swept = (Inr res, w'') \<longrightarrow>
        rr_Status res = StatusDeleted \<and> rr_Content res = None)"
    by (intro deletion_final [OF run _ deleted_world_ok]) (auto simp: deleted_world_def)
  have "e_fate (dp_env sample_deployment) (w_tick sample_swept) = Served"
    by (simp add: sample_deployment_def sample_env_def)
  then obtain res w'' where
    "service_Read (live_deps (dp_env sample_deployment) sample_live) background None 1 [] sample_swept = (Inr res, w'')"
    using sample_swept_row deleted_read_answers by blast
  with final show ?thesis by blast
qed

end
