(* ===== verification/Migrations.thy ===== *)
theory Migrations
  imports World Metrics "HOL-Library.Multiset"
begin

text \<open>
  \<^verbatim>\<open>internal/store/postgres/migrate.go\<close>: the embedded migrations are applied in the order of their names, each in
  its own transaction together with its row in \<^verbatim>\<open>schema_migrations\<close>, under an advisory lock. What a script
  does to the schema is Postgres's: \<open>sql text d\<close> is the schema after the script on schema \<open>d\<close>, or its error.
\<close>

section \<open>The database\<close>

record 'd mig =
  mg_tick :: nat
  mg_lock :: bool
  mg_table :: bool
  mg_names :: "string list"
  mg_schema :: 'd

definition mig_tick :: "'d mig \<Rightarrow> 'd mig" where
  "mig_tick m = m\<lparr>mg_tick := Suc (mg_tick m)\<rparr>"

text \<open>A statement outside a transaction, and one inside, whose effect waits for the commit.\<close>

definition mig_call :: "(nat \<Rightarrow> fate) \<Rightarrow> ('d mig \<Rightarrow> 'a \<times> 'd mig) \<Rightarrow> ('d mig, 'a) op" where
  "mig_call F f m =
     (case F (mg_tick m) of
        Served \<Rightarrow> (case f (mig_tick m) of (a, m') \<Rightarrow> (Inr a, m'))
      | Refused \<Rightarrow> (Inl (EService ''postgres''), mig_tick m)
      | ReplyLost \<Rightarrow> (Inl (EService ''postgres''), snd (f (mig_tick m))))"

definition tx_call :: "(nat \<Rightarrow> fate) \<Rightarrow> 'a res \<Rightarrow> ('d mig, 'a) op" where
  "tx_call F r m =
     (case F (mg_tick m) of Served \<Rightarrow> (r, mig_tick m) | _ \<Rightarrow> (Inl (EService ''postgres''), mig_tick m))"

section \<open>Migrate\<close>

text \<open>One migration that is not yet recorded: the script, the row, the commit; every error rolls back.\<close>

definition migrate_one :: "(nat \<Rightarrow> fate) \<Rightarrow> (string \<Rightarrow> 'd \<Rightarrow> 'd res) \<Rightarrow> string \<Rightarrow> string \<Rightarrow> ('d mig, unit) op" where
  "migrate_one F sql name text m =
     bindR (mig_call F (\<lambda>m. ((), m))) (\<lambda>_.
     bindR (mapE (EWrap (''migrate: '' @ name)) (tx_call F (sql text (mg_schema m)))) (\<lambda>d.
     bindR (tx_call F (if name \<in> set (mg_names m) then Inl (EPg ''23505'') else Inr ())) (\<lambda>_.
     mig_call F (\<lambda>m. ((), m\<lparr>mg_schema := d, mg_names := mg_names m @ [name]\<rparr>))))) m"

fun migrate_all :: "(nat \<Rightarrow> fate) \<Rightarrow> (string \<Rightarrow> 'd \<Rightarrow> 'd res) \<Rightarrow> (string \<times> string) list \<Rightarrow> string list \<Rightarrow> 'd mig \<Rightarrow>
    (string list \<times> goerr option) \<times> 'd mig" where
  "migrate_all F sql [] applied m = ((applied, None), m)"
| "migrate_all F sql ((name, text) # rest) applied m =
     (case mig_call F (\<lambda>m. (name \<in> set (mg_names m), m)) m of
        (Inl err, m) \<Rightarrow> ((applied, Some err), m)
      | (Inr True, m) \<Rightarrow> migrate_all F sql rest applied m
      | (Inr False, m) \<Rightarrow>
          (case migrate_one F sql name text m of
             (Inl err, m) \<Rightarrow> ((applied, Some err), m)
           | (Inr _, m) \<Rightarrow> migrate_all F sql rest (applied @ [name]) m))"

definition Migrate :: "(nat \<Rightarrow> fate) \<Rightarrow> (string \<Rightarrow> 'd \<Rightarrow> 'd res) \<Rightarrow> (string \<times> string) list \<Rightarrow> 'd mig \<Rightarrow>
    (string list \<times> goerr option) \<times> 'd mig" where
  "Migrate F sql files m =
     (case mig_call F (\<lambda>m. ((), m)) m of
        (Inl err, m) \<Rightarrow> (([], Some err), m)
      | (Inr _, m) \<Rightarrow>
          (case mig_call F (\<lambda>m. ((), m\<lparr>mg_lock := True\<rparr>)) m of
             (Inl err, m) \<Rightarrow> (([], Some (EWrap ''migrate: lock'' err)), m)
           | (Inr _, m) \<Rightarrow>
               (let (res, m) =
                  (case mig_call F (\<lambda>m. ((), m\<lparr>mg_table := True\<rparr>)) m of
                     (Inl err, m) \<Rightarrow> (([], Some (EWrap ''migrate: bootstrap'' err)), m)
                   | (Inr _, m) \<Rightarrow> migrate_all F sql (sort_names files) [] m)
                in (res, snd (mig_call F (\<lambda>m. ((), m\<lparr>mg_lock := False\<rparr>)) m)))))"

section \<open>The recorded migrations are the applied ones\<close>

fun run_scripts :: "(string \<Rightarrow> 'd \<Rightarrow> 'd res) \<Rightarrow> (string \<times> string) list \<Rightarrow> 'd \<Rightarrow> 'd res" where
  "run_scripts sql [] d = Inr d"
| "run_scripts sql ((_, text) # fs) d = (case sql text d of Inl e \<Rightarrow> Inl e | Inr d' \<Rightarrow> run_scripts sql fs d')"

lemma run_scripts_append:
  "run_scripts sql (fs @ gs) d = (case run_scripts sql fs d of Inl e \<Rightarrow> Inl e | Inr d' \<Rightarrow> run_scripts sql gs d')"
  by (induction sql fs d rule: run_scripts.induct) (auto split: sum.splits)

text \<open>The first \<open>k\<close> migrations have been applied to the empty schema \<open>d0\<close>, and these are the recorded names.\<close>

definition applied_upto :: "(string \<Rightarrow> 'd \<Rightarrow> 'd res) \<Rightarrow> 'd \<Rightarrow> (string \<times> string) list \<Rightarrow> nat \<Rightarrow> 'd mig \<Rightarrow> bool" where
  "applied_upto sql d0 fs k m \<longleftrightarrow>
     k \<le> length fs \<and> mg_names m = map fst (take k fs) \<and> run_scripts sql (take k fs) d0 = Inr (mg_schema m)"

lemma applied_upto_frame:
  "mg_names m' = mg_names m \<Longrightarrow> mg_schema m' = mg_schema m \<Longrightarrow> applied_upto sql d0 fs k m' = applied_upto sql d0 fs k m"
  by (simp add: applied_upto_def)

lemma applied_upto_next:
  assumes "applied_upto sql d0 fs k m" and "k < length fs" and "fs ! k = (name, text)" and "sql text (mg_schema m) = Inr d"
    and "mg_schema m' = d" and "mg_names m' = mg_names m @ [name]"
  shows "applied_upto sql d0 fs (Suc k) m'"
  using assms by (simp add: applied_upto_def take_Suc_conv_app_nth run_scripts_append)

lemma mig_call_same:
  assumes "\<And>m. mg_names (snd (f m)) = mg_names m \<and> mg_schema (snd (f m)) = mg_schema m"
  shows "mg_names (snd (mig_call F f m)) = mg_names m" "mg_schema (snd (mig_call F f m)) = mg_schema m"
  using assms [of "mig_tick m"]
  by (auto simp: mig_call_def mig_tick_def split: fate.splits prod.splits)

lemma tx_call_same [simp]:
  "mg_names (snd (tx_call F r m)) = mg_names m" "mg_schema (snd (tx_call F r m)) = mg_schema m"
  by (auto simp: tx_call_def mig_tick_def split: fate.splits)

lemma migrate_one_upto:
  assumes k: "applied_upto sql d0 fs k m" "k < length fs" "fs ! k = (name, text)" and "migrate_one F sql name text m = (r, m')"
  shows "(r \<noteq> Inr () \<and> applied_upto sql d0 fs k m') \<or> applied_upto sql d0 fs (Suc k) m'"
proof -
  obtain b m1 where 1: "mig_call F (\<lambda>m. ((), m)) m = (b, m1)" "mg_names m1 = mg_names m" "mg_schema m1 = mg_schema m"
    using mig_call_same [of "\<lambda>m. ((), m)" F m] by (cases "mig_call F (\<lambda>m. ((), m)) m") simp
  obtain d m2 where 2: "tx_call F (sql text (mg_schema m)) m1 = (d, m2)" "mg_names m2 = mg_names m" "mg_schema m2 = mg_schema m"
    using 1(2,3) tx_call_same [of F "sql text (mg_schema m)" m1] by (cases "tx_call F (sql text (mg_schema m)) m1") simp
  let ?i = "if name \<in> set (mg_names m) then Inl (EPg ''23505'') else Inr () :: unit res"
  obtain e m3 where 3: "tx_call F ?i m2 = (e, m3)" "mg_names m3 = mg_names m" "mg_schema m3 = mg_schema m"
    using 2(2,3) tx_call_same [of F ?i m2] by (cases "tx_call F ?i m2") simp
  show ?thesis
  proof (cases "\<exists>d'. b = Inr () \<and> d = Inr d' \<and> e = Inr ()")
    case False
    with assms(4) 1 2 3 have "r \<noteq> Inr () \<and> mg_names m' = mg_names m \<and> mg_schema m' = mg_schema m"
      by (auto simp: migrate_one_def bindR_def mapE_def split: sum.splits)
    then show ?thesis using k(1) applied_upto_frame by metis
  next
    case True
    then obtain d' where d': "b = Inr ()" "d = Inr d'" "e = Inr ()" by blast
    have sql: "sql text (mg_schema m) = Inr d'"
      using 2(1) d'(2) by (auto simp: tx_call_def split: fate.splits)
    let ?c = "\<lambda>m. ((), m\<lparr>mg_schema := d', mg_names := mg_names m @ [name]\<rparr>)"
    have "mig_call F ?c m3 = (r, m')"
      using assms(4) 1 2 3 d' by (simp add: migrate_one_def bindR_def mapE_def)
    then consider "r \<noteq> Inr ()" "m' = mig_tick m3" | "m' = snd (?c (mig_tick m3))"
      by (auto simp: mig_call_def split: fate.splits)
    then show ?thesis
    proof cases
      case 1
      then show ?thesis using k(1) 3 applied_upto_frame [of m' m] by (simp add: mig_tick_def)
    next
      case 2
      then show ?thesis using applied_upto_next [OF k sql] 3 by (simp add: mig_tick_def)
    qed
  qed
qed

lemma recorded_iff:
  assumes "distinct (map fst fs)" and "applied_upto sql d0 fs k m" and i: "i < length fs" and f: "fs ! i = (name, scr)"
  shows "name \<in> set (mg_names m) \<longleftrightarrow> i < k"
proof
  have k: "k \<le> length fs" "mg_names m = map fst (take k fs)" using assms(2) by (simp_all add: applied_upto_def)
  show "name \<in> set (mg_names m)" if "i < k"
    using that k i f by (force simp: in_set_conv_nth)
  show "i < k" if n: "name \<in> set (mg_names m)"
  proof -
    obtain j where "j < k" "j < length fs" "fst (fs ! j) = name" using n k(2) by (auto simp: in_set_conv_nth)
    then have "j = i" using assms(1) i f by (simp add: distinct_conv_nth) (metis fst_conv)
    then show ?thesis using \<open>j < k\<close> by simp
  qed
qed

lemma migrate_one_fails:
  assumes "applied_upto sql d0 fs k m" and "k < length fs" and "fs ! k = (name, text)" and "name \<notin> set (mg_names m)"
    and "migrate_one F sql name text m = (Inl e, m')" and "\<And>n. F n = Served"
  shows "\<exists>e. run_scripts sql fs d0 = Inl e"
proof -
  have "\<exists>e. sql text (mg_schema m) = Inl e"
    using assms(4-6) by (auto simp: migrate_one_def bindR_def mapE_def mig_call_def tx_call_def mig_tick_def split: sum.splits)
  moreover have "fs = take k fs @ (name, text) # drop (Suc k) fs"
    using id_take_nth_drop [OF assms(2)] assms(3) by simp
  then have "run_scripts sql fs d0 = run_scripts sql (take k fs @ (name, text) # drop (Suc k) fs) d0" by (rule arg_cong)
  ultimately show ?thesis using assms(1) by (auto simp: applied_upto_def run_scripts_append)
qed

definition migrated_from :: "(nat \<Rightarrow> fate) \<Rightarrow> (string \<Rightarrow> 'd \<Rightarrow> 'd res) \<Rightarrow> 'd \<Rightarrow> (string \<times> string) list \<Rightarrow> nat \<Rightarrow> string list \<Rightarrow>
    string list \<times> goerr option \<Rightarrow> 'd mig \<Rightarrow> bool" where
  "migrated_from F sql d0 fs k applied res m' \<longleftrightarrow>
     (case snd res of
        None \<Rightarrow> applied_upto sql d0 fs (length fs) m' \<and> fst res = applied @ map fst (drop k fs)
      | Some _ \<Rightarrow> (\<exists>k' \<ge> k. applied_upto sql d0 fs k' m') \<and> ((\<exists>n. F n \<noteq> Served) \<or> (\<exists>e. run_scripts sql fs d0 = Inl e)))"

lemma migrate_all_upto:
  assumes "distinct (map fst fs)" and "applied_upto sql d0 fs k m" and "i \<le> k" and "migrate_all F sql (drop i fs) applied m = (res, m')"
  shows "migrated_from F sql d0 fs k applied res m'"
  using assms(2-4)
proof (induction "length fs - i" arbitrary: i k m applied)
  case 0
  then have "k = length fs" "drop i fs = []" by (auto simp: applied_upto_def)
  with 0 show ?case by (auto simp: migrated_from_def)
next
  case (Suc n)
  then have i: "i < length fs" by simp
  obtain name scr where f: "fs ! i = (name, scr)" by fastforce
  have drop: "drop i fs = (name, scr) # drop (Suc i) fs" using Cons_nth_drop_Suc [OF i] f by simp
  let ?q = "\<lambda>m. (name \<in> set (mg_names m), m)"
  obtain a m1 where 1: "mig_call F ?q m = (a, m1)" "mg_names m1 = mg_names m" "mg_schema m1 = mg_schema m"
    using mig_call_same [of ?q F m] by (cases "mig_call F ?q m") simp
  have m1: "applied_upto sql d0 fs k m1" using Suc.prems(1) applied_upto_frame 1 by metis
  have ex: "name \<in> set (mg_names m) \<longleftrightarrow> i < k" using recorded_iff [OF assms(1) Suc.prems(1) i f] .
  consider (err) e where "a = Inl e" "F (mg_tick m) \<noteq> Served" | (old) "a = Inr True" "i < k" | (new) "a = Inr False" "\<not> i < k"
    using 1(1) ex by (cases "i < k") (auto simp: mig_call_def mig_tick_def split: fate.splits)
  then show ?case
  proof cases
    case err
    then show ?thesis using Suc.prems(3) 1(1) m1 by (auto simp: drop migrated_from_def)
  next
    case old
    then show ?thesis using Suc.hyps(2) Suc.prems(3) 1(1) m1 by (intro Suc.hyps(1) [of "Suc i"]) (auto simp: drop)
  next
    case new
    then have ik: "i = k" using Suc.prems(2) by simp
    obtain r m2 where 2: "migrate_one F sql name scr m1 = (r, m2)" by fastforce
    have step: "(r \<noteq> Inr () \<and> applied_upto sql d0 fs k m2) \<or> applied_upto sql d0 fs (Suc k) m2"
      using migrate_one_upto [OF m1 _ _ 2] i f ik by simp
    show ?thesis
    proof (cases r)
      case (Inl e)
      then have "m' = m2" "snd res \<noteq> None" using Suc.prems(3) 1(1) 2 new by (auto simp: drop)
      moreover have "(\<exists>n. F n \<noteq> Served) \<or> (\<exists>e. run_scripts sql fs d0 = Inl e)"
        using migrate_one_fails [OF m1, of name scr F e m2] i f ik ex 1(2) 2 Inl by auto
      moreover have "\<exists>k' \<ge> k. applied_upto sql d0 fs k' m2" using step le_refl le_SucI by metis
      ultimately show ?thesis by (auto simp: migrated_from_def)
    next
      case (Inr u)
      then have "migrate_all F sql (drop (Suc i) fs) (applied @ [name]) m2 = (res, m')"
        using Suc.prems(3) 1(1) 2 new(1) by (simp add: drop)
      then have "migrated_from F sql d0 fs (Suc k) (applied @ [name]) res m'"
        using Suc.hyps(2) ik step Inr by (intro Suc.hyps(1) [of "Suc i"]) auto
      then show ?thesis using drop ik by (auto simp: migrated_from_def split: option.splits intro: Suc_leD)
    qed
  qed
qed

lemma mset_sort_names: "mset (sort_names xs) = mset xs"
proof -
  have "mset (insert_name x ys) = add_mset x (mset ys)" for x and ys :: "(string \<times> 'a) list"
    by (induction x ys rule: insert_name.induct) auto
  then show ?thesis by (induction xs) (simp_all add: sort_names_def)
qed

lemma sort_names_facts:
  "length (sort_names xs) = length xs" "distinct (map fst (sort_names xs)) = distinct (map fst xs)"
  using mset_sort_names [of xs] by (metis size_mset, metis mset_map mset_eq_imp_distinct_iff)

lemma byte_le_linear: "byte_le a b \<or> byte_le b a"
proof (induction a b rule: byte_le.induct)
  case (3 x a y b)
  then show ?case by (cases "of_char x :: nat" "of_char y :: nat" rule: linorder_cases) auto
qed auto

lemma byte_le_trans: "byte_le a b \<Longrightarrow> byte_le b c \<Longrightarrow> byte_le a c"
proof (induction a b arbitrary: c rule: byte_le.induct)
  case (3 x a y b)
  then show ?case by (cases c) auto
qed auto

lemma sorted_sort_names: "sorted_wrt byte_le (map fst (sort_names xs))"
proof -
  have set: "set (insert_name x ys) = insert x (set ys)" for x and ys :: "(string \<times> 'a) list"
    by (induction x ys rule: insert_name.induct) auto
  have "sorted_wrt byte_le (map fst (insert_name x ys))" if "sorted_wrt byte_le (map fst ys)" for x and ys :: "(string \<times> 'a) list"
    using that by (induction x ys rule: insert_name.induct) (use byte_le_linear byte_le_trans in \<open>auto simp: set\<close>)
  then show ?thesis by (induction xs) (simp_all add: sort_names_def)
qed

lemma Migrate_cases:
  assumes "Migrate F sql files m = ((names, err), m')"
  obtains (stopped) n where "F n \<noteq> Served" "err \<noteq> None" "mg_names m' = mg_names m" "mg_schema m' = mg_schema m"
  | (ran) m1 m2 where "migrate_all F sql (sort_names files) [] m1 = ((names, err), m2)"
      "mg_names m1 = mg_names m" "mg_schema m1 = mg_schema m" "mg_names m' = mg_names m2" "mg_schema m' = mg_schema m2"
      "(\<forall>n. F n = Served) \<longrightarrow> \<not> mg_lock m'"
proof (cases "F (mg_tick m) = Served \<and> F (Suc (mg_tick m)) = Served \<and> F (Suc (Suc (mg_tick m))) = Served")
  case True
  let ?m1 = "m\<lparr>mg_lock := True, mg_tick := Suc (Suc (Suc (mg_tick m))), mg_table := True\<rparr>"
  obtain res m2 where all: "migrate_all F sql (sort_names files) [] ?m1 = (res, m2)" by fastforce
  let ?unlock = "\<lambda>m. ((), m\<lparr>mg_lock := False\<rparr>)"
  have m': "res = (names, err)" "m' = snd (mig_call F ?unlock m2)"
    using assms True all by (simp_all add: Migrate_def mig_call_def mig_tick_def)
  have "(\<forall>n. F n = Served) \<longrightarrow> \<not> mg_lock m'" by (simp add: m'(2) mig_call_def)
  with all m' show ?thesis using ran [of ?m1 m2] mig_call_same [of ?unlock F m2] by simp
next
  case False
  then obtain n where "F n \<noteq> Served" by blast
  moreover have "err \<noteq> None \<and> mg_names m' = mg_names m \<and> mg_schema m' = mg_schema m"
    using assms False by (auto simp: Migrate_def mig_call_def mig_tick_def split: fate.splits)
  ultimately show ?thesis using stopped by blast
qed

text \<open>
  C38. The migration runner is atomic per script and resumes where it stopped. Starting from a database in which the first
  \<open>k\<close> scripts in byte order of their names have been applied and recorded, and whatever statements Postgres refuses or
  answers too late, the recorded names are again those of the first \<open>k' \<ge> k\<close> scripts and the schema is exactly what
  these scripts make of the empty one: no script is recorded without its effect or applied twice, and none is skipped.
  The run reports no error only when every script is in, and then the names it returns are the ones it added, so that a
  further run returns no names; it does report success when Postgres serves every statement and no script fails.
\<close>

theorem migrate_resumes:
  assumes "distinct (map fst files)" and "applied_upto sql d0 (sort_names files) k m"
    and "Migrate F sql files m = ((names, err), m')"
  shows "(\<exists>k' \<ge> k. applied_upto sql d0 (sort_names files) k' m') \<and> sorted_wrt byte_le (map fst (sort_names files)) \<and>
    (err = None \<longrightarrow> applied_upto sql d0 (sort_names files) (length files) m' \<and> names = map fst (drop k (sort_names files))) \<and>
    ((\<forall>n. F n = Served) \<and> (\<forall>e. run_scripts sql (sort_names files) d0 \<noteq> Inl e) \<longrightarrow> err = None \<and> \<not> mg_lock m')"
  using assms(3)
proof (cases rule: Migrate_cases)
  case (stopped n)
  then show ?thesis using assms(2) applied_upto_frame [OF stopped(3,4)] sorted_sort_names by auto
next
  case (ran m1 m2)
  let ?fs = "sort_names files"
  have "migrated_from F sql d0 ?fs k [] (names, err) m2"
    using migrate_all_upto [of ?fs sql d0 k m1 0 F "[]"] ran(1) assms(1,2) applied_upto_frame [OF ran(2,3)]
    by (simp add: sort_names_facts)
  moreover have "k \<le> length files" using assms(2) by (simp add: applied_upto_def sort_names_facts)
  ultimately show ?thesis
    using ran(6) by (cases err) (auto simp: migrated_from_def sort_names_facts sorted_sort_names applied_upto_frame [OF ran(4,5)])
qed

text \<open>Two scripts that add a table each, the second one missing from the database; the embedded files come unsorted.\<close>

definition sample_sql :: "string \<Rightarrow> string list \<Rightarrow> string list res" where
  "sample_sql text d = (if text \<in> set d then Inl (EPg ''42P07'') else Inr (d @ [text]))"

definition sample_files :: "(string \<times> string) list" where
  "sample_files = [(''0002_audit.sql'', ''audit_log''), (''0001_init.sql'', ''pastes'')]"

definition sample_mig :: "string list mig" where
  "sample_mig = \<lparr>mg_tick = 0, mg_lock = False, mg_table = True, mg_names = [''0001_init.sql''], mg_schema = [''pastes'']\<rparr>"

lemma sample_migration:
  "distinct (map fst sample_files)" "applied_upto sample_sql [] (sort_names sample_files) 1 sample_mig"
  by code_simp+

theorem migrate_resumes_witness:
  "applied_upto sample_sql [] (sort_names sample_files) (length sample_files)
     (snd (Migrate (\<lambda>_. Served) sample_sql sample_files sample_mig))"
proof -
  have "Migrate (\<lambda>_. Served) sample_sql sample_files sample_mig =
      (([''0002_audit.sql''], None), snd (Migrate (\<lambda>_. Served) sample_sql sample_files sample_mig))"
    by (simp add: prod_eq_iff) code_simp
  from migrate_resumes [OF sample_migration this] show ?thesis by simp
qed

end
