(* ===== verification/Spec2Isabelle.thy ===== *)
theory Spec2Isabelle
  imports PasteProps System Migrations
begin

text \<open>
  Verification of the secure pastebin service.

  \<^bold>\<open>The program.\<close> The service keeps short-lived texts. A paste is a row in Postgres with metadata and an
  encrypted body in Redis that expires by itself. The HTTP layer (\<^verbatim>\<open>internal/httpserver\<close>) resolves the session of
  a request, checks CSRF tokens and rate limits and calls the paste service (\<^verbatim>\<open>internal/paste\<close>), which seals and
  opens bodies with the envelope of \<^verbatim>\<open>internal/crypto\<close>. Accounts log in with a password or by OpenID Connect
  (\<^verbatim>\<open>internal/auth\<close>). A sweeper (\<^verbatim>\<open>internal/sweeper\<close>) removes what has expired. Administrators manage accounts on the
  command line (\<^verbatim>\<open>internal/cli\<close>).

  \<^bold>\<open>How code is represented.\<close> Strings are \<open>string\<close> (one character per byte), \<^verbatim>\<open>[]byte\<close> is a list of 8-bit words, a UUID
  is a 128-bit word, 64-bit integers, times and durations are \<open>int\<close> with \<open>wrap64\<close> written out where Go wraps. A
  struct is a record and a Go interface a record of its methods. An operation is a function from a state to a result
  and a new state; a result is \<open>Inl\<close> of an error of \<open>goerr\<close> or \<open>Inr\<close> of a value, and \<open>bindR\<close> is the early return on
  an error. In a handler an \<open>Inl\<close> is a panic. The state of the process and of both servers is the record \<open>world\<close>.
  Everything that is not code of the repository (the Redis server, clocks, random bytes, AES-GCM, Argon2id, the UUID
  package, the identity provider, the fate of every network call) is a field of \<open>env\<close> or another argument of the
  definitions. What the code relies on is \<open>env_laws\<close>, and \<open>Sample\<close> has an instance for which the laws are proved. Every
  call of a server has a fate: \<open>Served\<close>, \<open>Refused\<close>, or \<open>ReplyLost\<close> (done, but an error is seen). A property without
  the premise \<open>healthy\<close> holds for all fates.

  \<^bold>\<open>Theories: language and environment.\<close>
  \<^item> \<open>Prelude\<close>, \<open>Strconv\<close>, \<open>Utf8\<close>, \<open>Base64\<close>, \<open>Netip\<close>, \<open>Float64\<close>: the parts of Go's library the sources call, with
    their round trips. \<open>Base64\<close> proves its lemmas for any alphabet in the locale \<open>b64_alphabet\<close>.
  \<^item> \<open>Errors\<close>: error values, \<^verbatim>\<open>errors.Is\<close> and the operations.
  \<^item> \<open>World\<close>, \<open>Sample\<close>, \<open>Tables\<close>: the environment with its laws, a concrete one, the constraints of
    \<^verbatim>\<open>0001_init.sql\<close> and the invariant \<open>world_ok\<close>.

  \<^bold>\<open>Theories: pastes.\<close>
  \<^item> \<open>PasteTypes\<close>, \<open>Canonical\<close>, \<open>Ports\<close>, \<open>Service\<close>: \<^verbatim>\<open>types.go\<close>, \<^verbatim>\<open>canonical.go\<close>, \<^verbatim>\<open>ports.go\<close> and
    \<^verbatim>\<open>service.go\<close> of \<^verbatim>\<open>internal/paste\<close>. \<open>Ports\<close> states the contracts as the locales \<open>body_store\<close>, \<open>meta_store\<close> and
    \<open>envelope_port\<close>.
  \<^item> \<open>ServiceLaws\<close>: what the service guarantees over any ports with these contracts (locale \<open>paste_ports\<close>).
  \<^item> \<open>Gate\<close>, \<open>Envelope\<close>, \<open>Phc\<close>: \<^verbatim>\<open>gate.go\<close> with the interleaving of its users, \<^verbatim>\<open>envelope.go\<close> and
    \<^verbatim>\<open>phc.go\<close>: sealed records open again and nothing else opens; a printed hash verifies its password.
  \<^item> \<open>BodyJson\<close>, \<open>BodyStore\<close>, \<open>PasteStore\<close>: \<^verbatim>\<open>redis/body.go\<close> with the JSON form of a record and
    \<^verbatim>\<open>postgres/pastes.go\<close>, with the interpretations of the contracts.
  \<^item> \<open>AuditLog\<close>, \<open>Logging\<close>, \<open>AuditStore\<close>: \<^verbatim>\<open>internal/audit\<close>, \<^verbatim>\<open>internal/logging\<close> and \<^verbatim>\<open>postgres/audit.go\<close>.
  \<^item> \<open>Live\<close>, \<open>PasteProps\<close>: the service over the repository's own stores, by the interpretation \<open>live\<close>, and its
    properties: what is created is read back, nothing is released late or to the wrong caller, deletion removes the
    body, a failed creation leaves none, and creation succeeds when the servers answer.
  \<^item> \<open>Sweeper\<close>: \<^verbatim>\<open>sweeper.go\<close>; a pass harms no live paste and does its work when the servers answer.

  \<^bold>\<open>Theories: accounts.\<close>
  \<^item> \<open>UserStore\<close>, \<open>AuthPorts\<close>, \<open>LocalAuth\<close>: \<^verbatim>\<open>postgres/users.go\<close>, \<^verbatim>\<open>auth/ports.go\<close>, \<^verbatim>\<open>hasher.go\<close>,
    \<^verbatim>\<open>random.go\<close> and \<^verbatim>\<open>local.go\<close>. The locales \<open>user_directory\<close> and \<open>password_hasher\<close> give \<open>local_login\<close>, which decides
    the outcome of every login.
  \<^item> \<open>Sessions\<close>: \<^verbatim>\<open>redis/sessions.go\<close> with its Lua scripts; no session outlives its absolute expiry.
  \<^item> \<open>OidcState\<close>, \<open>Oidc\<close>: \<^verbatim>\<open>redis/oidcstate.go\<close> and \<^verbatim>\<open>auth/oidc.go\<close>; a state is used once, and what a successful
    login has checked.
  \<^item> \<open>Config\<close>: \<^verbatim>\<open>internal/config\<close>; what a loaded configuration satisfies.
  \<^item> \<open>RateLimit\<close>: \<^verbatim>\<open>internal/ratelimit\<close>; the limiter refines fixed windows and bounds what any interval admits.

  \<^bold>\<open>Theories: HTTP, command line, whole system.\<close>
  \<^item> \<open>Metrics\<close>, \<open>Http\<close>, \<open>HttpSession\<close>, \<open>HttpPaste\<close>, \<open>Router\<close>: \<^verbatim>\<open>internal/httpserver\<close>: requests and the response
    writer, sessions and login handlers, paste, challenge and configuration handlers, middlewares, multiplexers, health
    and static files. \<open>NewHandler\<close> is the whole chain, \<open>ServeHTTP\<close> what the server does with it.
  \<^item> \<open>HttpProps\<close>: every request is answered with a known status and the security headers; refused requests change
    nothing; the login limits count the address of the peer and the account.
  \<^item> \<open>Durable\<close>: an invariant of the tables that the statements keep (locale \<open>store_invariant\<close>) is kept by the services,
    by the handlers (locale \<open>handler_ports\<close>) and by the sweeper.
  \<^item> \<open>Cli\<close>: \<^verbatim>\<open>cli.go\<close>, \<^verbatim>\<open>user.go\<close> and the two \<^verbatim>\<open>Connect\<close> functions; an account that was created can log in.
  \<^item> \<open>System\<close>: the step relation \<open>sys_step\<close> of requests, sweeps, account commands, restarts and losses of Redis; its
    invariants are the schema and the finality of deletion (interpretations \<open>schema\<close>, \<open>deletion\<close> and \<open>api\<close>).
  \<^item> \<open>Migrations\<close>: \<^verbatim>\<open>postgres/migrate.go\<close>; the runner is atomic per script and resumes where it stopped.

  \<^bold>\<open>Bounds.\<close> No definition needs fuel: loops of the source are recursions over a list, over a text that gets shorter, or
  over the number of attempts the source itself fixes (\<^verbatim>\<open>SessionStore.Create\<close>). The loop of the sweeper is a recursion
  over the outcomes of its \<^verbatim>\<open>select\<close>, a list of any length.

  \<^bold>\<open>Concurrency.\<close> A request, a sweep or a command is one step of \<open>sys_step\<close>; steps interleave, their parts do not. Within
  the paste service the effect of others between two calls is not modelled either. The gate is the exception: \<open>Gate\<close> has
  the interleaving of the goroutines that share it.

  \<^bold>\<open>Not modelled.\<close>
  \<^item> \<^verbatim>\<open>httpserver/server.go\<close>, \<^verbatim>\<open>cmd/pastebin/main.go\<close>: listening sockets, TLS, timeouts and signals.
  \<^item> \<^verbatim>\<open>cli/serve.go\<close>, \<^verbatim>\<open>cli/migrate.go\<close>: start-up code that loads the configuration, connects and logs. The
    functions they call are modelled. The serve command does not build the API handler yet; \<open>live_handlers\<close> puts the
    repository's own ports together the way the constructors ask for.
  \<^item> \<^verbatim>\<open>version.go\<close>, \<^verbatim>\<open>ui/embed.go\<close>: a constant and embedded files, parameters of their users.
  \<^item> \<^verbatim>\<open>crypto/zero.go\<close> and the other overwriting of buffers: no effect on values.
  \<^item> Contexts carry the request information only. Cancellation shows as the fate of a call and as the outcome of
    the gate's and the sweeper's \<^verbatim>\<open>select\<close>.
  \<^item> The text of JSON, of log lines and of error messages with quoted parts: values stand for them.
  \<^item> The challenge service, for which the repository has an interface only: a parameter of the handlers.
\<close>

end
